theory Spec2Isabelle
  imports Main
begin

section \<open>Allocator types and their compile-time traits (experimental\_memory.h)\<close>

text \<open>
  What \<open>allocate\<close> of a backing allocator does: \<open>std::allocator\<close> takes a block from
  the heap, \<open>terminating_allocator\<close> calls \<open>terminate()\<close>, \<open>throwing_allocator\<close>
  throws \<open>bad_alloc\<close>, \<open>unchecked_allocator\<close> returns \<open>nullptr\<close>.
\<close>

datatype policy = Heap | Terminating | Throwing | Unchecked

text \<open>
  A backing allocator type, as far as the container looks at it: its identity (for
  \<open>is_same_v\<close>), what \<open>allocate\<close> does, the \<open>can_allocate\<close> constant when the type
  declares one, whether it has a member \<open>allocate_at_least\<close> (and how many units beyond
  the request that member grants), and the three \<open>allocator_traits\<close> flags the container
  reads.
\<close>

record backing =
  ident :: nat
  alloc_policy :: policy
  can_allocate_decl :: "bool option"
  at_least_member :: "nat option"
  pocma :: bool
  pocca :: bool
  is_always_equal :: bool

text \<open>
  An allocator type is a backing allocator or \<open>buffered_allocator<T, SZ, Backing>\<close> over
  one. (An adapter whose backing is itself an adapter is outside this model.)
\<close>

datatype alloc_type = Plain backing | Buffered nat backing

definition std_allocator :: backing where
  "std_allocator = \<lparr>ident = 0, alloc_policy = Heap, can_allocate_decl = None,
     at_least_member = Some 0, pocma = True, pocca = False, is_always_equal = True\<rparr>"

definition terminating_allocator :: backing where
  "terminating_allocator = \<lparr>ident = 1, alloc_policy = Terminating,
     can_allocate_decl = Some False, at_least_member = None, pocma = False, pocca = False,
     is_always_equal = True\<rparr>"

definition throwing_allocator :: backing where
  "throwing_allocator = \<lparr>ident = 2, alloc_policy = Throwing,
     can_allocate_decl = Some False, at_least_member = None, pocma = False, pocca = False,
     is_always_equal = True\<rparr>"

definition unchecked_allocator :: backing where
  "unchecked_allocator = \<lparr>ident = 3, alloc_policy = Unchecked,
     can_allocate_decl = Some False, at_least_member = None, pocma = False, pocca = False,
     is_always_equal = True\<rparr>"

text \<open>\<open>allocator_info::detail::__get_can_allocate\<close>: the declared constant, else true.\<close>

definition get_can_allocate :: "backing \<Rightarrow> bool" where
  "get_can_allocate b = (case can_allocate_decl b of Some c \<Rightarrow> c | None \<Rightarrow> True)"

text \<open>\<open>backing_allocator_of\<close>, \<open>buffer_capacity\<close> and \<open>can_allocate\<close> of an allocator type.\<close>

fun backing_allocator_of :: "alloc_type \<Rightarrow> backing" where
  "backing_allocator_of (Plain b) = b"
| "backing_allocator_of (Buffered sz b) = b"

fun buffer_capacity :: "alloc_type \<Rightarrow> nat" where
  "buffer_capacity (Plain b) = 0"
| "buffer_capacity (Buffered sz b) = sz"

fun can_allocate :: "alloc_type \<Rightarrow> bool" where
  "can_allocate (Plain b) = get_can_allocate b"
| "can_allocate (Buffered sz b) = get_can_allocate b"

text \<open>The aliases at the end of experimental\_vector.h.\<close>

definition sbo_vector :: "nat \<Rightarrow> backing \<Rightarrow> alloc_type" where
  "sbo_vector sz b = Buffered sz b"

definition static_vector_throw :: "nat \<Rightarrow> alloc_type" where
  "static_vector_throw sz = sbo_vector sz throwing_allocator"

definition static_vector_terminate :: "nat \<Rightarrow> alloc_type" where
  "static_vector_terminate sz = sbo_vector sz throwing_allocator"

definition static_vector :: "nat \<Rightarrow> alloc_type" where
  "static_vector sz = sbo_vector sz unchecked_allocator"

section \<open>Memory: blocks of element slots\<close>

text \<open>
  A pointer \<open>T*\<close> is null or a block and an offset into it. Inline buffers and heap blocks
  are both blocks of the store, so that a pointer moved from one container to another
  still names the same storage.
\<close>

datatype ptr = Nullptr | Ptr nat nat

text \<open>
  \<open>p + n\<close> and \<open>q - p\<close>. C++ defines neither \<open>nullptr + n\<close> for \<open>n > 0\<close> nor the
  difference of pointers into different blocks; the model keeps null and answers 0.
\<close>

fun ptr_add :: "ptr \<Rightarrow> nat \<Rightarrow> ptr" where
  "ptr_add Nullptr n = Nullptr"
| "ptr_add (Ptr b i) n = Ptr b (i + n)"

fun ptr_diff :: "ptr \<Rightarrow> ptr \<Rightarrow> nat" where
  "ptr_diff (Ptr b j) (Ptr a i) = (if a = b then j - i else 0)"
| "ptr_diff q p = 0"

text \<open>
  The store. A slot holds a live element (\<open>Some x\<close>) or raw storage (\<open>None\<close>). A block
  that was deallocated stays in \<open>blocks\<close> but is no longer \<open>live\<close>. The counters record
  heap allocations and element constructor, destructor and assignment calls. \<open>undefined_access\<close>
  is raised by a write outside a live block or a read of a slot that holds no element:
  behaviour that C++ leaves undefined.
\<close>

record 'a memory =
  blocks :: "nat \<Rightarrow> 'a option list"
  live :: "nat \<Rightarrow> bool"
  next_block :: nat
  heap_free :: nat
  allocations :: nat
  constructions :: nat
  destructions :: nat
  assignments :: nat
  undefined_access :: bool

text \<open>How a call ends: it returns, \<open>bad_alloc\<close> is thrown, or \<open>terminate()\<close> is called.\<close>

datatype 'r outcome = Returned 'r | Bad_alloc | Terminated

fun bind :: "'r outcome \<Rightarrow> ('r \<Rightarrow> 's outcome) \<Rightarrow> 's outcome" where
  "bind (Returned r) f = f r"
| "bind Bad_alloc f = Bad_alloc"
| "bind Terminated f = Terminated"

definition read_slot :: "'a memory \<Rightarrow> ptr \<Rightarrow> 'a option" where
  "read_slot m p = (case p of
     Nullptr \<Rightarrow> None
   | Ptr b i \<Rightarrow> if i < length (blocks m b) then blocks m b ! i else None)"

definition write_slot :: "'a memory \<Rightarrow> ptr \<Rightarrow> 'a option \<Rightarrow> 'a memory" where
  "write_slot m p c = (case p of
     Nullptr \<Rightarrow> m\<lparr>undefined_access := True\<rparr>
   | Ptr b i \<Rightarrow>
       if live m b \<and> i < length (blocks m b)
       then m\<lparr>blocks := (blocks m)(b := (blocks m b)[i := c])\<rparr>
       else m\<lparr>undefined_access := True\<rparr>)"

section \<open>Allocation (experimental\_memory.h)\<close>

text \<open>
  \<open>allocate(count)\<close> of a backing allocator. The heap grants a fresh block while
  \<open>heap_free\<close> lasts and throws \<open>bad_alloc\<close> otherwise; the three sentinels are lines
  158, 173 and 188.
\<close>

definition allocate :: "backing \<Rightarrow> nat \<Rightarrow> 'a memory \<Rightarrow> (ptr \<times> 'a memory) outcome" where
  "allocate b count m = (case alloc_policy b of
     Heap \<Rightarrow>
       if count \<le> heap_free m
       then Returned (Ptr (next_block m) 0,
              m\<lparr>blocks := (blocks m)(next_block m := replicate count None),
                live := (live m)(next_block m := True),
                next_block := next_block m + 1,
                heap_free := heap_free m - count,
                allocations := allocations m + 1\<rparr>)
       else Bad_alloc
   | Terminating \<Rightarrow> Terminated
   | Throwing \<Rightarrow> Bad_alloc
   | Unchecked \<Rightarrow> Returned (Nullptr, m))"

text \<open>
  \<open>deallocate(p, count)\<close> of a backing allocator: the heap releases the block, the
  sentinels do nothing.
\<close>

definition deallocate :: "backing \<Rightarrow> ptr \<Rightarrow> nat \<Rightarrow> 'a memory \<Rightarrow> 'a memory" where
  "deallocate b p count m = (case alloc_policy b of
     Heap \<Rightarrow> (case p of
         Nullptr \<Rightarrow> m
       | Ptr a i \<Rightarrow>
           if live m a \<and> i = 0
           then m\<lparr>live := (live m)(a := False), heap_free := heap_free m + length (blocks m a)\<rparr>
           else m\<lparr>undefined_access := True\<rparr>)
   | _ \<Rightarrow> m)"

text \<open>\<open>struct allocation_result { ptr; count; }\<close>\<close>

record allocation_result =
  ptr :: ptr
  count :: nat

text \<open>
  \<open>std::allocate_at_least(_Al, _Count)\<close> (lines 22-30) on a backing allocator: the
  member when the type has one, else \<open>{_Al.allocate(_Count), _Count}\<close>. A member
  \<open>allocate_at_least\<close> with slack \<open>k\<close> allocates and reports \<open>_Count + k\<close> units.
\<close>

definition std_allocate_at_least ::
  "backing \<Rightarrow> nat \<Rightarrow> 'a memory \<Rightarrow> (allocation_result \<times> 'a memory) outcome" where
  "std_allocate_at_least b n m = (case at_least_member b of
     Some k \<Rightarrow> bind (allocate b (n + k) m)
                (\<lambda>(p, m'). Returned (\<lparr>ptr = p, count = n + k\<rparr>, m'))
   | None \<Rightarrow> bind (allocate b n m)
                (\<lambda>(p, m'). Returned (\<lparr>ptr = p, count = n\<rparr>, m')))"

text \<open>
  An allocator object: the block that is its inline buffer \<open>m_data\<close> (used by
  \<open>buffered_allocator\<close> only) and the backing allocator instance, which \<open>operator==\<close>
  compares.
\<close>

record allocator =
  m_data :: nat
  m_backingAllocator :: nat

text \<open>\<open>buffered_allocator::allocate\<close> (line 106): the inline buffer, whatever the count.\<close>

definition buffered_allocate :: "allocator \<Rightarrow> nat \<Rightarrow> ptr" where
  "buffered_allocate al n = Ptr (m_data al) 0"

text \<open>\<open>buffered_allocator::allocate_at_least\<close> (lines 114-119).\<close>

definition buffered_allocate_at_least ::
  "nat \<Rightarrow> backing \<Rightarrow> allocator \<Rightarrow> nat \<Rightarrow> 'a memory \<Rightarrow> (allocation_result \<times> 'a memory) outcome"
  where
  "buffered_allocate_at_least SZ b al n m =
     (if n \<le> SZ then Returned (\<lparr>ptr = buffered_allocate al 0, count = SZ\<rparr>, m)
      else std_allocate_at_least b n m)"

text \<open>
  \<open>allocator_info::allocate_at_least(allocator, sz)\<close> (line 65) for an allocator of type
  \<open>A\<close>: \<open>buffered_allocator\<close> has the member, a plain backing allocator goes through
  \<open>std::allocate_at_least\<close>.
\<close>

fun allocate_at_least ::
  "alloc_type \<Rightarrow> allocator \<Rightarrow> nat \<Rightarrow> 'a memory \<Rightarrow> (allocation_result \<times> 'a memory) outcome"
  where
  "allocate_at_least (Plain b) al n m = std_allocate_at_least b n m"
| "allocate_at_least (Buffered SZ b) al n m = buffered_allocate_at_least SZ b al n m"

text \<open>\<open>Traits::deallocate(m_alloc, p, count)\<close>; for the adapter, lines 107-112.\<close>

fun alloc_deallocate :: "alloc_type \<Rightarrow> allocator \<Rightarrow> ptr \<Rightarrow> nat \<Rightarrow> 'a memory \<Rightarrow> 'a memory" where
  "alloc_deallocate (Plain b) al p n m = deallocate b p n m"
| "alloc_deallocate (Buffered SZ b) al p n m =
     (if p = buffered_allocate al 0 then m else deallocate b p n m)"

section \<open>Element operations\<close>

text \<open>
  \<open>Traits::construct(m_alloc, p, x)\<close> is a placement new at \<open>p\<close> for every allocator of
  this repository; an assignment \<open>*p = x\<close> overwrites the element at \<open>p\<close>. The value
  \<open>c\<close> is what was read from the source slot: moving from a slot that holds no element
  is undefined. A moved-from element keeps its value in this model, as an \<open>int\<close> does.
\<close>

definition construct :: "'a memory \<Rightarrow> ptr \<Rightarrow> 'a option \<Rightarrow> 'a memory" where
  "construct m p c =
     (let m' = write_slot m p c
      in m'\<lparr>constructions := constructions m' + 1,
            undefined_access := undefined_access m' \<or> c = None\<rparr>)"

definition assign :: "'a memory \<Rightarrow> ptr \<Rightarrow> 'a option \<Rightarrow> 'a memory" where
  "assign m p c =
     (let m' = write_slot m p c
      in m'\<lparr>assignments := assignments m' + 1,
            undefined_access := undefined_access m' \<or> c = None\<rparr>)"

definition destroy :: "'a memory \<Rightarrow> ptr \<Rightarrow> 'a memory" where
  "destroy m p = (let m' = write_slot m p None in m'\<lparr>destructions := destructions m' + 1\<rparr>)"

text \<open>\<open>Traits::destroy(m_alloc, p)\<close>; for the adapter, lines 127-130.\<close>

fun alloc_destroy :: "alloc_type \<Rightarrow> allocator \<Rightarrow> ptr \<Rightarrow> 'a memory \<Rightarrow> 'a memory" where
  "alloc_destroy (Plain b) al p m = destroy m p"
| "alloc_destroy (Buffered SZ b) al p m =
     (if p \<noteq> buffered_allocate al 0 then destroy m p else m)"

section \<open>The container (experimental\_vector.h)\<close>

text \<open>
  \<open>detail::uint_holding<SZ>\<close>: the number of bits of the unsigned type that holds the
  size of a static vector.
\<close>

definition uint_holding :: "nat \<Rightarrow> nat" where
  "uint_holding SZ =
     (if SZ < 256 then 8 else if SZ < 65536 then 16
      else if SZ < 65536 * 65536 then 32 else 64)"

text \<open>
  A \<open>vector<T, Alloc>\<close>: its allocator type, \<open>m_storage\<close> and \<open>m_alloc\<close>. The
  allocator type picks the representation once and for all: the three pointers when
  \<open>can_allocate\<close>, \<open>m_size\<close> otherwise; the fields of the other representation are
  carried along unused.
\<close>

record vector =
  Alloc :: alloc_type
  m_begin :: ptr
  m_end :: ptr
  m_capacity :: ptr
  m_size :: nat
  m_alloc :: allocator

definition capacity :: "vector \<Rightarrow> nat" where
  "capacity v = (if can_allocate (Alloc v) then ptr_diff (m_capacity v) (m_begin v)
                 else buffer_capacity (Alloc v))"

text \<open>
  \<open>data()\<close>. A static vector's allocator is always a \<open>buffered_allocator\<close> (over a plain
  sentinel the class does not compile), whose \<open>allocate(0)\<close> is the inline buffer.
\<close>

definition data :: "vector \<Rightarrow> ptr" where
  "data v = (if can_allocate (Alloc v) then m_begin v else buffered_allocate (m_alloc v) 0)"

definition size_vec :: "vector \<Rightarrow> nat" where
  "size_vec v = (if can_allocate (Alloc v) then ptr_diff (m_end v) (m_begin v) else m_size v)"

definition end_ptr :: "vector \<Rightarrow> ptr" where
  "end_ptr v = ptr_add (data v) (size_vec v)"

definition set_size :: "vector \<Rightarrow> nat \<Rightarrow> vector" where
  "set_size v sz =
     (if can_allocate (Alloc v) then v\<lparr>m_end := ptr_add (m_begin v) sz\<rparr>
      else v\<lparr>m_size := sz mod 2 ^ uint_holding (buffer_capacity (Alloc v))\<rparr>)"

text \<open>The elements of a vector, as \<open>operator[]\<close> reads them: slots \<open>0 .. size() - 1\<close>.\<close>

definition elements :: "vector \<Rightarrow> 'a memory \<Rightarrow> 'a option list" where
  "elements v m = map (\<lambda>i. read_slot m (ptr_add (data v) i)) [0..<size_vec v]"

text \<open>The loops over a range of indices: construct, assign, destroy.\<close>

definition construct_range :: "ptr \<Rightarrow> ptr \<Rightarrow> nat \<Rightarrow> nat \<Rightarrow> 'a memory \<Rightarrow> 'a memory" where
  "construct_range dest src i j m =
     fold (\<lambda>k m. construct m (ptr_add dest k) (read_slot m (ptr_add src k))) [i..<j] m"

definition assign_range :: "ptr \<Rightarrow> ptr \<Rightarrow> nat \<Rightarrow> nat \<Rightarrow> 'a memory \<Rightarrow> 'a memory" where
  "assign_range dest src i j m =
     fold (\<lambda>k m. assign m (ptr_add dest k) (read_slot m (ptr_add src k))) [i..<j] m"

definition destroy_range :: "vector \<Rightarrow> ptr \<Rightarrow> nat \<Rightarrow> nat \<Rightarrow> 'a memory \<Rightarrow> 'a memory" where
  "destroy_range v dest i j m =
     fold (\<lambda>k m. alloc_destroy (Alloc v) (m_alloc v) (ptr_add dest k) m) [i..<j] m"

text \<open>\<open>reserve\<close> (lines 165-188).\<close>

definition reserve :: "vector \<Rightarrow> nat \<Rightarrow> 'a memory \<Rightarrow> (vector \<times> 'a memory) outcome" where
  "reserve v sz m =
     (if sz \<le> capacity v then Returned (v, m)
      else if can_allocate (Alloc v) then
        bind (allocate_at_least (Alloc v) (m_alloc v) sz m) (\<lambda>(result, m1).
          let old_size = size_vec v;
              m2 = construct_range (ptr result) (data v) 0 old_size m1;
              m3 = alloc_deallocate (Alloc v) (m_alloc v) (data v) (capacity v) m2
          in Returned (v\<lparr>m_begin := ptr result,
                         m_capacity := ptr_add (ptr result) (count result),
                         m_end := ptr_add (ptr result) old_size\<rparr>, m3))
      else
        bind (allocate_at_least (Alloc v) (m_alloc v) sz m) (\<lambda>(result, m1). Returned (v, m1)))"

text \<open>
  \<open>bump\<close> (lines 213-218). \<open>size() * 3\<close> is a \<open>size_t\<close> product and wraps at \<open>2 ^ 64\<close>.
\<close>

definition bump :: "vector \<Rightarrow> nat \<Rightarrow> 'a memory \<Rightarrow> (vector \<times> 'a memory) outcome" where
  "bump v sz m =
     (if sz \<le> size_vec v then Returned (v, m)
      else reserve v (max sz ((size_vec v * 3) mod 2 ^ 64 div 2)) m)"

text \<open>\<open>push_back\<close> (lines 155-159).\<close>

definition push_back :: "vector \<Rightarrow> 'a \<Rightarrow> 'a memory \<Rightarrow> (vector \<times> 'a memory) outcome" where
  "push_back v elem m =
     bind (bump v (size_vec v + 1) m) (\<lambda>(v1, m1).
       let m2 = construct m1 (end_ptr v1) (Some elem)
       in Returned (set_size v1 (size_vec v1 + 1), m2))"

text \<open>
  \<open>pop_back\<close> (lines 160-163). On an empty vector the source computes \<open>size() - 1\<close> in
  \<open>size_t\<close>; the callers below only pop a non-empty vector.
\<close>

definition pop_back :: "vector \<Rightarrow> 'a memory \<Rightarrow> vector \<times> 'a memory" where
  "pop_back v m =
     (let v1 = set_size v (size_vec v - 1)
      in (v1, alloc_destroy (Alloc v1) (m_alloc v1) (end_ptr v1) m))"

text \<open>
  The shrinking loop of \<open>resize\<close>: \<open>while (size() > sz) pop_back();\<close>. Each turn lowers
  \<open>size()\<close>, so the loop ends.
\<close>

function pop_until :: "vector \<Rightarrow> nat \<Rightarrow> 'a memory \<Rightarrow> vector \<times> 'a memory" where
  "pop_until v sz m =
     (if size_vec v > sz then pop_until (fst (pop_back v m)) sz (snd (pop_back v m))
      else (v, m))"
  by pat_completeness auto

termination
proof (relation "measure (\<lambda>(v, sz, m). size_vec v)")
  show "wf (measure (\<lambda>(v, sz, m). size_vec v))" by simp
next
  fix v :: vector and sz :: nat and m :: "'a memory"
  assume "sz < size_vec v"
  then have "size_vec (fst (pop_back v m)) < size_vec v"
    by (cases "m_begin v")
      (auto simp: pop_back_def Let_def set_size_def size_vec_def
        intro: le_less_trans[OF mod_less_eq_dividend])
  then show "((fst (pop_back v m), sz, snd (pop_back v m)), (v, sz, m))
               \<in> measure (\<lambda>(v, sz, m). size_vec v)"
    by simp
qed

declare pop_until.simps [simp del]

text \<open>
  The growing loop of \<open>resize\<close>: \<open>while (size() < sz) push_back({});\<close> with \<open>d\<close> the
  value-initialised element. On a static vector over \<open>unchecked_allocator\<close> the stored
  size wraps and the loop need not end, so the loop runs on fuel: \<open>None\<close> is "still
  running when the fuel ran out".
\<close>

fun push_until ::
  "nat \<Rightarrow> 'a \<Rightarrow> vector \<Rightarrow> nat \<Rightarrow> 'a memory \<Rightarrow> (vector \<times> 'a memory) outcome option" where
  "push_until 0 d v sz m = (if size_vec v < sz then None else Some (Returned (v, m)))"
| "push_until (Suc fuel) d v sz m =
     (if size_vec v < sz then
        (case push_back v d m of
           Returned (v1, m1) \<Rightarrow> push_until fuel d v1 sz m1
         | Bad_alloc \<Rightarrow> Some Bad_alloc
         | Terminated \<Rightarrow> Some Terminated)
      else Some (Returned (v, m)))"

text \<open>\<open>resize\<close> (lines 190-200).\<close>

definition resize ::
  "nat \<Rightarrow> 'a \<Rightarrow> vector \<Rightarrow> nat \<Rightarrow> 'a memory \<Rightarrow> (vector \<times> 'a memory) outcome option" where
  "resize fuel d v sz m =
     (if sz > size_vec v then
        (case bump v sz m of
           Returned (v1, m1) \<Rightarrow> push_until fuel d v1 sz m1
         | Bad_alloc \<Rightarrow> Some Bad_alloc
         | Terminated \<Rightarrow> Some Terminated)
      else Some (Returned (pop_until v sz m)))"

text \<open>
  \<open>clear()\<close> is \<open>resize(0)\<close>: \<open>0 > size()\<close> never holds, so it is the shrinking loop
  (lemma \<open>resize_0\<close> below).
\<close>

definition clear :: "vector \<Rightarrow> 'a memory \<Rightarrow> vector \<times> 'a memory" where
  "clear v m = pop_until v 0 m"

text \<open>\<open>destroy_me\<close> (lines 209-212).\<close>

definition destroy_me :: "vector \<Rightarrow> 'a memory \<Rightarrow> vector \<times> 'a memory" where
  "destroy_me v m =
     (let (v1, m1) = clear v m
      in (v1, alloc_deallocate (Alloc v1) (m_alloc v1) (data v1) (capacity v1) m1))"

text \<open>\<open>take_elements\<close> (lines 227-253) and \<open>copy_elements\<close> (lines 254-281).\<close>

definition take_elements ::
  "vector \<Rightarrow> ptr \<Rightarrow> nat \<Rightarrow> 'a memory \<Rightarrow> (vector \<times> 'a memory) outcome" where
  "take_elements v src n m =
     bind (reserve v n m) (\<lambda>(v1, m1).
       let dest = data v1;
           m3 = (if n > size_vec v1
                 then construct_range dest src (size_vec v1) n
                        (assign_range dest src 0 (size_vec v1) m1)
                 else destroy_range v1 dest n (size_vec v1)
                        (assign_range dest src 0 n m1))
       in Returned (set_size v1 n, m3))"

definition copy_elements ::
  "vector \<Rightarrow> ptr \<Rightarrow> nat \<Rightarrow> 'a memory \<Rightarrow> (vector \<times> 'a memory) outcome" where
  "copy_elements v src n m =
     bind (reserve v n m) (\<lambda>(v1, m1).
       let dest = data v1;
           m3 = (if n > size_vec v1
                 then construct_range dest src (size_vec v1) n
                        (assign_range dest src 0 (size_vec v1) m1)
                 else destroy_range v1 dest n (size_vec v1)
                        (assign_range dest src 0 n m1))
       in Returned (set_size v1 n, m3))"

section \<open>The two eligibility tests for the constant-time transfer\<close>

text \<open>
  The test of the converting move constructor (experimental\_vector.h, lines 70-71) and of
  the converting move assignment (lines 94-95), over the destination's allocator type
  \<open>D\<close>, the source's allocator type \<open>A\<close>, and the source's \<open>capacity()\<close> and \<open>size()\<close>.
\<close>

definition same_backing_can_allocate :: "alloc_type \<Rightarrow> alloc_type \<Rightarrow> bool" where
  "same_backing_can_allocate D A \<longleftrightarrow>
     backing_allocator_of D = backing_allocator_of A \<and> can_allocate A"

definition move_ctor_steals :: "alloc_type \<Rightarrow> alloc_type \<Rightarrow> nat \<Rightarrow> nat \<Rightarrow> bool" where
  "move_ctor_steals D A src_capacity src_size \<longleftrightarrow>
     same_backing_can_allocate D A \<and>
     (src_capacity > buffer_capacity A \<or> src_size > buffer_capacity D)"

definition move_assign_eligible :: "alloc_type \<Rightarrow> alloc_type \<Rightarrow> nat \<Rightarrow> nat \<Rightarrow> bool" where
  "move_assign_eligible D A src_capacity src_size \<longleftrightarrow>
     same_backing_can_allocate D A \<and>
     (src_capacity > buffer_capacity A \<and> src_size > buffer_capacity D)"

section \<open>Construction and assignment across allocator types\<close>

text \<open>
  The default constructor (lines 58-66): null pointers or size 0. \<open>al\<close> is the
  allocator member of the new object; its inline buffer is a block of raw slots.
\<close>

definition vector_ctor :: "alloc_type \<Rightarrow> allocator \<Rightarrow> vector" where
  "vector_ctor D al = \<lparr>Alloc = D, m_begin = Nullptr, m_end = Nullptr, m_capacity = Nullptr,
     m_size = 0, m_alloc = al\<rparr>"

text \<open>
  The object a converting constructor starts from: the pointers have their default
  member initialisers, \<open>m_size\<close> has none, so a static vector starts from an
  indeterminate value \<open>g\<close>.
\<close>

definition uninitialised :: "alloc_type \<Rightarrow> allocator \<Rightarrow> nat \<Rightarrow> vector" where
  "uninitialised D al g = \<lparr>Alloc = D, m_begin = Nullptr, m_end = Nullptr,
     m_capacity = Nullptr, m_size = g mod 2 ^ uint_holding (buffer_capacity D), m_alloc = al\<rparr>"

text \<open>
  Taking the source's storage: \<open>m_storage = move(src.m_storage)\<close> and the three
  assignments of \<open>nullptr\<close>. The pair is the destination and the source afterwards.
\<close>

definition steal_storage :: "vector \<Rightarrow> vector \<Rightarrow> vector \<times> vector" where
  "steal_storage dst src =
     (dst\<lparr>m_begin := m_begin src, m_end := m_end src, m_capacity := m_capacity src\<rparr>,
      src\<lparr>m_begin := Nullptr, m_end := Nullptr, m_capacity := Nullptr\<rparr>)"

text \<open>
  \<open>m_alloc = std::move(src.m_alloc)\<close> and \<open>m_alloc = src.m_alloc\<close>: the backing
  allocator instance is taken over. (The bytes of the inline buffer, which the implicit
  assignment of \<open>buffered_allocator\<close> also copies, are not modelled.)
\<close>

definition assign_alloc :: "vector \<Rightarrow> vector \<Rightarrow> vector" where
  "assign_alloc dst src =
     dst\<lparr>m_alloc := (m_alloc dst)\<lparr>m_backingAllocator := m_backingAllocator (m_alloc src)\<rparr>\<rparr>"

text \<open>The generic path that ends both move operations (lines 83-84 and 111-112).\<close>

definition take_and_clear ::
  "vector \<Rightarrow> vector \<Rightarrow> 'a memory \<Rightarrow> ((vector \<times> vector) \<times> 'a memory) outcome" where
  "take_and_clear dst src m =
     bind (take_elements dst (data src) (size_vec src) m) (\<lambda>(d1, m1).
       let (s1, m2) = clear src m1 in Returned ((d1, s1), m2))"

text \<open>The converting move constructor (lines 68-85).\<close>

definition move_ctor ::
  "alloc_type \<Rightarrow> allocator \<Rightarrow> nat \<Rightarrow> vector \<Rightarrow> 'a memory
     \<Rightarrow> ((vector \<times> vector) \<times> 'a memory) outcome" where
  "move_ctor D al g src m =
     (let this = uninitialised D al g
      in if move_ctor_steals D (Alloc src) (capacity src) (size_vec src)
         then Returned (steal_storage (assign_alloc this src) src, m)
         else take_and_clear this src m)"

text \<open>The converting copy constructor (lines 86-88).\<close>

definition copy_ctor ::
  "alloc_type \<Rightarrow> allocator \<Rightarrow> nat \<Rightarrow> vector \<Rightarrow> 'a memory \<Rightarrow> (vector \<times> 'a memory) outcome"
  where
  "copy_ctor D al g src m = copy_elements (uninitialised D al g) (data src) (size_vec src) m"

text \<open>\<open>m_alloc == src.m_alloc\<close>: the backing allocator instances are compared.\<close>

definition alloc_eq :: "vector \<Rightarrow> vector \<Rightarrow> bool" where
  "alloc_eq dst src \<longleftrightarrow> m_backingAllocator (m_alloc dst) = m_backingAllocator (m_alloc src)"

text \<open>The converting move assignment (lines 92-114).\<close>

definition move_assign ::
  "vector \<Rightarrow> vector \<Rightarrow> 'a memory \<Rightarrow> ((vector \<times> vector) \<times> 'a memory) outcome" where
  "move_assign this src m =
     (let B = backing_allocator_of (Alloc this)
      in if move_assign_eligible (Alloc this) (Alloc src) (capacity src) (size_vec src)
            \<and> (pocma B \<or> is_always_equal B \<or> alloc_eq this src)
         then (let (d1, m1) = destroy_me this m;
                   d2 = (if pocma B then assign_alloc d1 src else d1)
               in Returned (steal_storage d2 src, m1))
         else take_and_clear this src m)"

text \<open>The converting copy assignment (lines 116-131).\<close>

definition copy_assign ::
  "vector \<Rightarrow> vector \<Rightarrow> 'a memory \<Rightarrow> (vector \<times> 'a memory) outcome" where
  "copy_assign this src m =
     (let B = backing_allocator_of (Alloc this);
          (d1, m1) =
            (if B = backing_allocator_of (Alloc src) \<and> pocca B
             then (let (d, m') = (if \<not> is_always_equal B \<and> \<not> alloc_eq this src
                                  then destroy_me this m else (this, m))
                   in (assign_alloc d src, m'))
             else (this, m))
      in copy_elements d1 (data src) (size_vec src) m1)"

section \<open>Well-formed containers\<close>

text \<open>
  The representation invariant of a container in a store. The inline buffer of a
  \<open>buffered_allocator\<close> is a live block of \<open>SZ\<close> slots. A container that can allocate
  sits on the heap allocator and has three null pointers or three pointers into one live
  block, \<open>begin \<le> end \<le> capacityEnd\<close>; if the block is its own inline buffer the
  capacity is \<open>SZ\<close>. A static container is a \<open>buffered_allocator\<close> over a sentinel with
  \<open>0 < SZ\<close>, and its stored size is at most \<open>SZ\<close>.
\<close>

definition well_formed :: "vector \<Rightarrow> 'a memory \<Rightarrow> bool" where
  "well_formed v m \<longleftrightarrow>
     (case Alloc v of
        Plain b \<Rightarrow> True
      | Buffered SZ b \<Rightarrow>
          m_data (m_alloc v) < next_block m \<and> live m (m_data (m_alloc v)) \<and>
          length (blocks m (m_data (m_alloc v))) = SZ \<and>
          (m_begin v = Ptr (m_data (m_alloc v)) 0 \<longrightarrow> capacity v = SZ)) \<and>
     (if can_allocate (Alloc v) then
        alloc_policy (backing_allocator_of (Alloc v)) = Heap \<and>
        (case m_begin v of
           Nullptr \<Rightarrow> m_end v = Nullptr \<and> m_capacity v = Nullptr
         | Ptr b i \<Rightarrow>
             i = 0 \<and> b < next_block m \<and> live m b \<and>
             m_end v = Ptr b (size_vec v) \<and> m_capacity v = Ptr b (capacity v) \<and>
             size_vec v \<le> capacity v \<and> capacity v \<le> length (blocks m b))
      else
        (case Alloc v of Plain b \<Rightarrow> False
         | Buffered SZ b \<Rightarrow> 0 < SZ \<and> SZ < 2 ^ 64 \<and> alloc_policy b \<noteq> Heap) \<and>
        m_size v \<le> buffer_capacity (Alloc v))"

text \<open>
  The element loops that \<open>take_elements\<close> and \<open>copy_elements\<close> share, on the container
  \<open>v1\<close> that \<open>reserve\<close> returned: assign the common prefix, then construct the rest
  or destroy the surplus.
\<close>

definition transfer :: "vector \<Rightarrow> ptr \<Rightarrow> ptr \<Rightarrow> nat \<Rightarrow> nat \<Rightarrow> 'a memory \<Rightarrow> 'a memory" where
  "transfer v1 dest src s1 n m1 =
     (if n > s1 then construct_range dest src s1 n (assign_range dest src 0 s1 m1)
      else destroy_range v1 dest n s1 (assign_range dest src 0 n m1))"

text \<open>The invariant of the stored size of a static container.\<close>

definition size_invariant :: "vector \<Rightarrow> bool" where
  "size_invariant v \<longleftrightarrow> size_vec v \<le> buffer_capacity (Alloc v)"

text \<open>A static vector of capacity 3 that holds 1, 2 in the same inline buffer.\<close>

definition static_two :: "alloc_type \<Rightarrow> vector" where
  "static_two A = \<lparr>Alloc = A, m_begin = Nullptr, m_end = Nullptr, m_capacity = Nullptr,
     m_size = 2, m_alloc = \<lparr>m_data = 0, m_backingAllocator = 0\<rparr>\<rparr>"

text \<open>
  A source pointer that lies apart from a container: it is null, or it points into a block
  of the store that is neither the container's current block nor its inline buffer.
\<close>

definition apart :: "ptr \<Rightarrow> vector \<Rightarrow> 'a memory \<Rightarrow> bool" where
  "apart src v m = (case src of
     Nullptr \<Rightarrow> True
   | Ptr s i \<Rightarrow> s < next_block m \<and> (case data v of Nullptr \<Rightarrow> True | Ptr b j \<Rightarrow> s \<noteq> b) \<and>
       (case Alloc v of Plain b \<Rightarrow> True | Buffered SZ b \<Rightarrow> s \<noteq> m_data (m_alloc v)))"

text \<open>
  The elements of a container sit in the inline buffer of its own allocator: \<open>data()\<close> is
  the address \<open>m_alloc.allocate(0)\<close> of a \<open>buffered_allocator\<close>, the one address that its
  \<open>deallocate\<close> and its \<open>destroy\<close> compare with.
\<close>

definition on_inline_buffer :: "vector \<Rightarrow> bool" where
  "on_inline_buffer v \<longleftrightarrow>
     (case Alloc v of Plain b \<Rightarrow> False
      | Buffered SZ b \<Rightarrow> data v = buffered_allocate (m_alloc v) 0)"

text \<open>
  Two quantities the growth statements name: the size \<open>push_back\<close> asks \<open>reserve\<close> for
  through \<open>bump\<close>, and the units a heap allocation of the container's allocator grants
  beyond the request.
\<close>

definition requested :: "vector \<Rightarrow> nat" where
  "requested v = max (size_vec v + 1) ((size_vec v * 3) mod 2 ^ 64 div 2)"

definition slack :: "alloc_type \<Rightarrow> nat" where
  "slack A = (case at_least_member (backing_allocator_of A) of Some k \<Rightarrow> k | None \<Rightarrow> 0)"

section \<open>Objects of the smoke test (test\_vector.cpp)\<close>

text \<open>
  A store with no block yet and \<open>h\<close> units of heap, and the placement of a new allocator
  object in it: its inline buffer of \<open>SZ\<close> raw slots becomes a live block of the store.
\<close>

definition empty_memory :: "nat \<Rightarrow> 'a memory" where
  "empty_memory h = \<lparr>blocks = (\<lambda>b. []), live = (\<lambda>b. False), next_block = 0, heap_free = h,
     allocations = 0, constructions = 0, destructions = 0, assignments = 0,
     undefined_access = False\<rparr>"

definition new_allocator :: "nat \<Rightarrow> nat \<Rightarrow> 'a memory \<Rightarrow> allocator \<times> 'a memory" where
  "new_allocator SZ inst m =
     (\<lparr>m_data = next_block m, m_backingAllocator = inst\<rparr>,
      m\<lparr>blocks := (blocks m)(next_block m := replicate SZ None),
        live := (live m)(next_block m := True),
        next_block := next_block m + 1\<rparr>)"

text \<open>\<open>push_back\<close> of each value of a list in turn, as lines 21-29 of the test do.\<close>

fun push_all :: "vector \<Rightarrow> 'a list \<Rightarrow> 'a memory \<Rightarrow> (vector \<times> 'a memory) outcome" where
  "push_all v [] m = Returned (v, m)"
| "push_all v (x # xs) m = bind (push_back v x m) (\<lambda>(v1, m1). push_all v1 xs m1)"

text \<open>
  The \<open>sbo_vector<int, 3>\<close> of the test, empty, and after \<open>push_back\<close> of 1, 2 and 3:
  its three elements sit in the inline buffer, which is block 0.
\<close>

definition sbo_empty :: vector where
  "sbo_empty = vector_ctor (sbo_vector 3 std_allocator) \<lparr>m_data = 0, m_backingAllocator = 0\<rparr>"

definition sbo_empty_memory :: "int memory" where
  "sbo_empty_memory = snd (new_allocator 3 0 (empty_memory 100))"

definition sbo_three :: vector where
  "sbo_three = \<lparr>Alloc = sbo_vector 3 std_allocator, m_begin = Ptr 0 0, m_end = Ptr 0 3,
     m_capacity = Ptr 0 3, m_size = 0, m_alloc = \<lparr>m_data = 0, m_backingAllocator = 0\<rparr>\<rparr>"

definition sbo_three_memory :: "int memory" where
  "sbo_three_memory = \<lparr>blocks = (\<lambda>b. [])(0 := [Some 1, Some 2, Some 3]),
     live = (\<lambda>b. False)(0 := True), next_block = 1, heap_free = 100,
     allocations = 0, constructions = 3, destructions = 0, assignments = 0,
     undefined_access = False\<rparr>"

text \<open>
  The same container after the fourth and the fifth \<open>push_back\<close>: the elements sit in
  heap block 1 of four slots, then in heap block 2 of six slots (block 1 is released).
  The moved-from elements of the old block are never destroyed by \<open>reserve\<close>.
\<close>

definition sbo_four :: vector where
  "sbo_four = \<lparr>Alloc = sbo_vector 3 std_allocator, m_begin = Ptr 1 0, m_end = Ptr 1 4,
     m_capacity = Ptr 1 4, m_size = 0, m_alloc = \<lparr>m_data = 0, m_backingAllocator = 0\<rparr>\<rparr>"

definition sbo_four_memory :: "int memory" where
  "sbo_four_memory = \<lparr>blocks = (\<lambda>b. [])(0 := [Some 1, Some 2, Some 3],
       1 := [Some 1, Some 2, Some 3, Some 4]),
     live = (\<lambda>b. False)(0 := True, 1 := True), next_block = 2, heap_free = 96,
     allocations = 1, constructions = 7, destructions = 0, assignments = 0,
     undefined_access = False\<rparr>"

definition sbo_five :: vector where
  "sbo_five = \<lparr>Alloc = sbo_vector 3 std_allocator, m_begin = Ptr 2 0, m_end = Ptr 2 5,
     m_capacity = Ptr 2 6, m_size = 0, m_alloc = \<lparr>m_data = 0, m_backingAllocator = 0\<rparr>\<rparr>"

definition sbo_five_memory :: "int memory" where
  "sbo_five_memory = \<lparr>blocks = (\<lambda>b. [])(0 := [Some 1, Some 2, Some 3],
       1 := [Some 1, Some 2, Some 3, Some 4],
       2 := [Some 1, Some 2, Some 3, Some 4, Some 5, None]),
     live = (\<lambda>b. False)(0 := True, 1 := False, 2 := True), next_block = 3, heap_free = 94,
     allocations = 2, constructions = 12, destructions = 0, assignments = 0,
     undefined_access = False\<rparr>"

text \<open>
  A static vector of capacity 3 over allocator type \<open>A\<close> that holds 1, 2, 3 in its
  inline buffer (block 0 of \<open>sbo_three_memory\<close>).
\<close>

definition static_full :: "alloc_type \<Rightarrow> vector" where
  "static_full A = \<lparr>Alloc = A, m_begin = Nullptr, m_end = Nullptr, m_capacity = Nullptr,
     m_size = 3, m_alloc = \<lparr>m_data = 0, m_backingAllocator = 0\<rparr>\<rparr>"

text \<open>
  A stateful backing allocator type that propagates on copy and move assignment and whose
  instances need not compare equal, as the assignment operators provide for; and two
  containers over different instances of it in the store \<open>sbo_four_memory\<close>: a
  \<open>vector<int, propagating_allocator>\<close> that holds 1, 2, 3, 4 in heap block 1, and an
  \<open>sbo_vector<int, 3, propagating_allocator>\<close> that holds 1, 2, 3 in its inline buffer,
  block 0.
\<close>

definition propagating_allocator :: backing where
  "propagating_allocator = \<lparr>ident = 4, alloc_policy = Heap, can_allocate_decl = None,
     at_least_member = None, pocma = True, pocca = True, is_always_equal = False\<rparr>"

definition pool_four :: vector where
  "pool_four = \<lparr>Alloc = Plain propagating_allocator, m_begin = Ptr 1 0, m_end = Ptr 1 4,
     m_capacity = Ptr 1 4, m_size = 0, m_alloc = \<lparr>m_data = 0, m_backingAllocator = 0\<rparr>\<rparr>"

definition pool_three :: vector where
  "pool_three = \<lparr>Alloc = sbo_vector 3 propagating_allocator, m_begin = Ptr 0 0, m_end = Ptr 0 3,
     m_capacity = Ptr 0 3, m_size = 0, m_alloc = \<lparr>m_data = 0, m_backingAllocator = 1\<rparr>\<rparr>"

text \<open>
  A third container over that allocator type: it holds 1, 2 in block 1, whose capacity
  is 4.
\<close>

definition pool_two :: vector where
  "pool_two = \<lparr>Alloc = Plain propagating_allocator, m_begin = Ptr 1 0, m_end = Ptr 1 2,
     m_capacity = Ptr 1 4, m_size = 0, m_alloc = \<lparr>m_data = 0, m_backingAllocator = 0\<rparr>\<rparr>"

text \<open>
  An \<open>sbo_vector<int, 10>\<close> that holds 1, 2 in its inline buffer (block 0), in a store
  where block 1 is the inline buffer, three raw slots, of a second allocator object.
\<close>

definition sbo10_two :: vector where
  "sbo10_two = \<lparr>Alloc = sbo_vector 10 std_allocator, m_begin = Ptr 0 0, m_end = Ptr 0 2,
     m_capacity = Ptr 0 10, m_size = 0, m_alloc = \<lparr>m_data = 0, m_backingAllocator = 0\<rparr>\<rparr>"

definition sbo10_memory :: "int memory" where
  "sbo10_memory = \<lparr>blocks = (\<lambda>b. [])(0 := [Some 1, Some 2, None, None, None, None, None,
       None, None, None], 1 := [None, None, None]),
     live = (\<lambda>b. False)(0 := True, 1 := True), next_block = 2, heap_free = 100,
     allocations = 0, constructions = 2, destructions = 0, assignments = 0,
     undefined_access = False\<rparr>"

definition second_allocator :: allocator where
  "second_allocator = \<lparr>m_data = 1, m_backingAllocator = 0\<rparr>"

text \<open>
  What the generic path leaves in the destination \<open>d'\<close> that started as \<open>this\<close>: the
  source's element values in order, by assigning into the common prefix and constructing
  the rest (plus the elements \<open>reserve\<close> moved if it had to reallocate).
\<close>

definition transferred :: "vector \<Rightarrow> vector \<Rightarrow> 'a memory \<Rightarrow> vector \<Rightarrow> 'a memory \<Rightarrow> bool" where
  "transferred this src m d' m' \<longleftrightarrow>
     elements d' m' = elements src m \<and>
     assignments m' = assignments m + min (size_vec this) (size_vec src) \<and>
     constructions m' = constructions m + (size_vec src - size_vec this) +
        (if capacity this < size_vec src then size_vec this else 0)"

text \<open>
  Shrinking \<open>v\<close> to \<open>n\<close> elements leaves the slot at the first address of its allocator's
  inline buffer alone: \<open>v\<close> is not on that buffer, or \<open>n > 0\<close>, or \<open>v\<close> is empty. That
  slot is the one \<open>buffered_allocator::destroy\<close> skips.
\<close>

definition first_slot_kept :: "vector \<Rightarrow> nat \<Rightarrow> bool" where
  "first_slot_kept v n \<longleftrightarrow> \<not> (on_inline_buffer v \<and> n = 0 \<and> 0 < size_vec v)"

text \<open>
  The destructor calls of the generic path: one for each element the destination held
  beyond the source's count, and \<open>cleared\<close> calls for the elements of the source, which a
  move clears afterwards.
\<close>

definition surplus_destroyed :: "vector \<Rightarrow> vector \<Rightarrow> 'a memory \<Rightarrow> 'a memory \<Rightarrow> nat \<Rightarrow> bool" where
  "surplus_destroyed this src m m' cleared \<longleftrightarrow>
     destructions m' = destructions m + (size_vec this - size_vec src) + cleared"

text \<open>
  The destination can hold the source's elements: it can allocate and the heap has room,
  or it is static and its inline buffer is large enough.
\<close>

definition fits :: "vector \<Rightarrow> vector \<Rightarrow> 'a memory \<Rightarrow> bool" where
  "fits this src m \<longleftrightarrow>
     (if can_allocate (Alloc this) then size_vec src + slack (Alloc this) \<le> heap_free m
      else size_vec src \<le> buffer_capacity (Alloc this))"

text \<open>What holds of the container and the store when a call has returned.\<close>

definition after :: "(vector \<times> 'a memory) outcome \<Rightarrow> (vector \<Rightarrow> 'a memory \<Rightarrow> bool) \<Rightarrow> bool" where
  "after out P = (case out of Returned (v, m) \<Rightarrow> P v m | Bad_alloc \<Rightarrow> False | Terminated \<Rightarrow> False)"

section \<open>Properties\<close>

subsection \<open>The store under writes, allocation and deallocation\<close>

lemma write_slot_frame [simp]:
  "live (write_slot m p c) = live m"
  "next_block (write_slot m p c) = next_block m"
  "heap_free (write_slot m p c) = heap_free m"
  "allocations (write_slot m p c) = allocations m"
  "constructions (write_slot m p c) = constructions m"
  "destructions (write_slot m p c) = destructions m"
  "assignments (write_slot m p c) = assignments m"
  by (auto simp: write_slot_def split: ptr.splits)

lemma blocks_write_slot:
  "blocks (write_slot m p c) =
     (case p of Nullptr \<Rightarrow> blocks m
      | Ptr b i \<Rightarrow> if live m b \<and> i < length (blocks m b)
                   then (blocks m)(b := (blocks m b)[i := c]) else blocks m)"
  by (auto simp: write_slot_def split: ptr.splits)

lemma read_slot_same:
  "(case p of Nullptr \<Rightarrow> True | Ptr s i \<Rightarrow> blocks m1 s = blocks m2 s) \<Longrightarrow>
     read_slot m1 p = read_slot m2 p"
  by (cases p) (simp_all add: read_slot_def)

lemma fold_copy_blocks:
  assumes f: "\<And>m p c. blocks (f m p c) = blocks (write_slot m p c)"
             "\<And>m p c. live (f m p c) = live m"
    and d: "live m d" "j \<le> length (blocks m d)"
    and s: "case src of Nullptr \<Rightarrow> True | Ptr s o' \<Rightarrow> s \<noteq> d"
  shows "blocks (fold (\<lambda>k m. f m (Ptr d k) (read_slot m (ptr_add src k))) [i..<j] m) =
           (blocks m)(d := map (\<lambda>k. if i \<le> k \<and> k < j then read_slot m (ptr_add src k)
                                     else blocks m d ! k) [0..<length (blocks m d)])
         \<and> live (fold (\<lambda>k m. f m (Ptr d k) (read_slot m (ptr_add src k))) [i..<j] m) = live m"
  using d
proof (induction j)
  case 0
  then show ?case by (simp add: map_nth)
next
  case (Suc j)
  show ?case
  proof (cases "i \<le> j")
    case False
    then have "[i..<Suc j] = []" by simp
    moreover have "map (\<lambda>k. if i \<le> k \<and> k < Suc j then read_slot m (ptr_add src k)
                                     else blocks m d ! k) [0..<length (blocks m d)] = blocks m d"
      using False by (intro nth_equalityI) auto
    ultimately show ?thesis by simp
  next
    case True
    let ?m' = "fold (\<lambda>k m. f m (Ptr d k) (read_slot m (ptr_add src k))) [i..<j] m"
    have jl: "j < length (blocks m d)" using Suc.prems by simp
    let ?A = "map (\<lambda>k. if i \<le> k \<and> k < j then read_slot m (ptr_add src k)
                                     else blocks m d ! k) [0..<length (blocks m d)]"
    let ?B = "map (\<lambda>k. if i \<le> k \<and> k < Suc j then read_slot m (ptr_add src k)
                                     else blocks m d ! k) [0..<length (blocks m d)]"
    have ih: "blocks ?m' = (blocks m)(d := ?A) \<and> live ?m' = live m"
      by (rule Suc.IH[OF Suc.prems(1)]) (use jl in simp)
    have IH: "blocks ?m' = (blocks m)(d := ?A)" and L: "live ?m' = live m"
      using ih by blast+
    have rd: "read_slot ?m' (ptr_add src j) = read_slot m (ptr_add src j)"
    proof (rule read_slot_same)
      have other: "\<And>b. b \<noteq> d \<Longrightarrow> blocks ?m' b = blocks m b"
        by (simp add: IH)
      show "case ptr_add src j of Nullptr \<Rightarrow> True | Ptr s i \<Rightarrow> blocks ?m' s = blocks m s"
        using s other by (cases src) auto
    qed
    have AB: "?A[j := read_slot m (ptr_add src j)] = ?B"
      using jl True by (intro nth_equalityI) (auto simp: nth_list_update)
    have st: "fold (\<lambda>k m. f m (Ptr d k) (read_slot m (ptr_add src k))) [i..<Suc j] m
         = f ?m' (Ptr d j) (read_slot ?m' (ptr_add src j))"
      using True by simp
    have "blocks (f ?m' (Ptr d j) (read_slot ?m' (ptr_add src j))) = (blocks m)(d := ?B)"
      unfolding f blocks_write_slot rd using jl Suc.prems(1) AB by (simp add: IH L)
    then show ?thesis unfolding st by (simp add: f L)
  qed
qed


lemma allocate_at_least_cases:
  assumes "allocate_at_least A al n m = Returned (r, m1)"
    and "alloc_policy (backing_allocator_of A) = Heap"
  shows "(\<exists>SZ b. A = Buffered SZ b \<and> n \<le> SZ \<and> r = \<lparr>ptr = Ptr (m_data al) 0, count = SZ\<rparr> \<and> m1 = m) \<or>
         (ptr r = Ptr (next_block m) 0 \<and> n \<le> count r \<and>
          count r \<le> heap_free m \<and>
          count r = n + (case at_least_member (backing_allocator_of A) of
                           Some k \<Rightarrow> k | None \<Rightarrow> 0) \<and>
          m1 = m\<lparr>blocks := (blocks m)(next_block m := replicate (count r) None),
                live := (live m)(next_block m := True),
                next_block := next_block m + 1,
                heap_free := heap_free m - count r,
                allocations := allocations m + 1\<rparr>)"
  using assms
  by (cases A)
    (auto simp: buffered_allocate_at_least_def buffered_allocate_def std_allocate_at_least_def
      allocate_def split: if_splits option.splits)


lemma deallocate_frame [simp]:
  "blocks (deallocate b p n m) = blocks m"
  "next_block (deallocate b p n m) = next_block m"
  "allocations (deallocate b p n m) = allocations m"
  "constructions (deallocate b p n m) = constructions m"
  "destructions (deallocate b p n m) = destructions m"
  "assignments (deallocate b p n m) = assignments m"
  by (auto simp: deallocate_def split: policy.splits ptr.splits)

lemma alloc_deallocate_frame [simp]:
  "blocks (alloc_deallocate A al p n m) = blocks m"
  "next_block (alloc_deallocate A al p n m) = next_block m"
  "allocations (alloc_deallocate A al p n m) = allocations m"
  "constructions (alloc_deallocate A al p n m) = constructions m"
  "destructions (alloc_deallocate A al p n m) = destructions m"
  "assignments (alloc_deallocate A al p n m) = assignments m"
  by (cases A; simp)+

lemma live_alloc_deallocate:
  "live (alloc_deallocate A al p n m) d =
     (live m d \<and> \<not> (alloc_policy (backing_allocator_of A) = Heap \<and> p = Ptr d 0 \<and>
        (case A of Plain b \<Rightarrow> True | Buffered SZ b \<Rightarrow> d \<noteq> m_data al)))"
  by (cases A) (auto simp: deallocate_def buffered_allocate_def split: policy.splits ptr.splits)

lemma heap_free_alloc_deallocate: "heap_free m \<le> heap_free (alloc_deallocate A al p n m)"
  by (cases A) (auto simp: deallocate_def split: policy.splits ptr.splits)

lemma read_slot_Ptr:
  "read_slot m (Ptr b i) = (if i < length (blocks m b) then blocks m b ! i else None)"
  by (simp add: read_slot_def)

lemma read_slot_blocks: "blocks m1 = blocks m2 \<Longrightarrow> read_slot m1 p = read_slot m2 p"
  by (rule read_slot_same) (simp split: ptr.splits)

lemma construct_blocks [simp]:
  "blocks (construct m p c) = blocks (write_slot m p c)" "live (construct m p c) = live m"
  "next_block (construct m p c) = next_block m"
  "allocations (construct m p c) = allocations m"
  by (simp_all add: construct_def Let_def)

lemma assign_blocks [simp]:
  "blocks (assign m p c) = blocks (write_slot m p c)" "live (assign m p c) = live m"
  "next_block (assign m p c) = next_block m"
  "allocations (assign m p c) = allocations m"
  by (simp_all add: assign_def Let_def)

lemma construct_range_blocks:
  assumes "live m d" "j \<le> length (blocks m d)"
    and "case src of Nullptr \<Rightarrow> True | Ptr s o' \<Rightarrow> s \<noteq> d"
  shows "blocks (construct_range (Ptr d 0) src i j m) =
           (blocks m)(d := map (\<lambda>k. if i \<le> k \<and> k < j then read_slot m (ptr_add src k)
                                     else blocks m d ! k) [0..<length (blocks m d)])"
    and "live (construct_range (Ptr d 0) src i j m) = live m"
  using fold_copy_blocks[of construct, OF _ _ assms, of i]
  by (simp_all add: construct_range_def)

lemma fold_counters:
  assumes "\<And>m p c. g (f m p c) = g m"
  shows "g (fold (\<lambda>k m. f m (P k) (R m k)) ks m) = g m"
  by (induction ks arbitrary: m) (simp_all add: assms)

lemma construct_heap_free [simp]: "heap_free (construct m p c) = heap_free m"
  by (simp add: construct_def Let_def)

lemma construct_range_frame [simp]:
  "next_block (construct_range dest src i j m) = next_block m"
  "allocations (construct_range dest src i j m) = allocations m"
  "heap_free (construct_range dest src i j m) = heap_free m"
  unfolding construct_range_def
  by (rule fold_counters; simp)+


lemma wf_data_block:
  assumes "well_formed v m" "can_allocate (Alloc v)"
  shows "data v = Nullptr \<and> size_vec v = 0 \<and> capacity v = 0 \<or>
         (\<exists>b. data v = Ptr b 0 \<and> b < next_block m \<and> live m b \<and> size_vec v \<le> capacity v \<and>
              capacity v \<le> length (blocks m b) \<and> m_end v = Ptr b (size_vec v) \<and>
              m_capacity v = Ptr b (capacity v))"
  using assms by (auto simp: well_formed_def data_def size_vec_def capacity_def split: ptr.splits)

lemma well_formed_data_size:
  assumes "well_formed v m" "can_allocate (Alloc v)"
  shows "size_vec v \<le> capacity v"
  using wf_data_block[OF assms] by auto

lemma alloc_target:
  assumes wf: "well_formed v m" and ca: "can_allocate (Alloc v)" and gt: "capacity v < n"
    and al: "allocate_at_least (Alloc v) (m_alloc v) n m = Returned (res, m1)"
  obtains d where "ptr res = Ptr d 0" "live m1 d" "length (blocks m1 d) = count res"
    "n \<le> count res" "d < next_block m1" "next_block m \<le> next_block m1"
    "\<And>b. b \<noteq> d \<Longrightarrow> blocks m1 b = blocks m b \<and> live m1 b = live m b"
    "case data v of Nullptr \<Rightarrow> True | Ptr s i \<Rightarrow> s \<noteq> d"
    "blocks m1 d = replicate (count res) None \<or> m1 = m"
    "case Alloc v of Plain b \<Rightarrow> d = next_block m
     | Buffered SZ b \<Rightarrow> (d = m_data (m_alloc v) \<and> count res = SZ \<and> m1 = m) \<or>
                         (d = next_block m \<and> d \<noteq> m_data (m_alloc v))"
    "allocations m1 = allocations m + (if n \<le> buffer_capacity (Alloc v) then 0 else 1)"
    "count res = (if n \<le> buffer_capacity (Alloc v) then buffer_capacity (Alloc v)
                  else n + (case at_least_member (backing_allocator_of (Alloc v)) of
                              Some k \<Rightarrow> k | None \<Rightarrow> 0))"
    "heap_free m1 = heap_free m - (if n \<le> buffer_capacity (Alloc v) then 0 else count res)"
    "constructions m1 = constructions m \<and> assignments m1 = assignments m \<and>
     destructions m1 = destructions m"
proof -
  have pol: "alloc_policy (backing_allocator_of (Alloc v)) = Heap"
    using wf ca by (simp add: well_formed_def)
  from allocate_at_least_cases[OF al pol] show thesis
  proof (elim disjE exE conjE)
    fix SZ b
    assume A: "Alloc v = Buffered SZ b" and n: "n \<le> SZ"
      and res: "res = \<lparr>ptr = Ptr (m_data (m_alloc v)) 0, count = SZ\<rparr>" and m1: "m1 = m"
    have "case data v of Nullptr \<Rightarrow> True | Ptr s i \<Rightarrow> s \<noteq> m_data (m_alloc v)"
      using wf ca gt n A by (auto simp: well_formed_def data_def split: ptr.splits)
    then show thesis
      using wf A n res m1 by (intro that[of "m_data (m_alloc v)"]) (auto simp: well_formed_def)
  next
    assume p: "ptr res = Ptr (next_block m) 0" and n: "n \<le> count res"
      and cnt: "count res = n + (case at_least_member (backing_allocator_of (Alloc v)) of
                           Some k \<Rightarrow> k | None \<Rightarrow> 0)"
      and m1: "m1 = m\<lparr>blocks := (blocks m)(next_block m := replicate (count res) None),
                live := (live m)(next_block m := True),
                next_block := next_block m + 1,
                heap_free := heap_free m - count res,
                allocations := allocations m + 1\<rparr>"
    have d: "case data v of Nullptr \<Rightarrow> True | Ptr s i \<Rightarrow> s \<noteq> next_block m"
      using wf_data_block[OF wf ca] by auto
    have big: "\<not> n \<le> buffer_capacity (Alloc v)"
      using al p wf gt by (cases "Alloc v") (auto simp: buffered_allocate_at_least_def buffered_allocate_def well_formed_def)
    show thesis
      using wf p n m1 d big cnt
      by (intro that[of "next_block m"]) (auto simp: well_formed_def split: alloc_type.splits)
  qed
qed


lemma replicate_3: "replicate 3 x = [x, x, x]"
  by (simp add: numeral_3_eq_3)

lemma reserve_noop: "n \<le> capacity v \<Longrightarrow> reserve v n m = Returned (v, m)"
  by (simp add: reserve_def)

lemma bind_Returned:
  "bind x f = Returned y \<longleftrightarrow> (\<exists>r. x = Returned r \<and> f r = Returned y)"
  by (cases x) auto

lemma reserve_grow:
  assumes wf: "well_formed v m" and ca: "can_allocate (Alloc v)" and gt: "capacity v < n"
    and r: "reserve v n m = Returned (v', m')"
  shows "size_vec v' = size_vec v \<and> elements v' m' = elements v m \<and> n \<le> capacity v' \<and>
         well_formed v' m' \<and> Alloc v' = Alloc v \<and> m_alloc v' = m_alloc v \<and>
         (\<exists>res m1. allocate_at_least (Alloc v) (m_alloc v) n m = Returned (res, m1) \<and>
            m_begin v' = ptr res \<and> m_end v' = ptr_add (ptr res) (size_vec v) \<and>
            m_capacity v' = ptr_add (ptr res) (count res) \<and> capacity v' = count res \<and>
            allocations m' = allocations m1) \<and>
         capacity v' = (if n \<le> buffer_capacity (Alloc v) then buffer_capacity (Alloc v)
                        else n + (case at_least_member (backing_allocator_of (Alloc v)) of
                                    Some k \<Rightarrow> k | None \<Rightarrow> 0)) \<and>
         allocations m' = allocations m + (if n \<le> buffer_capacity (Alloc v) then 0 else 1) \<and>
         heap_free m - (if n \<le> buffer_capacity (Alloc v) then 0 else capacity v') \<le> heap_free m' \<and>
         (\<forall>b. data v = Ptr b 0 \<and> (case Alloc v of Plain _ \<Rightarrow> True
                                   | Buffered _ _ \<Rightarrow> b \<noteq> m_data (m_alloc v)) \<longrightarrow> \<not> live m' b)"
proof -
  from r gt ca obtain res m1 where
    al: "allocate_at_least (Alloc v) (m_alloc v) n m = Returned (res, m1)"
    and v': "v' = v\<lparr>m_begin := ptr res, m_capacity := ptr_add (ptr res) (count res),
                     m_end := ptr_add (ptr res) (size_vec v)\<rparr>"
    and m': "m' = alloc_deallocate (Alloc v) (m_alloc v) (data v) (capacity v)
                    (construct_range (ptr res) (data v) 0 (size_vec v) m1)"
    by (auto simp: reserve_def bind_Returned Let_def)
  have pol: "alloc_policy (backing_allocator_of (Alloc v)) = Heap"
    using wf ca by (simp add: well_formed_def)
  show ?thesis
  proof (rule alloc_target[OF wf ca gt al])
  fix d
  assume p: "ptr res = Ptr d 0" and lv: "live m1 d" and len: "length (blocks m1 d) = count res"
    and n: "n \<le> count res" and dn: "d < next_block m1" and nb: "next_block m \<le> next_block m1"
    and other: "\<And>b. b \<noteq> d \<Longrightarrow> blocks m1 b = blocks m b \<and> live m1 b = live m b"
    and src: "case data v of Nullptr \<Rightarrow> True | Ptr s i \<Rightarrow> s \<noteq> d"
    and raw: "blocks m1 d = replicate (count res) None \<or> m1 = m"
    and kind: "case Alloc v of Plain b \<Rightarrow> d = next_block m
     | Buffered SZ b \<Rightarrow> (d = m_data (m_alloc v) \<and> count res = SZ \<and> m1 = m) \<or>
                         (d = next_block m \<and> d \<noteq> m_data (m_alloc v))"
    and na: "allocations m1 = allocations m + (if n \<le> buffer_capacity (Alloc v) then 0 else 1)"
    and cnt: "count res = (if n \<le> buffer_capacity (Alloc v) then buffer_capacity (Alloc v)
                  else n + (case at_least_member (backing_allocator_of (Alloc v)) of
                              Some k \<Rightarrow> k | None \<Rightarrow> 0))"
    and hf: "heap_free m1 = heap_free m - (if n \<le> buffer_capacity (Alloc v) then 0 else count res)"
    and cnts: "constructions m1 = constructions m \<and> assignments m1 = assignments m \<and>
     destructions m1 = destructions m"
  let ?m2 = "construct_range (Ptr d 0) (data v) 0 (size_vec v) m1"
  have sz: "size_vec v \<le> capacity v"
    using wf_data_block[OF wf ca] by auto
  then have szc: "size_vec v \<le> length (blocks m1 d)" using gt n len by simp
  have b2: "blocks ?m2 = (blocks m1)(d := map (\<lambda>k. if 0 \<le> k \<and> k < size_vec v then read_slot m1 (ptr_add (data v) k)
                                     else blocks m1 d ! k) [0..<length (blocks m1 d)])"
    and l2: "live ?m2 = live m1"
    using construct_range_blocks[OF lv szc src, of 0] by simp_all
  have s': "size_vec v' = size_vec v" and c': "capacity v' = count res"
    and d': "data v' = Ptr d 0"
    using ca by (simp_all add: v' p size_vec_def capacity_def data_def)
  have rd1: "read_slot m1 (ptr_add (data v) k) = read_slot m (ptr_add (data v) k)" for k
    by (rule read_slot_same) (use src other in \<open>cases "data v"; auto\<close>)
  have "read_slot m' (ptr_add (data v') k) = read_slot m (ptr_add (data v) k)"
    if "k < size_vec v" for k
    using that szc by (simp add: d' m' p read_slot_Ptr b2 rd1)
  then have el: "elements v' m' = elements v m"
    by (simp add: elements_def s')
  have live_d: "live m' d"
    using src kind lv by (auto simp: m' p live_alloc_deallocate l2 split: alloc_type.splits)
  have freed: "\<not> live m' b" if "data v = Ptr b 0"
     "case Alloc v of Plain _ \<Rightarrow> True | Buffered _ _ \<Rightarrow> b \<noteq> m_data (m_alloc v)" for b
    using that pol by (auto simp: m' live_alloc_deallocate split: alloc_type.splits)
  have len2: "length (blocks m' x) = length (blocks m1 x)" for x
    by (simp add: m' p b2)
  have nb': "next_block m' = next_block m1"
    by (simp add: m' p)
  have buf: "m_data (m_alloc v) < next_block m' \<and> live m' (m_data (m_alloc v)) \<and>
          length (blocks m' (m_data (m_alloc v))) = SZ \<and>
          (d = m_data (m_alloc v) \<longrightarrow> count res = SZ)" if A: "Alloc v = Buffered SZ b" for SZ b
  proof -
    have w: "m_data (m_alloc v) < next_block m" "live m (m_data (m_alloc v))"
      "length (blocks m (m_data (m_alloc v))) = SZ"
      using wf A by (simp_all add: well_formed_def)
    have k: "(d = m_data (m_alloc v) \<and> count res = SZ \<and> m1 = m) \<or>
                         (d = next_block m \<and> d \<noteq> m_data (m_alloc v))"
      using kind A by simp
    have "live m1 (m_data (m_alloc v))" "length (blocks m1 (m_data (m_alloc v))) = SZ"
      using k w other[of "m_data (m_alloc v)"] by auto
    moreover have "live m' (m_data (m_alloc v)) = live m1 (m_data (m_alloc v))"
      unfolding m' p live_alloc_deallocate by (simp add: l2 A)
    ultimately show ?thesis
      using k w nb by (auto simp: len2 nb')
  qed
  have wf': "well_formed v' m'"
    unfolding well_formed_def
    using buf ca pol dn live_d sz gt n len
    by (cases "Alloc v") (simp_all add: v' p size_vec_def capacity_def nb' len2)
  have hf': "heap_free m1 \<le> heap_free m'"
    using heap_free_alloc_deallocate[of "construct_range (ptr res) (data v) 0 (size_vec v) m1"
        "Alloc v" "m_alloc v" "data v" "capacity v"]
    by (simp add: m')
  have na': "allocations m' = allocations m1"
    by (simp add: m')
  have tail: "capacity v' = (if n \<le> buffer_capacity (Alloc v) then buffer_capacity (Alloc v)
                        else n + (case at_least_member (backing_allocator_of (Alloc v)) of
                                    Some k \<Rightarrow> k | None \<Rightarrow> 0)) \<and>
         allocations m' = allocations m + (if n \<le> buffer_capacity (Alloc v) then 0 else 1) \<and>
         heap_free m - (if n \<le> buffer_capacity (Alloc v) then 0 else capacity v') \<le> heap_free m'"
    using hf' hf na na' cnt c' by (cases "n \<le> buffer_capacity (Alloc v)") simp_all
  have head: "size_vec v' = size_vec v \<and> elements v' m' = elements v m \<and> n \<le> capacity v' \<and>
         well_formed v' m' \<and> Alloc v' = Alloc v \<and> m_alloc v' = m_alloc v \<and>
         (\<exists>res m1. allocate_at_least (Alloc v) (m_alloc v) n m = Returned (res, m1) \<and>
            m_begin v' = ptr res \<and> m_end v' = ptr_add (ptr res) (size_vec v) \<and>
            m_capacity v' = ptr_add (ptr res) (count res) \<and> capacity v' = count res \<and>
            allocations m' = allocations m1) \<and>
         (\<forall>b. data v = Ptr b 0 \<and> (case Alloc v of Plain _ \<Rightarrow> True
                                   | Buffered _ _ \<Rightarrow> b \<noteq> m_data (m_alloc v)) \<longrightarrow> \<not> live m' b)"
    using s' el n c' wf' al freed
    by (auto simp: v' m' p)
  show ?thesis
    using head tail by blast
  qed
qed

lemma fold_inv:
  assumes "\<And>k m. g (step k m) = g m"
  shows "g (fold step ks m) = g m"
  by (induction ks arbitrary: m) (simp_all add: assms)

lemma fold_count:
  assumes "\<And>k m. g (step k m) = Suc (g m)"
  shows "g (fold step ks m) = g m + length ks"
  by (induction ks arbitrary: m) (simp_all add: assms)

lemma construct_counters [simp]:
  "constructions (construct m p c) = Suc (constructions m)"
  "assignments (construct m p c) = assignments m"
  "destructions (construct m p c) = destructions m"
  by (simp_all add: construct_def Let_def)

lemma assign_counters [simp]:
  "assignments (assign m p c) = Suc (assignments m)"
  "constructions (assign m p c) = constructions m"
  "destructions (assign m p c) = destructions m"
  "heap_free (assign m p c) = heap_free m"
  by (simp_all add: assign_def Let_def)

lemma construct_range_counters:
  "constructions (construct_range dest src i j m) = constructions m + (j - i)"
  "assignments (construct_range dest src i j m) = assignments m"
  "destructions (construct_range dest src i j m) = destructions m"
  unfolding construct_range_def
  by (simp add: fold_count, (rule fold_inv, simp)+)

lemma assign_range_counters:
  "assignments (assign_range dest src i j m) = assignments m + (j - i)"
  "constructions (assign_range dest src i j m) = constructions m"
  "destructions (assign_range dest src i j m) = destructions m"
  "next_block (assign_range dest src i j m) = next_block m"
  "allocations (assign_range dest src i j m) = allocations m"
  "heap_free (assign_range dest src i j m) = heap_free m"
  unfolding assign_range_def
  by (simp add: fold_count, (rule fold_inv, simp)+)

lemma reserve_grow_frame:
  assumes wf: "well_formed v m" and ca: "can_allocate (Alloc v)" and gt: "capacity v < n"
    and r: "reserve v n m = Returned (v', m')"
  shows "\<exists>d. data v' = Ptr d 0 \<and>
           (d = next_block m \<or> (\<exists>SZ b. Alloc v = Buffered SZ b \<and> d = m_data (m_alloc v))) \<and>
           (\<forall>b. b \<noteq> d \<longrightarrow> blocks m' b = blocks m b) \<and>
           constructions m' = constructions m + size_vec v \<and>
           assignments m' = assignments m \<and> destructions m' = destructions m \<and>
           next_block m \<le> next_block m'"
proof -
  from r gt ca obtain res m1 where
    al: "allocate_at_least (Alloc v) (m_alloc v) n m = Returned (res, m1)"
    and v': "v' = v\<lparr>m_begin := ptr res, m_capacity := ptr_add (ptr res) (count res),
                     m_end := ptr_add (ptr res) (size_vec v)\<rparr>"
    and m': "m' = alloc_deallocate (Alloc v) (m_alloc v) (data v) (capacity v)
                    (construct_range (ptr res) (data v) 0 (size_vec v) m1)"
    by (auto simp: reserve_def bind_Returned Let_def)
  show ?thesis
  proof (rule alloc_target[OF wf ca gt al])
    fix d
    assume p: "ptr res = Ptr d 0" and lv: "live m1 d" and len: "length (blocks m1 d) = count res"
      and n: "n \<le> count res" and dn: "d < next_block m1" and nb: "next_block m \<le> next_block m1"
      and other: "\<And>b. b \<noteq> d \<Longrightarrow> blocks m1 b = blocks m b \<and> live m1 b = live m b"
      and src: "case data v of Nullptr \<Rightarrow> True | Ptr s i \<Rightarrow> s \<noteq> d"
      and kind: "case Alloc v of Plain b \<Rightarrow> d = next_block m
       | Buffered SZ b \<Rightarrow> (d = m_data (m_alloc v) \<and> count res = SZ \<and> m1 = m) \<or>
                           (d = next_block m \<and> d \<noteq> m_data (m_alloc v))"
      and cnts: "constructions m1 = constructions m \<and> assignments m1 = assignments m \<and>
       destructions m1 = destructions m"
    have sz: "size_vec v \<le> length (blocks m1 d)"
      using well_formed_data_size[OF wf ca] gt n len by simp
    have b2: "blocks (construct_range (Ptr d 0) (data v) 0 (size_vec v) m1) b = blocks m1 b"
      if "b \<noteq> d" for b
      using construct_range_blocks(1)[OF lv sz src, of 0] that by simp
    have d': "data v' = Ptr d 0"
      using ca by (simp add: v' p data_def)
    have k: "d = next_block m \<or> (\<exists>SZ b. Alloc v = Buffered SZ b \<and> d = m_data (m_alloc v))"
      using kind by (cases "Alloc v") auto
    show ?thesis
      using d' k b2 other cnts nb
      by (simp add: m' p construct_range_counters)
  qed
qed

lemma reserve_returns:
  assumes wf: "well_formed v m" and ca: "can_allocate (Alloc v)"
    and room: "n + (case at_least_member (backing_allocator_of (Alloc v)) of Some k \<Rightarrow> k | None \<Rightarrow> 0)
                 \<le> heap_free m"
  shows "\<exists>v' m'. reserve v n m = Returned (v', m')"
proof -
  have pol: "alloc_policy (backing_allocator_of (Alloc v)) = Heap"
    using wf ca by (simp add: well_formed_def)
  have "\<exists>res m1. allocate_at_least (Alloc v) (m_alloc v) n m = Returned (res, m1)"
    using pol room
    by (cases "Alloc v")
      (auto simp: buffered_allocate_at_least_def std_allocate_at_least_def allocate_def
        split: option.splits)
  then show ?thesis
    using ca by (auto simp: reserve_def Let_def)
qed

subsection \<open>Growth and appending\<close>

lemma reserve_heap:
  assumes wf: "well_formed v m" and ca: "can_allocate (Alloc v)"
    and r: "reserve v n m = Returned (v', m')"
  shows "size_vec v' = size_vec v \<and> elements v' m' = elements v m \<and> n \<le> capacity v' \<and>
         capacity v \<le> capacity v' \<and> well_formed v' m' \<and> Alloc v' = Alloc v \<and>
         m_alloc v' = m_alloc v"
proof (cases "n \<le> capacity v")
  case True
  then show ?thesis using r wf by (simp add: reserve_def)
next
  case False
  then have "capacity v < n" by simp
  from reserve_grow[OF wf ca this r] False show ?thesis by auto
qed

lemma reserve_static:
  assumes wf: "well_formed v m" and ca: "\<not> can_allocate (Alloc v)"
  shows "reserve v n m =
     (if n \<le> buffer_capacity (Alloc v) then Returned (v, m)
      else case alloc_policy (backing_allocator_of (Alloc v)) of
             Throwing \<Rightarrow> Bad_alloc | Terminating \<Rightarrow> Terminated | _ \<Rightarrow> Returned (v, m))"
  using assms
  by (cases "Alloc v")
    (auto simp: reserve_def well_formed_def capacity_def buffered_allocate_at_least_def
      std_allocate_at_least_def allocate_def split: option.splits policy.splits)

lemma bump_heap:
  assumes wf: "well_formed v m" and ca: "can_allocate (Alloc v)"
    and r: "bump v n m = Returned (v', m')"
  shows "size_vec v' = size_vec v \<and> elements v' m' = elements v m \<and>
         (size_vec v < n \<longrightarrow> max n ((size_vec v * 3) mod 2 ^ 64 div 2) \<le> capacity v') \<and>
         capacity v \<le> capacity v' \<and> well_formed v' m' \<and> Alloc v' = Alloc v \<and>
         m_alloc v' = m_alloc v"
proof (cases "n \<le> size_vec v")
  case True
  then show ?thesis using r wf by (simp add: bump_def)
next
  case False
  then have "reserve v (max n ((size_vec v * 3) mod 2 ^ 64 div 2)) m = Returned (v', m')"
    using r by (simp add: bump_def)
  from reserve_heap[OF wf ca this] show ?thesis by simp
qed

lemma bump_static:
  assumes wf: "well_formed v m" and ca: "\<not> can_allocate (Alloc v)"
    and r: "bump v n m = Returned (v', m')"
  shows "v' = v \<and> m' = m"
  using r reserve_static[OF wf ca]
  by (auto simp: bump_def split: if_splits policy.splits)


lemma elements_append:
  assumes "data v1 = Ptr b 0" "live m1 b" "size_vec v1 < length (blocks m1 b)"
    "data v' = Ptr b 0" "size_vec v' = size_vec v1 + 1"
  shows "elements v' (construct m1 (Ptr b (size_vec v1)) (Some x)) = elements v1 m1 @ [Some x]"
  using assms by (simp add: elements_def read_slot_Ptr blocks_write_slot)

lemma uint_holding_fits: "SZ < 2 ^ 64 \<Longrightarrow> n \<le> SZ \<Longrightarrow> n mod 2 ^ uint_holding SZ = n"
  by (auto simp: uint_holding_def)

lemma well_formed_cong:
  assumes "live m' = live m" "next_block m' = next_block m"
    "\<And>b. length (blocks m' b) = length (blocks m b)"
  shows "well_formed v m' = well_formed v m"
  unfolding well_formed_def by (simp add: assms split: alloc_type.split ptr.split)

lemma length_blocks_write_slot [simp]:
  "length (blocks (write_slot m p c) b) = length (blocks m b)"
  by (cases p) (simp_all add: blocks_write_slot)

lemma well_formed_construct [simp]: "well_formed v (construct m p c) = well_formed v m"
  by (rule well_formed_cong) simp_all

lemma well_formed_assign [simp]: "well_formed v (assign m p c) = well_formed v m"
  by (rule well_formed_cong) simp_all

lemma well_formed_set_size_heap:
  assumes "well_formed v m" "can_allocate (Alloc v)" "n \<le> capacity v"
  shows "well_formed (set_size v n) m"
proof (cases "m_begin v")
  case Nullptr
  then show ?thesis
    using assms
    by (auto simp: well_formed_def set_size_def size_vec_def capacity_def split: alloc_type.splits)
next
  case (Ptr b i)
  then show ?thesis
    using assms
    by (auto simp: well_formed_def set_size_def size_vec_def capacity_def split: alloc_type.splits)
qed

lemma well_formed_set_size_static:
  assumes "well_formed v m" "\<not> can_allocate (Alloc v)" "n \<le> buffer_capacity (Alloc v)"
  shows "well_formed (set_size v n) m"
proof -
  from assms obtain SZ bk where A: "Alloc v = Buffered SZ bk" and SZ: "SZ < 2 ^ 64"
    by (cases "Alloc v") (auto simp: well_formed_def)
  have "n mod 2 ^ uint_holding SZ = n"
    using SZ assms(3) A by (simp add: uint_holding_fits)
  then show ?thesis
    using assms A by (simp add: well_formed_def set_size_def capacity_def)
qed

lemma push_back_spec:
  assumes wf: "well_formed v m"
    and room: "can_allocate (Alloc v) \<or> size_vec v < buffer_capacity (Alloc v)"
    and r: "push_back v x m = Returned (v', m')"
  shows "size_vec v' = size_vec v + 1 \<and> elements v' m' = elements v m @ [Some x] \<and>
         well_formed v' m' \<and> Alloc v' = Alloc v \<and> m_alloc v' = m_alloc v \<and>
         (can_allocate (Alloc v) \<longrightarrow>
            max (size_vec v + 1) ((size_vec v * 3) mod 2 ^ 64 div 2) \<le> capacity v')"
proof -
  from r obtain v1 m1 where b: "bump v (size_vec v + 1) m = Returned (v1, m1)"
    and v': "v' = set_size v1 (size_vec v1 + 1)"
    and m': "m' = construct m1 (end_ptr v1) (Some x)"
    by (auto simp: push_back_def bind_Returned Let_def)
  show ?thesis
  proof (cases "can_allocate (Alloc v)")
    case True
    from bump_heap[OF wf True b] have s1: "size_vec v1 = size_vec v"
      and e1: "elements v1 m1 = elements v m"
      and c1: "max (size_vec v + 1) ((size_vec v * 3) mod 2 ^ 64 div 2) \<le> capacity v1"
      and wf1: "well_formed v1 m1" and A1: "Alloc v1 = Alloc v" and al1: "m_alloc v1 = m_alloc v"
      by simp_all
    have ca1: "can_allocate (Alloc v1)" using True A1 by simp
    from wf_data_block[OF wf1 ca1] c1 s1 obtain b where
      d: "data v1 = Ptr b 0" and bl: "b < next_block m1" "live m1 b"
      and sc: "size_vec v1 \<le> capacity v1" "capacity v1 \<le> length (blocks m1 b)"
      and me: "m_end v1 = Ptr b (size_vec v1)" and mc: "m_capacity v1 = Ptr b (capacity v1)"
      by auto
    have lt: "size_vec v1 < capacity v1" using c1 s1 by simp
    have mb: "m_begin v1 = Ptr b 0" using d ca1 by (simp add: data_def)
    have ep: "end_ptr v1 = Ptr b (size_vec v1)" by (simp add: end_ptr_def d)
    have d': "data v' = Ptr b 0" and s': "size_vec v' = size_vec v1 + 1"
      and c': "capacity v' = capacity v1"
      using ca1 mb by (simp_all add: v' set_size_def data_def size_vec_def capacity_def)
    have el: "elements v' m' = elements v1 m1 @ [Some x]"
      unfolding m' ep using d bl(2) lt sc(2) d' s' by (intro elements_append) simp_all
    have wf': "well_formed v' m'"
      unfolding v' m' using wf1 ca1 lt by (simp add: well_formed_set_size_heap)
    show ?thesis
      using s' s1 el e1 wf' c1 c' A1 al1 ca1 by (simp add: v' set_size_def)
  next
    case False
    from bump_static[OF wf False b] have v1: "v1 = v" and m1: "m1 = m" by simp_all
    from wf False obtain SZ bk where A: "Alloc v = Buffered SZ bk" and SZ: "0 < SZ" "SZ < 2 ^ 64"
      and buf: "live m (m_data (m_alloc v))" "length (blocks m (m_data (m_alloc v))) = SZ"
        "m_data (m_alloc v) < next_block m"
      by (cases "Alloc v") (auto simp: well_formed_def)
    have lt: "size_vec v < SZ" using room False A by simp
    have d: "data v = Ptr (m_data (m_alloc v)) 0"
      using False by (simp add: data_def buffered_allocate_def)
    have ep: "end_ptr v = Ptr (m_data (m_alloc v)) (size_vec v)" by (simp add: end_ptr_def d)
    have s': "size_vec v' = size_vec v + 1"
      using False A SZ lt by (simp add: v' v1 set_size_def size_vec_def uint_holding_fits)
    have d': "data v' = Ptr (m_data (m_alloc v)) 0"
      using False by (simp add: v' v1 set_size_def data_def buffered_allocate_def)
    have el: "elements v' m' = elements v m @ [Some x]"
      unfolding m' v1 m1 ep using d buf lt d' s' by (intro elements_append) simp_all
    have wf': "well_formed v' m'"
      unfolding v' m' v1 m1 using wf False lt A by (simp add: well_formed_set_size_static)
    show ?thesis
      using s' el wf' False by (simp add: v' v1 set_size_def)
  qed
qed

subsection \<open>The pushes of the smoke test\<close>

lemma push_back_returns:
  assumes wf: "well_formed v m" and ca: "can_allocate (Alloc v)"
    and room: "requested v + slack (Alloc v) \<le> heap_free m"
  shows "\<exists>v' m'. push_back v x m = Returned (v', m')"
proof -
  from reserve_returns[OF wf ca, of "requested v"] room obtain v1 m1 where
    "reserve v (requested v) m = Returned (v1, m1)"
    by (auto simp: slack_def)
  then show ?thesis
    by (simp add: push_back_def bump_def Let_def requested_def)
qed

lemma push_back_grows:
  assumes wf: "well_formed v m" and ca: "can_allocate (Alloc v)"
    and r: "push_back v x m = Returned (v', m')"
  shows "capacity v' = (if requested v \<le> capacity v then capacity v
                        else if requested v \<le> buffer_capacity (Alloc v)
                        then buffer_capacity (Alloc v) else requested v + slack (Alloc v)) \<and>
         allocations m' = allocations m +
            (if requested v \<le> capacity v \<or> requested v \<le> buffer_capacity (Alloc v)
             then 0 else 1) \<and>
         heap_free m - (if requested v \<le> capacity v \<or> requested v \<le> buffer_capacity (Alloc v)
                        then 0 else requested v + slack (Alloc v)) \<le> heap_free m'"
proof -
  from r obtain v1 m1 where b: "reserve v (requested v) m = Returned (v1, m1)"
    and v': "v' = set_size v1 (size_vec v1 + 1)"
    and m': "m' = construct m1 (end_ptr v1) (Some x)"
    by (auto simp: push_back_def bump_def bind_Returned Let_def requested_def)
  have A1: "Alloc v1 = Alloc v" using reserve_heap[OF wf ca b] by simp
  have c': "capacity v' = capacity v1" 
    using ca A1 by (simp add: v' set_size_def capacity_def)
  have a': "allocations m' = allocations m1" and h': "heap_free m' = heap_free m1"
    by (simp_all add: m')
  show ?thesis
  proof (cases "requested v \<le> capacity v")
    case True
    then have "v1 = v" "m1 = m" using b by (simp_all add: reserve_def)
    then show ?thesis using True c' a' h' by simp
  next
    case False
    then have gt: "capacity v < requested v" by simp
    from reserve_grow[OF wf ca gt b] have
      "capacity v1 = (if requested v \<le> buffer_capacity (Alloc v) then buffer_capacity (Alloc v)
                        else requested v + slack (Alloc v))"
      "allocations m1 = allocations m + (if requested v \<le> buffer_capacity (Alloc v) then 0 else 1)"
      "heap_free m - (if requested v \<le> buffer_capacity (Alloc v) then 0 else capacity v1) \<le> heap_free m1"
      unfolding slack_def by blast+
    then show ?thesis using False c' a' h'
      by (cases "requested v \<le> buffer_capacity (Alloc v)") simp_all
  qed
qed


lemma sbo_3_step:
  assumes wf: "well_formed v m" and A: "Alloc v = sbo_vector 3 std_allocator"
    and room: "requested v \<le> heap_free m"
  shows "\<exists>v' m'. push_back v x m = Returned (v', m') \<and> well_formed v' m' \<and>
           Alloc v' = sbo_vector 3 std_allocator \<and> size_vec v' = size_vec v + 1 \<and>
           elements v' m' = elements v m @ [Some x] \<and>
           capacity v' = (if requested v \<le> capacity v then capacity v
                          else if requested v \<le> 3 then 3 else requested v) \<and>
           allocations m' = allocations m +
              (if requested v \<le> capacity v \<or> requested v \<le> 3 then 0 else 1) \<and>
           heap_free m - (if requested v \<le> capacity v \<or> requested v \<le> 3
                          then 0 else requested v) \<le> heap_free m'"
proof -
  have ca: "can_allocate (Alloc v)" and sl: "slack (Alloc v) = 0"
    and bc: "buffer_capacity (Alloc v) = 3"
    by (simp_all add: A sbo_vector_def std_allocator_def get_can_allocate_def slack_def)
  from push_back_returns[OF wf ca, of x] room sl obtain v' m' where
    r: "push_back v x m = Returned (v', m')" by auto
  have "Alloc v' = Alloc v" "well_formed v' m'" "size_vec v' = size_vec v + 1"
    "elements v' m' = elements v m @ [Some x]"
    using push_back_spec[OF wf _ r] ca by simp_all
  moreover note push_back_grows[OF wf ca r, unfolded sl bc]
  ultimately show ?thesis
    using r A by (auto split: if_splits)
qed

lemma sbo_empty_facts:
  "well_formed sbo_empty sbo_empty_memory" "Alloc sbo_empty = sbo_vector 3 std_allocator"
  "size_vec sbo_empty = 0" "capacity sbo_empty = 0" "elements sbo_empty sbo_empty_memory = []"
  "allocations sbo_empty_memory = 0" "heap_free sbo_empty_memory = 100"
  by (simp_all add: well_formed_def sbo_empty_def sbo_empty_memory_def vector_ctor_def
      new_allocator_def empty_memory_def sbo_vector_def std_allocator_def get_can_allocate_def
      size_vec_def capacity_def elements_def)

lemma smoke_test_pushes:
  "after (push_all sbo_empty [1] sbo_empty_memory)
     (\<lambda>v m. size_vec v = 1 \<and> allocations m = 0 \<and> capacity v = 3) \<and>
   after (push_all sbo_empty [1, 2] sbo_empty_memory)
     (\<lambda>v m. size_vec v = 2 \<and> allocations m = 0 \<and> capacity v = 3) \<and>
   after (push_all sbo_empty [1, 2, 3] sbo_empty_memory)
     (\<lambda>v m. size_vec v = 3 \<and> allocations m = 0 \<and> capacity v = 3) \<and>
   after (push_all sbo_empty [1, 2, 3, 4] sbo_empty_memory)
     (\<lambda>v m. size_vec v = 4 \<and> allocations m = 1 \<and> 4 \<le> capacity v) \<and>
   after (push_all sbo_empty [1, 2, 3, 4, 5] sbo_empty_memory)
     (\<lambda>v m. size_vec v = 5 \<and>
        elements v m = [Some 1, Some 2, Some 3, Some 4, Some 5])"
proof -
  note f0 = sbo_empty_facts
  have q0: "requested sbo_empty = 1" by (simp add: requested_def f0)
  from sbo_3_step[OF f0(1,2), of 1] q0 f0 obtain v1 m1 where
    p1: "push_back sbo_empty 1 sbo_empty_memory = Returned (v1, m1)"
    and f1: "well_formed v1 m1" "Alloc v1 = sbo_vector 3 std_allocator" "size_vec v1 = 1"
      "elements v1 m1 = [Some 1]" "capacity v1 = 3" "allocations m1 = 0" "100 \<le> heap_free m1"
    by auto
  have q1: "requested v1 = 2" by (simp add: requested_def f1)
  from sbo_3_step[OF f1(1,2), of 2] q1 f1 obtain v2 m2 where
    p2: "push_back v1 2 m1 = Returned (v2, m2)"
    and f2: "well_formed v2 m2" "Alloc v2 = sbo_vector 3 std_allocator" "size_vec v2 = 2"
      "elements v2 m2 = [Some 1, Some 2]" "capacity v2 = 3" "allocations m2 = 0"
      "100 \<le> heap_free m2"
    by auto
  have q2: "requested v2 = 3" by (simp add: requested_def f2)
  from sbo_3_step[OF f2(1,2), of 3] q2 f2 obtain v3 m3 where
    p3: "push_back v2 3 m2 = Returned (v3, m3)"
    and f3: "well_formed v3 m3" "Alloc v3 = sbo_vector 3 std_allocator" "size_vec v3 = 3"
      "elements v3 m3 = [Some 1, Some 2, Some 3]" "capacity v3 = 3" "allocations m3 = 0"
      "100 \<le> heap_free m3"
    by auto
  have q3: "requested v3 = 4" by (simp add: requested_def f3)
  from sbo_3_step[OF f3(1,2), of 4] q3 f3 obtain v4 m4 where
    p4: "push_back v3 4 m3 = Returned (v4, m4)"
    and f4: "well_formed v4 m4" "Alloc v4 = sbo_vector 3 std_allocator" "size_vec v4 = 4"
      "elements v4 m4 = [Some 1, Some 2, Some 3, Some 4]" "capacity v4 = 4" "allocations m4 = 1"
      "96 \<le> heap_free m4"
    by auto
  have q4: "requested v4 = 6" by (simp add: requested_def f4)
  from sbo_3_step[OF f4(1,2), of 5] q4 f4 obtain v5 m5 where
    p5: "push_back v4 5 m4 = Returned (v5, m5)"
    and f5: "size_vec v5 = 5" "elements v5 m5 = [Some 1, Some 2, Some 3, Some 4, Some 5]"
    by auto
  show ?thesis
    by (simp add: after_def p1 p2 p3 p4 p5 f1 f2 f3 f4 f5)
qed


lemma sbo_three_facts:
  "well_formed sbo_three sbo_three_memory" "Alloc sbo_three = sbo_vector 3 std_allocator"
  "can_allocate (Alloc sbo_three)"
  "size_vec sbo_three = 3" "capacity sbo_three = 3"
  "elements sbo_three sbo_three_memory = [Some 1, Some 2, Some 3]"
  "requested sbo_three = 4" "slack (Alloc sbo_three) = 0"
  "allocations sbo_three_memory = 0" "heap_free sbo_three_memory = 100"
  by (simp_all add: well_formed_def sbo_three_def sbo_three_memory_def
      sbo_vector_def std_allocator_def get_can_allocate_def requested_def slack_def
      size_vec_def capacity_def elements_def data_def read_slot_def upt_rec)

lemma replicate_4: "replicate 4 x = [x, x, x, x]"
  by (simp add: numeral_eq_Suc)

lemma reserve_eval:
  assumes "can_allocate (Alloc v)" "capacity v < sz"
    and "allocate_at_least (Alloc v) (m_alloc v) sz m = Returned (res, m1)"
    and "construct_range (ptr res) (data v) 0 (size_vec v) m1 = m2"
    and "alloc_deallocate (Alloc v) (m_alloc v) (data v) (capacity v) m2 = m3"
  shows "reserve v sz m =
     Returned (v\<lparr>m_begin := ptr res, m_capacity := ptr_add (ptr res) (count res),
                 m_end := ptr_add (ptr res) (size_vec v)\<rparr>, m3)"
  using assms by (simp add: reserve_def Let_def)

lemma push_back_eval:
  assumes "reserve v (requested v) m = Returned (v1, m1)"
    and "construct m1 (end_ptr v1) (Some x) = m2"
    and "set_size v1 (size_vec v1 + 1) = v2"
  shows "push_back v x m = Returned (v2, m2)"
  using assms by (simp add: push_back_def bump_def requested_def Let_def)

lemmas sbo_defs = sbo_vector_def std_allocator_def get_can_allocate_def buffered_allocate_def

lemma reserve_4:
  "reserve sbo_three 4 sbo_three_memory =
     Returned (sbo_three\<lparr>m_begin := Ptr 1 0, m_capacity := Ptr 1 4, m_end := Ptr 1 3\<rparr>,
       sbo_three_memory\<lparr>blocks := (blocks sbo_three_memory)(1 := [Some 1, Some 2, Some 3, None]),
          live := (live sbo_three_memory)(1 := True), next_block := 2, heap_free := 96,
          allocations := 1, constructions := 6\<rparr>)"
proof -
  have d: "data sbo_three = Ptr 0 0"
    by (simp add: data_def sbo_three_facts(3)) (simp add: sbo_three_def)
  have "reserve sbo_three 4 sbo_three_memory =
     Returned (sbo_three\<lparr>m_begin := ptr \<lparr>ptr = Ptr 1 0, count = 4\<rparr>,
         m_capacity := ptr_add (ptr \<lparr>ptr = Ptr 1 0, count = 4\<rparr>) (count \<lparr>ptr = Ptr 1 0, count = 4\<rparr>),
         m_end := ptr_add (ptr \<lparr>ptr = Ptr 1 0, count = 4\<rparr>) (size_vec sbo_three)\<rparr>,
       sbo_three_memory\<lparr>blocks := (blocks sbo_three_memory)(1 := [Some 1, Some 2, Some 3, None]),
          live := (live sbo_three_memory)(1 := True), next_block := 2, heap_free := 96,
          allocations := 1, constructions := 6\<rparr>)"
  proof (rule reserve_eval)
    show "can_allocate (Alloc sbo_three)" by (rule sbo_three_facts)
    show "capacity sbo_three < 4" by (simp add: sbo_three_facts(5))
    show "allocate_at_least (Alloc sbo_three) (m_alloc sbo_three) 4 sbo_three_memory =
      Returned (\<lparr>ptr = Ptr 1 0, count = 4\<rparr>,
        sbo_three_memory\<lparr>blocks := (blocks sbo_three_memory)(1 := [None, None, None, None]),
          live := (live sbo_three_memory)(1 := True), next_block := 2, heap_free := 96,
          allocations := 1\<rparr>)"
      by (simp add: sbo_three_def sbo_three_memory_def sbo_defs
        buffered_allocate_at_least_def std_allocate_at_least_def allocate_def replicate_4)
    show "construct_range (ptr \<lparr>ptr = Ptr 1 0, count = 4\<rparr>) (data sbo_three) 0 (size_vec sbo_three)
       (sbo_three_memory\<lparr>blocks := (blocks sbo_three_memory)(1 := [None, None, None, None]),
          live := (live sbo_three_memory)(1 := True), next_block := 2, heap_free := 96,
          allocations := 1\<rparr>) =
       sbo_three_memory\<lparr>blocks := (blocks sbo_three_memory)(1 := [Some 1, Some 2, Some 3, None]),
          live := (live sbo_three_memory)(1 := True), next_block := 2, heap_free := 96,
          allocations := 1, constructions := 6\<rparr>"
      unfolding d sbo_three_facts(4)
      by (simp add: construct_range_def upt_rec construct_def write_slot_def read_slot_def
        sbo_three_memory_def)
    show "alloc_deallocate (Alloc sbo_three) (m_alloc sbo_three) (data sbo_three)
        (capacity sbo_three)
        (sbo_three_memory\<lparr>blocks := (blocks sbo_three_memory)(1 := [Some 1, Some 2, Some 3, None]),
          live := (live sbo_three_memory)(1 := True), next_block := 2, heap_free := 96,
          allocations := 1, constructions := 6\<rparr>) =
       sbo_three_memory\<lparr>blocks := (blocks sbo_three_memory)(1 := [Some 1, Some 2, Some 3, None]),
          live := (live sbo_three_memory)(1 := True), next_block := 2, heap_free := 96,
          allocations := 1, constructions := 6\<rparr>"
      unfolding d by (simp add: sbo_three_def sbo_defs)
  qed
  then show ?thesis by (simp add: sbo_three_facts(4))
qed

lemma push_4: "push_back sbo_three 4 sbo_three_memory = Returned (sbo_four, sbo_four_memory)"
proof (rule push_back_eval)
  show "reserve sbo_three (requested sbo_three) sbo_three_memory =
     Returned (sbo_three\<lparr>m_begin := Ptr 1 0, m_capacity := Ptr 1 4, m_end := Ptr 1 3\<rparr>,
       sbo_three_memory\<lparr>blocks := (blocks sbo_three_memory)(1 := [Some 1, Some 2, Some 3, None]),
          live := (live sbo_three_memory)(1 := True), next_block := 2, heap_free := 96,
          allocations := 1, constructions := 6\<rparr>)"
    unfolding sbo_three_facts(7) by (rule reserve_4)
  show "construct (sbo_three_memory\<lparr>blocks := (blocks sbo_three_memory)(1 := [Some 1, Some 2, Some 3, None]),
          live := (live sbo_three_memory)(1 := True), next_block := 2, heap_free := 96,
          allocations := 1, constructions := 6\<rparr>)
        (end_ptr (sbo_three\<lparr>m_begin := Ptr 1 0, m_capacity := Ptr 1 4, m_end := Ptr 1 3\<rparr>))
        (Some 4) = sbo_four_memory"
    by (simp add: end_ptr_def data_def size_vec_def construct_def write_slot_def
        sbo_three_def sbo_three_memory_def sbo_four_memory_def sbo_defs)
  show "set_size (sbo_three\<lparr>m_begin := Ptr 1 0, m_capacity := Ptr 1 4, m_end := Ptr 1 3\<rparr>)
          (size_vec (sbo_three\<lparr>m_begin := Ptr 1 0, m_capacity := Ptr 1 4, m_end := Ptr 1 3\<rparr>) + 1)
        = sbo_four"
    by (simp add: set_size_def size_vec_def sbo_three_def sbo_four_def sbo_defs)
qed

lemma replicate_6: "replicate 6 x = [x, x, x, x, x, x]"
  by (simp add: numeral_eq_Suc)

lemma sbo_four_facts:
  "can_allocate (Alloc sbo_four)" "capacity sbo_four = 4" "size_vec sbo_four = 4"
  "data sbo_four = Ptr 1 0" "requested sbo_four = 6"
  by (simp_all add: sbo_four_def capacity_def size_vec_def data_def requested_def sbo_defs)

lemma push_5: "push_back sbo_four 5 sbo_four_memory = Returned (sbo_five, sbo_five_memory)"
proof (rule push_back_eval)
  let ?m1 = "sbo_four_memory\<lparr>blocks := (blocks sbo_four_memory)(2 := [None, None, None, None, None, None]),
          live := (live sbo_four_memory)(2 := True), next_block := 3, heap_free := 90,
          allocations := 2\<rparr>"
  let ?m2 = "sbo_four_memory\<lparr>blocks := (blocks sbo_four_memory)
            (2 := [Some 1, Some 2, Some 3, Some 4, None, None]),
          live := (live sbo_four_memory)(2 := True), next_block := 3, heap_free := 90,
          allocations := 2, constructions := 11\<rparr>"
  let ?m3 = "sbo_four_memory\<lparr>blocks := (blocks sbo_four_memory)
            (2 := [Some 1, Some 2, Some 3, Some 4, None, None]),
          live := (live sbo_four_memory)(1 := False, 2 := True), next_block := 3, heap_free := 94,
          allocations := 2, constructions := 11\<rparr>"
  let ?r = "\<lparr>ptr = Ptr 2 0, count = 6\<rparr>"
  have "reserve sbo_four 6 sbo_four_memory =
     Returned (sbo_four\<lparr>m_begin := ptr ?r, m_capacity := ptr_add (ptr ?r) (count ?r),
         m_end := ptr_add (ptr ?r) (size_vec sbo_four)\<rparr>, ?m3)"
  proof (rule reserve_eval)
    show "can_allocate (Alloc sbo_four)" by (rule sbo_four_facts)
    show "capacity sbo_four < 6" by (simp add: sbo_four_facts(2))
    show "allocate_at_least (Alloc sbo_four) (m_alloc sbo_four) 6 sbo_four_memory =
      Returned (?r, ?m1)"
      by (simp add: sbo_four_def sbo_four_memory_def sbo_defs
        buffered_allocate_at_least_def std_allocate_at_least_def allocate_def replicate_6)
    show "construct_range (ptr ?r) (data sbo_four) 0 (size_vec sbo_four) ?m1 = ?m2"
      unfolding sbo_four_facts(3,4)
      by (simp add: construct_range_def upt_rec construct_def write_slot_def read_slot_def
        sbo_four_memory_def)
    show "alloc_deallocate (Alloc sbo_four) (m_alloc sbo_four) (data sbo_four)
        (capacity sbo_four) ?m2 = ?m3"
      unfolding sbo_four_facts(4)
      by (simp add: sbo_four_def sbo_defs deallocate_def sbo_four_memory_def fun_upd_twist)
  qed
  then show "reserve sbo_four (requested sbo_four) sbo_four_memory =
     Returned (sbo_four\<lparr>m_begin := Ptr 2 0, m_capacity := Ptr 2 6, m_end := Ptr 2 4\<rparr>, ?m3)"
    by (simp add: sbo_four_facts(3,5))
  show "construct ?m3
        (end_ptr (sbo_four\<lparr>m_begin := Ptr 2 0, m_capacity := Ptr 2 6, m_end := Ptr 2 4\<rparr>))
        (Some 5) = sbo_five_memory"
    by (simp add: end_ptr_def data_def size_vec_def construct_def write_slot_def
        sbo_four_def sbo_four_memory_def sbo_five_memory_def sbo_defs)
  show "set_size (sbo_four\<lparr>m_begin := Ptr 2 0, m_capacity := Ptr 2 6, m_end := Ptr 2 4\<rparr>)
          (size_vec (sbo_four\<lparr>m_begin := Ptr 2 0, m_capacity := Ptr 2 6, m_end := Ptr 2 4\<rparr>) + 1)
        = sbo_five"
    by (simp add: set_size_def size_vec_def sbo_four_def sbo_five_def sbo_defs)
qed


lemma push_1_2_3:
  "push_all sbo_empty [1, 2, 3] sbo_empty_memory = Returned (sbo_three, sbo_three_memory)"
  by (simp add: sbo_empty_def sbo_empty_memory_def sbo_three_def sbo_three_memory_def
      new_allocator_def empty_memory_def vector_ctor_def push_back_def bump_def reserve_def
      capacity_def size_vec_def buffered_allocate_at_least_def construct_range_def
      construct_def write_slot_def data_def end_ptr_def set_size_def Let_def replicate_3
      deallocate_def sbo_defs)

lemma pop_back_last_inline_element:
  assumes "Alloc v = Buffered SZ b" "\<not> can_allocate (Alloc v)" "size_vec v = 1"
  shows "snd (pop_back v m) = m"
  using assms
  by (simp add: pop_back_def Let_def set_size_def end_ptr_def data_def size_vec_def
      buffered_allocate_def)

subsection \<open>Shrinking\<close>

lemma destroy_frame [simp]:
  "live (destroy m p) = live m" "next_block (destroy m p) = next_block m"
  "allocations (destroy m p) = allocations m" "heap_free (destroy m p) = heap_free m"
  "length (blocks (destroy m p) b) = length (blocks m b)"
  "constructions (destroy m p) = constructions m" "assignments (destroy m p) = assignments m"
  by (simp_all add: destroy_def Let_def)

lemma alloc_destroy_frame [simp]:
  "live (alloc_destroy A al p m) = live m" "next_block (alloc_destroy A al p m) = next_block m"
  "allocations (alloc_destroy A al p m) = allocations m"
  "heap_free (alloc_destroy A al p m) = heap_free m"
  "length (blocks (alloc_destroy A al p m) b) = length (blocks m b)"
  "constructions (alloc_destroy A al p m) = constructions m"
  "assignments (alloc_destroy A al p m) = assignments m"
  by (cases A; simp)+

lemma well_formed_alloc_destroy [simp]:
  "well_formed v (alloc_destroy A al p m) = well_formed v m"
  by (rule well_formed_cong) simp_all

lemma blocks_alloc_destroy:
  "blocks (alloc_destroy A al (Ptr b i) m) b' ! k =
     (if b' = b \<and> k = i then blocks (alloc_destroy A al (Ptr b i) m) b ! i else blocks m b' ! k)"
  by (cases A) (auto simp: destroy_def Let_def blocks_write_slot)

lemma well_formed_capacity:
  assumes "well_formed v m"
  shows "size_vec v \<le> capacity v"
proof (cases "can_allocate (Alloc v)")
  case True
  then show ?thesis using wf_data_block[OF assms] by auto
next
  case False
  then show ?thesis using assms by (simp add: well_formed_def size_vec_def capacity_def)
qed

lemma size_set_size:
  assumes "well_formed v m" "n \<le> capacity v"
  shows "size_vec (set_size v n) = n"
proof (cases "can_allocate (Alloc v)")
  case True
  then show ?thesis
    using assms by (cases "m_begin v") (auto simp: well_formed_def set_size_def size_vec_def capacity_def)
next
  case False
  then obtain SZ bk where A: "Alloc v = Buffered SZ bk" and SZ: "SZ < 2 ^ 64"
    using assms by (cases "Alloc v") (auto simp: well_formed_def)
  then show ?thesis
    using False assms(2) by (simp add: set_size_def size_vec_def capacity_def uint_holding_fits)
qed

lemma well_formed_set_size:
  assumes "well_formed v m" "n \<le> capacity v"
  shows "well_formed (set_size v n) m"
  using assms well_formed_set_size_heap well_formed_set_size_static
  by (cases "can_allocate (Alloc v)") (auto simp: capacity_def)

lemma set_size_frame [simp]:
  "Alloc (set_size v n) = Alloc v" "m_alloc (set_size v n) = m_alloc v"
  "m_begin (set_size v n) = m_begin v" "m_capacity (set_size v n) = m_capacity v"
  "capacity (set_size v n) = capacity v" "data (set_size v n) = data v"
  by (simp_all add: set_size_def capacity_def data_def)

lemma pop_back_spec:
  assumes wf: "well_formed v m" and pos: "0 < size_vec v"
  shows "size_vec (fst (pop_back v m)) = size_vec v - 1 \<and>
         well_formed (fst (pop_back v m)) (snd (pop_back v m)) \<and>
         Alloc (fst (pop_back v m)) = Alloc v \<and> m_alloc (fst (pop_back v m)) = m_alloc v \<and>
         m_begin (fst (pop_back v m)) = m_begin v \<and>
         m_capacity (fst (pop_back v m)) = m_capacity v \<and>
         live (snd (pop_back v m)) = live m \<and> next_block (snd (pop_back v m)) = next_block m \<and>
         allocations (snd (pop_back v m)) = allocations m \<and>
         heap_free (snd (pop_back v m)) = heap_free m \<and>
         constructions (snd (pop_back v m)) = constructions m \<and>
         assignments (snd (pop_back v m)) = assignments m"
proof -
  have le: "size_vec v - 1 \<le> capacity v"
    using well_formed_capacity[OF wf] by simp
  show ?thesis
    using size_set_size[OF wf le] well_formed_set_size[OF wf le]
    by (simp add: pop_back_def Let_def)
qed

lemma pop_until_spec:
  assumes "well_formed v m" "pop_until v n m = (v', m')"
  shows "size_vec v' = min (size_vec v) n \<and> well_formed v' m' \<and>
         Alloc v' = Alloc v \<and> m_alloc v' = m_alloc v \<and>
         m_begin v' = m_begin v \<and> m_capacity v' = m_capacity v \<and>
         live m' = live m \<and> next_block m' = next_block m \<and>
         allocations m' = allocations m \<and> heap_free m' = heap_free m \<and>
         constructions m' = constructions m \<and> assignments m' = assignments m"
  using assms
proof (induction v n m rule: pop_until.induct)
  case (1 v sz m)
  show ?case
  proof (cases "sz < size_vec v")
    case True
    then have pos: "0 < size_vec v" by simp
    note pb = pop_back_spec[OF "1.prems"(1) pos]
    have ih: "well_formed (fst (pop_back v m)) (snd (pop_back v m))" using pb by simp
    have eq: "pop_until (fst (pop_back v m)) sz (snd (pop_back v m)) = (v', m')"
      using "1.prems"(2) True by (subst (asm) pop_until.simps) simp
    from "1.IH"[OF True ih eq] pb True show ?thesis
      by (auto simp: min_def)
  next
    case False
    then have "(v, m) = (v', m')"
      using "1.prems"(2) by (subst (asm) pop_until.simps) simp
    then have "v' = v" "m' = m" by simp_all
    then show ?thesis using "1.prems"(1) False by (simp add: min_def)
  qed
qed

subsection \<open>Static containers\<close>

lemma static_push_back_full:
  assumes wf: "well_formed v m" and ca: "\<not> can_allocate (Alloc v)"
    and full: "size_vec v = buffer_capacity (Alloc v)"
  shows "push_back v x m =
     (case alloc_policy (backing_allocator_of (Alloc v)) of
        Throwing \<Rightarrow> Bad_alloc
      | Terminating \<Rightarrow> Terminated
      | _ \<Rightarrow> Returned (set_size v (size_vec v + 1), construct m (end_ptr v) (Some x)))"
proof -
  have "\<not> max (size_vec v + 1) ((size_vec v * 3) mod 2 ^ 64 div 2) \<le> buffer_capacity (Alloc v)"
    using full by simp
  then show ?thesis
    unfolding push_back_def bump_def reserve_static[OF wf ca]
    by (simp add: Let_def split: policy.splits)
qed

lemma static_push_back_inv:
  assumes wf: "well_formed v m" and ca: "\<not> can_allocate (Alloc v)"
    and r: "push_back v x m = Returned (v', m')"
    and ok: "alloc_policy (backing_allocator_of (Alloc v)) \<noteq> Unchecked \<or>
             size_vec v < buffer_capacity (Alloc v)"
  shows "well_formed v' m' \<and> Alloc v' = Alloc v \<and> size_vec v' = size_vec v + 1"
proof (cases "size_vec v < buffer_capacity (Alloc v)")
  case True
  then show ?thesis using push_back_spec[OF wf _ r] by simp
next
  case False
  then have full: "size_vec v = buffer_capacity (Alloc v)"
    using well_formed_capacity[OF wf] ca by (simp add: capacity_def)
  have "alloc_policy (backing_allocator_of (Alloc v)) \<noteq> Heap"
    using wf ca by (cases "Alloc v") (auto simp: well_formed_def)
  then show ?thesis
    using static_push_back_full[OF wf ca full, of x] r ok False
    by (cases "alloc_policy (backing_allocator_of (Alloc v))") simp_all
qed

lemma push_until_static:
  assumes "well_formed v m" "\<not> can_allocate (Alloc v)"
    and "alloc_policy (backing_allocator_of (Alloc v)) \<noteq> Unchecked \<or> n \<le> buffer_capacity (Alloc v)"
    and "push_until fuel d v n m = Some (Returned (v', m'))"
  shows "well_formed v' m' \<and> Alloc v' = Alloc v"
  using assms
proof (induction fuel arbitrary: v m)
  case 0
  then show ?case by (simp split: if_splits)
next
  case (Suc fuel)
  show ?case
  proof (cases "size_vec v < n")
    case False
    then show ?thesis using Suc.prems by simp
  next
    case True
    then obtain v1 m1 where pb: "push_back v d m = Returned (v1, m1)"
      and rest: "push_until fuel d v1 n m1 = Some (Returned (v', m'))"
      using Suc.prems(4) by (auto split: outcome.splits)
    have ok: "alloc_policy (backing_allocator_of (Alloc v)) \<noteq> Unchecked \<or>
             size_vec v < buffer_capacity (Alloc v)"
      using Suc.prems(3) True by auto
    from static_push_back_inv[OF Suc.prems(1,2) pb ok]
    have w1: "well_formed v1 m1" and A1: "Alloc v1 = Alloc v" by simp_all
    from Suc.IH[OF w1 _ _ rest] A1 Suc.prems(2,3) show ?thesis by simp
  qed
qed

lemma resize_static:
  assumes wf: "well_formed v m" and ca: "\<not> can_allocate (Alloc v)"
    and ok: "alloc_policy (backing_allocator_of (Alloc v)) \<noteq> Unchecked \<or> n \<le> buffer_capacity (Alloc v)"
    and r: "resize fuel d v n m = Some (Returned (v', m'))"
  shows "well_formed v' m' \<and> Alloc v' = Alloc v"
proof (cases "n > size_vec v")
  case True
  then obtain v1 m1 where b: "bump v n m = Returned (v1, m1)"
    and p: "push_until fuel d v1 n m1 = Some (Returned (v', m'))"
    using r by (auto simp: resize_def split: outcome.splits)
  from bump_static[OF wf ca b] have "v1 = v" "m1 = m" by simp_all
  with p push_until_static[OF wf ca ok] show ?thesis by simp
next
  case False
  then have "pop_until v n m = (v', m')" using r by (simp add: resize_def)
  from pop_until_spec[OF wf this] show ?thesis by simp
qed

lemma resize_0: "resize fuel d v 0 m = Some (Returned (clear v m))"
  by (simp add: resize_def clear_def)

subsection \<open>Element transfer\<close>

lemma assign_range_blocks:
  assumes "live m d" "j \<le> length (blocks m d)"
    and "case src of Nullptr \<Rightarrow> True | Ptr s o' \<Rightarrow> s \<noteq> d"
  shows "blocks (assign_range (Ptr d 0) src i j m) =
           (blocks m)(d := map (\<lambda>k. if i \<le> k \<and> k < j then read_slot m (ptr_add src k)
                                     else blocks m d ! k) [0..<length (blocks m d)])"
    and "live (assign_range (Ptr d 0) src i j m) = live m"
  using fold_copy_blocks[of assign, OF _ _ assms, of i]
  by (simp_all add: assign_range_def)

lemma destroy_range_frame:
  "live (destroy_range v dest i j m) = live m"
  "next_block (destroy_range v dest i j m) = next_block m"
  "allocations (destroy_range v dest i j m) = allocations m"
  "heap_free (destroy_range v dest i j m) = heap_free m"
  "constructions (destroy_range v dest i j m) = constructions m"
  "assignments (destroy_range v dest i j m) = assignments m"
  "length (blocks (destroy_range v dest i j m) b) = length (blocks m b)"
  unfolding destroy_range_def
  by (rule fold_inv, simp)+

lemma blocks_alloc_destroy_other:
  "b' \<noteq> b \<or> k \<noteq> i \<Longrightarrow> blocks (alloc_destroy A al (Ptr b i) m) b' ! k = blocks m b' ! k"
  by (cases A) (auto simp: destroy_def Let_def blocks_write_slot)

lemma destroy_range_below:
  assumes "k < i"
  shows "blocks (destroy_range v (Ptr d 0) i j m) b ! k = blocks m b ! k"
proof -
  have "blocks (fold (\<lambda>k m. alloc_destroy (Alloc v) (m_alloc v) (ptr_add (Ptr d 0) k) m) ks m) b ! k
          = blocks m b ! k" if "\<forall>x\<in>set ks. k < x" for ks
    using that
    by (induction ks arbitrary: m) (simp_all add: blocks_alloc_destroy_other)
  then show ?thesis
    using assms by (simp add: destroy_range_def)
qed

lemma range_lengths:
  "length (blocks (assign_range dest src i j m) b) = length (blocks m b)"
  "length (blocks (construct_range dest src i j m) b) = length (blocks m b)"
  "live (assign_range dest src i j m) = live m"
  "live (construct_range dest src i j m) = live m"
  unfolding assign_range_def construct_range_def
  by (rule fold_inv, simp)+


lemma transfer_frame:
  "live (transfer v1 dest src s1 n m1) = live m1"
  "next_block (transfer v1 dest src s1 n m1) = next_block m1"
  "allocations (transfer v1 dest src s1 n m1) = allocations m1"
  "length (blocks (transfer v1 dest src s1 n m1) b) = length (blocks m1 b)"
  "assignments (transfer v1 dest src s1 n m1) = assignments m1 + min s1 n"
  "constructions (transfer v1 dest src s1 n m1) = constructions m1 + (n - s1)"
  by (simp_all add: transfer_def destroy_range_frame range_lengths construct_range_counters
      assign_range_counters min_def)

lemma transfer_values:
  assumes lv: "live m1 d" and s1: "s1 \<le> length (blocks m1 d)" and n: "n \<le> length (blocks m1 d)"
    and src: "case src of Nullptr \<Rightarrow> True | Ptr s o' \<Rightarrow> s \<noteq> d"
    and k: "k < n"
  shows "read_slot (transfer v1 (Ptr d 0) src s1 n m1) (Ptr d k) = read_slot m1 (ptr_add src k)"
proof (cases "n > s1")
  case True
  let ?m2 = "assign_range (Ptr d 0) src 0 s1 m1"
  have b2: "blocks ?m2 = (blocks m1)(d := map (\<lambda>k. if 0 \<le> k \<and> k < s1 then read_slot m1 (ptr_add src k)
                                     else blocks m1 d ! k) [0..<length (blocks m1 d)])"
    and l2: "live ?m2 = live m1"
    using assign_range_blocks[OF lv s1 src, of 0] by simp_all
  have lv2: "live ?m2 d" using lv l2 by simp
  have len2: "length (blocks ?m2 d) = length (blocks m1 d)" by (simp add: b2)
  have n2: "n \<le> length (blocks ?m2 d)" using n len2 by simp
  have rd: "read_slot ?m2 (ptr_add src j) = read_slot m1 (ptr_add src j)" for j
  proof (rule read_slot_same)
    have other: "\<And>b. b \<noteq> d \<Longrightarrow> blocks ?m2 b = blocks m1 b"
      by (simp add: b2)
    show "case ptr_add src j of Nullptr \<Rightarrow> True | Ptr s i \<Rightarrow> blocks ?m2 s = blocks m1 s"
      using src other by (cases src) auto
  qed
  have b3: "blocks (construct_range (Ptr d 0) src s1 n ?m2) =
      (blocks ?m2)(d := map (\<lambda>k. if s1 \<le> k \<and> k < n then read_slot ?m2 (ptr_add src k)
                                     else blocks ?m2 d ! k) [0..<length (blocks ?m2 d)])"
    using construct_range_blocks(1)[OF lv2 n2 src, of s1] by simp
  have "read_slot (construct_range (Ptr d 0) src s1 n ?m2) (Ptr d k) = read_slot m1 (ptr_add src k)"
    using k n s1 by (simp add: read_slot_Ptr b3 len2 rd) (simp add: b2)
  then show ?thesis using True by (simp add: transfer_def)
next
  case False
  let ?m2 = "assign_range (Ptr d 0) src 0 n m1"
  have b2: "blocks ?m2 = (blocks m1)(d := map (\<lambda>k. if 0 \<le> k \<and> k < n then read_slot m1 (ptr_add src k)
                                     else blocks m1 d ! k) [0..<length (blocks m1 d)])"
    using assign_range_blocks[OF lv n src, of 0] by simp_all
  have "read_slot (destroy_range v1 (Ptr d 0) n s1 ?m2) (Ptr d k) = read_slot ?m2 (Ptr d k)"
    using k by (simp add: read_slot_Ptr destroy_range_frame destroy_range_below)
  also have "\<dots> = read_slot m1 (ptr_add src k)"
    using k n by (simp add: read_slot_Ptr b2)
  finally show ?thesis using False by (simp add: transfer_def)
qed


lemma take_elements_transfer:
  "take_elements v src n m =
     bind (reserve v n m) (\<lambda>(v1, m1).
       Returned (set_size v1 n, transfer v1 (data v1) src (size_vec v1) n m1))"
  by (simp add: take_elements_def transfer_def Let_def)

lemma copy_elements_take: "copy_elements v src n m = take_elements v src n m"
  by (simp add: take_elements_def copy_elements_def)

lemma well_formed_block:
  assumes "well_formed v m"
  shows "data v = Nullptr \<and> size_vec v = 0 \<and> capacity v = 0 \<or>
         (\<exists>d. data v = Ptr d 0 \<and> d < next_block m \<and> live m d \<and>
              capacity v \<le> length (blocks m d))"
proof (cases "can_allocate (Alloc v)")
  case True
  then show ?thesis using wf_data_block[OF assms] by auto
next
  case False
  then show ?thesis
    using assms
    by (cases "Alloc v") (auto simp: well_formed_def data_def capacity_def buffered_allocate_def)
qed

lemma well_formed_transfer [simp]:
  "well_formed v (transfer v1 dest src s1 n m) = well_formed v m"
  by (rule well_formed_cong) (simp_all add: transfer_frame)

lemma reserve_for_transfer:
  assumes wf: "well_formed v m" and ap: "apart src v m"
    and room: "can_allocate (Alloc v) \<or> n \<le> buffer_capacity (Alloc v)"
    and r: "reserve v n m = Returned (v1, m1)"
  shows "well_formed v1 m1 \<and> size_vec v1 = size_vec v \<and> Alloc v1 = Alloc v \<and>
         m_alloc v1 = m_alloc v \<and> n \<le> capacity v1 \<and>
         (\<forall>k. read_slot m1 (ptr_add src k) = read_slot m (ptr_add src k)) \<and>
         (case src of Nullptr \<Rightarrow> True
          | Ptr s i \<Rightarrow> (case data v1 of Nullptr \<Rightarrow> True | Ptr b j \<Rightarrow> s \<noteq> b)) \<and>
         constructions m1 = constructions m + (if capacity v < n then size_vec v else 0) \<and>
         assignments m1 = assignments m \<and> allocations m1 = allocations m +
           (if capacity v < n \<and> buffer_capacity (Alloc v) < n then 1 else 0)"
proof (cases "n \<le> capacity v")
  case True
  then have "v1 = v" "m1 = m" using r by (simp_all add: reserve_def)
  then show ?thesis
    using wf ap True by (auto simp: apart_def split: ptr.splits)
next
  case False
  then have gt: "capacity v < n" by simp
  have ca: "can_allocate (Alloc v)"
    using room False by (cases "can_allocate (Alloc v)") (auto simp: capacity_def)
  from reserve_grow_frame[OF wf ca gt r] obtain d where
    d: "data v1 = Ptr d 0"
    and k: "d = next_block m \<or> (\<exists>SZ b. Alloc v = Buffered SZ b \<and> d = m_data (m_alloc v))"
    and other: "\<forall>b. b \<noteq> d \<longrightarrow> blocks m1 b = blocks m b"
    and c: "constructions m1 = constructions m + size_vec v" "assignments m1 = assignments m"
    by blast
  have sd: "case src of Nullptr \<Rightarrow> True | Ptr s i \<Rightarrow> s \<noteq> d"
    using ap k by (auto simp: apart_def split: ptr.splits)
  have rd: "read_slot m1 (ptr_add src j) = read_slot m (ptr_add src j)" for j
    by (rule read_slot_same) (use sd other in \<open>cases src; auto\<close>)
  from reserve_grow[OF wf ca gt r] have
    "well_formed v1 m1" "size_vec v1 = size_vec v" "Alloc v1 = Alloc v" "m_alloc v1 = m_alloc v"
    "n \<le> capacity v1"
    "allocations m1 = allocations m + (if n \<le> buffer_capacity (Alloc v) then 0 else 1)"
    by blast+
  then show ?thesis
    using rd sd d c gt by (auto split: ptr.splits)
qed

lemma take_elements_spec:
  assumes wf: "well_formed v m" and ap: "apart src v m"
    and room: "can_allocate (Alloc v) \<or> n \<le> buffer_capacity (Alloc v)"
    and r: "take_elements v src n m = Returned (v', m')"
  shows "size_vec v' = n \<and> elements v' m' = map (\<lambda>k. read_slot m (ptr_add src k)) [0..<n] \<and>
         well_formed v' m' \<and> Alloc v' = Alloc v \<and> m_alloc v' = m_alloc v \<and>
         assignments m' = assignments m + min (size_vec v) n \<and>
         constructions m' = constructions m + (n - size_vec v) +
            (if capacity v < n then size_vec v else 0) \<and>
         allocations m' = allocations m +
           (if capacity v < n \<and> buffer_capacity (Alloc v) < n then 1 else 0) \<and>
         (case src of Nullptr \<Rightarrow> True
          | Ptr s i \<Rightarrow> (case data v' of Nullptr \<Rightarrow> True | Ptr b j \<Rightarrow> s \<noteq> b))"
proof -
  from r obtain v1 m1 where rs: "reserve v n m = Returned (v1, m1)"
    and v': "v' = set_size v1 n"
    and m': "m' = transfer v1 (data v1) src (size_vec v1) n m1"
    by (auto simp: take_elements_transfer bind_Returned)
  from reserve_for_transfer[OF wf ap room rs] have
    wf1: "well_formed v1 m1" and s1: "size_vec v1 = size_vec v" and A1: "Alloc v1 = Alloc v"
    and al1: "m_alloc v1 = m_alloc v" and n1: "n \<le> capacity v1"
    and rd: "\<And>k. read_slot m1 (ptr_add src k) = read_slot m (ptr_add src k)"
    and sd: "case src of Nullptr \<Rightarrow> True
          | Ptr s i \<Rightarrow> (case data v1 of Nullptr \<Rightarrow> True | Ptr b j \<Rightarrow> s \<noteq> b)"
    and c1: "constructions m1 = constructions m + (if capacity v < n then size_vec v else 0)"
      "assignments m1 = assignments m"
      "allocations m1 = allocations m +
           (if capacity v < n \<and> buffer_capacity (Alloc v) < n then 1 else 0)"
    by simp_all
  have sz': "size_vec v' = n" unfolding v' by (rule size_set_size[OF wf1 n1])
  have wf': "well_formed v' m'"
    unfolding v' m' using well_formed_set_size[OF wf1 n1] by simp
  have d': "data v' = data v1" by (simp add: v')
  have cnt: "assignments m' = assignments m + min (size_vec v) n"
    "constructions m' = constructions m + (n - size_vec v) +
            (if capacity v < n then size_vec v else 0)"
    "allocations m' = allocations m +
           (if capacity v < n \<and> buffer_capacity (Alloc v) < n then 1 else 0)"
    by (simp_all add: m' transfer_frame c1 s1)
  have el: "elements v' m' = map (\<lambda>k. read_slot m (ptr_add src k)) [0..<n]"
  proof -
    from well_formed_block[OF wf1] show ?thesis
    proof (elim disjE exE conjE)
      assume "capacity v1 = 0"
      then have "n = 0" using n1 by simp
      then show ?thesis using sz' by (simp add: elements_def)
    next
      fix d
      assume d: "data v1 = Ptr d 0" and lv: "live m1 d"
        and cap: "capacity v1 \<le> length (blocks m1 d)"
      have sl: "size_vec v1 \<le> length (blocks m1 d)"
        using well_formed_capacity[OF wf1] cap by simp
      have nl: "n \<le> length (blocks m1 d)" using n1 cap by simp
      have sd': "case src of Nullptr \<Rightarrow> True | Ptr s o' \<Rightarrow> s \<noteq> d"
        using sd d by (simp split: ptr.splits)
      have "read_slot m' (ptr_add (data v') k) = read_slot m (ptr_add src k)" if "k < n" for k
        using transfer_values[OF lv sl nl sd' that, of v1] by (simp add: d' d m' rd)
      then show ?thesis by (simp add: elements_def sz')
    qed
  qed
  have sd': "case src of Nullptr \<Rightarrow> True
          | Ptr s i \<Rightarrow> (case data v' of Nullptr \<Rightarrow> True | Ptr b j \<Rightarrow> s \<noteq> b)"
    unfolding d' by (rule sd)
  show ?thesis
    using sz' el wf' cnt A1 al1 sd' by (simp add: v')
qed

subsection \<open>Assignment into a static container\<close>

lemma can_allocate_backing: "can_allocate A = get_can_allocate (backing_allocator_of A)"
  by (cases A) simp_all

lemma static_move_assign:
  "\<not> can_allocate (Alloc this) \<Longrightarrow> move_assign this src m = take_and_clear this src m"
  by (auto simp: move_assign_def move_assign_eligible_def same_backing_can_allocate_def
      can_allocate_backing Let_def)

lemma static_take_elements_inv:
  assumes wf: "well_formed v m" and ca: "\<not> can_allocate (Alloc v)"
    and ok: "alloc_policy (backing_allocator_of (Alloc v)) \<noteq> Unchecked \<or>
             n \<le> buffer_capacity (Alloc v)"
    and r: "take_elements v src n m = Returned (v', m')"
  shows "well_formed v' m' \<and> Alloc v' = Alloc v \<and> size_vec v' = n \<and> size_invariant v'"
proof -
  have nh: "alloc_policy (backing_allocator_of (Alloc v)) \<noteq> Heap"
    using wf ca by (cases "Alloc v") (auto simp: well_formed_def)
  from r obtain v1 m1 where rs: "reserve v n m = Returned (v1, m1)"
    and v': "v' = set_size v1 n"
    and m': "m' = transfer v1 (data v1) src (size_vec v1) n m1"
    by (auto simp: take_elements_transfer bind_Returned)
  have n: "n \<le> buffer_capacity (Alloc v)"
    using rs ok nh unfolding reserve_static[OF wf ca]
    by (cases "alloc_policy (backing_allocator_of (Alloc v))") (auto split: if_splits)
  then have 1: "v1 = v" "m1 = m"
    using rs unfolding reserve_static[OF wf ca] by simp_all
  have nc: "n \<le> capacity v" using n ca by (simp add: capacity_def)
  show ?thesis
    using size_set_size[OF wf nc] well_formed_set_size[OF wf nc] n
    by (simp add: v' m' 1 size_invariant_def)
qed

lemma well_formed_assign_alloc [simp]: "well_formed (assign_alloc v src) m = well_formed v m"
  by (simp add: well_formed_def assign_alloc_def size_vec_def capacity_def
      split: alloc_type.split ptr.split)

lemma assign_alloc_frame [simp]:
  "Alloc (assign_alloc v src) = Alloc v" "m_begin (assign_alloc v src) = m_begin v"
  "m_end (assign_alloc v src) = m_end v" "m_capacity (assign_alloc v src) = m_capacity v"
  "m_size (assign_alloc v src) = m_size v" "size_vec (assign_alloc v src) = size_vec v"
  "capacity (assign_alloc v src) = capacity v"
  "m_data (m_alloc (assign_alloc v src)) = m_data (m_alloc v)"
  by (simp_all add: assign_alloc_def size_vec_def capacity_def)

lemma static_destroy_me:
  assumes wf: "well_formed v m" and ca: "\<not> can_allocate (Alloc v)"
  shows "well_formed (fst (destroy_me v m)) (snd (destroy_me v m)) \<and>
         Alloc (fst (destroy_me v m)) = Alloc v"
proof -
  obtain v1 m1 where c: "pop_until v 0 m = (v1, m1)" by (cases "pop_until v 0 m")
  from pop_until_spec[OF wf c] have wf1: "well_formed v1 m1" and A1: "Alloc v1 = Alloc v"
    by simp_all
  obtain SZ bk where A: "Alloc v = Buffered SZ bk"
    using wf ca by (cases "Alloc v") (auto simp: well_formed_def)
  have "alloc_deallocate (Alloc v1) (m_alloc v1) (data v1) (capacity v1) m1 = m1"
    using ca by (simp add: A1 A data_def)
  then show ?thesis
    using wf1 A1 by (simp add: destroy_me_def clear_def c)
qed

lemma static_facts:
  assumes "get_can_allocate b = False" "alloc_policy b \<noteq> Heap"
  shows "well_formed (static_full (Buffered 3 b)) sbo_three_memory"
    "well_formed (static_two (Buffered 3 b)) sbo_three_memory"
    "\<not> can_allocate (Alloc (static_full (Buffered 3 b)))"
    "\<not> can_allocate (Alloc (static_two (Buffered 3 b)))"
    "size_vec (static_full (Buffered 3 b)) = 3" "size_vec (static_two (Buffered 3 b)) = 2"
    "buffer_capacity (Alloc (static_full (Buffered 3 b))) = 3"
    "buffer_capacity (Alloc (static_two (Buffered 3 b))) = 3"
    "backing_allocator_of (Alloc (static_full (Buffered 3 b))) = b"
    "backing_allocator_of (Alloc (static_two (Buffered 3 b))) = b"
  using assms
  by (simp_all add: well_formed_def static_full_def static_two_def sbo_three_memory_def
      size_vec_def)

lemma sentinel_facts:
  "get_can_allocate throwing_allocator = False" "alloc_policy throwing_allocator = Throwing"
  "get_can_allocate terminating_allocator = False"
  "alloc_policy terminating_allocator = Terminating"
  "get_can_allocate unchecked_allocator = False" "alloc_policy unchecked_allocator = Unchecked"
  by (simp_all add: throwing_allocator_def terminating_allocator_def unchecked_allocator_def
      get_can_allocate_def)

subsection \<open>Clearing and tearing down\<close>

lemma blocks_alloc_destroy_block:
  "(case p of Nullptr \<Rightarrow> True | Ptr d i \<Rightarrow> b \<noteq> d) \<Longrightarrow>
     blocks (alloc_destroy A al p m) b = blocks m b"
  by (cases A; cases p) (auto simp: destroy_def Let_def blocks_write_slot)

lemma pop_back_frame:
  "data (fst (pop_back v m)) = data v"
  "Alloc (fst (pop_back v m)) = Alloc v"
  "constructions (snd (pop_back v m)) = constructions m"
  "assignments (snd (pop_back v m)) = assignments m"
  "allocations (snd (pop_back v m)) = allocations m"
  "live (snd (pop_back v m)) = live m"
  "next_block (snd (pop_back v m)) = next_block m"
  "(case data v of Nullptr \<Rightarrow> True | Ptr d i \<Rightarrow> b \<noteq> d) \<Longrightarrow>
     blocks (snd (pop_back v m)) b = blocks m b"
  by (simp_all add: pop_back_def Let_def)
    (cases "data v"; simp add: end_ptr_def blocks_alloc_destroy_block)

lemma pop_until_frame:
  assumes "pop_until v n m = (v', m')"
  shows "size_vec v' \<le> n \<and> data v' = data v \<and> Alloc v' = Alloc v \<and>
    constructions m' = constructions m \<and> assignments m' = assignments m \<and>
    allocations m' = allocations m \<and> live m' = live m \<and> next_block m' = next_block m \<and>
    (\<forall>b. (case data v of Nullptr \<Rightarrow> True | Ptr d i \<Rightarrow> b \<noteq> d) \<longrightarrow> blocks m' b = blocks m b)"
  using assms
proof (induction v n m rule: pop_until.induct)
  case (1 v sz m)
  show ?case
  proof (cases "sz < size_vec v")
    case True
    then have eq: "pop_until (fst (pop_back v m)) sz (snd (pop_back v m)) = (v', m')"
      using "1.prems" by (subst (asm) pop_until.simps) simp
    from "1.IH"[OF True eq] show ?thesis
      by (simp add: pop_back_frame)
  next
    case False
    then have "(v, m) = (v', m')" using "1.prems" by (subst (asm) pop_until.simps) simp
    then show ?thesis using False by auto
  qed
qed

lemma size_clear: "size_vec (fst (clear v m)) = 0"
proof -
  obtain v' m' where c: "pop_until v 0 m = (v', m')" by (cases "pop_until v 0 m")
  from pop_until_frame[OF c] show ?thesis by (simp add: clear_def c)
qed

lemma destroy_me_spec:
  assumes wf: "well_formed v m" and ca: "can_allocate (Alloc v)"
  shows "size_vec (fst (destroy_me v m)) = 0 \<and> m_begin (fst (destroy_me v m)) = m_begin v \<and>
         m_capacity (fst (destroy_me v m)) = m_capacity v \<and>
         Alloc (fst (destroy_me v m)) = Alloc v \<and> m_alloc (fst (destroy_me v m)) = m_alloc v \<and>
         allocations (snd (destroy_me v m)) = allocations m \<and>
         (\<forall>b. m_begin v = Ptr b 0 \<and>
              (case Alloc v of Plain _ \<Rightarrow> True | Buffered _ _ \<Rightarrow> b \<noteq> m_data (m_alloc v))
              \<longrightarrow> \<not> live (snd (destroy_me v m)) b)"
proof -
  obtain v1 m1 where c: "pop_until v 0 m = (v1, m1)" by (cases "pop_until v 0 m")
  from pop_until_spec[OF wf c] have
    f: "size_vec v1 = 0" "Alloc v1 = Alloc v" "m_alloc v1 = m_alloc v" "m_begin v1 = m_begin v"
      "m_capacity v1 = m_capacity v" "allocations m1 = allocations m"
    by simp_all
  have pol: "alloc_policy (backing_allocator_of (Alloc v)) = Heap"
    using wf ca by (simp add: well_formed_def)
  have d1: "data v1 = m_begin v" using ca f by (simp add: data_def)
  have dm: "destroy_me v m =
      (v1, alloc_deallocate (Alloc v) (m_alloc v) (m_begin v) (capacity v1) m1)"
    by (simp add: destroy_me_def clear_def c f d1)
  show ?thesis
    unfolding dm using f pol
    by (auto simp: live_alloc_deallocate split: alloc_type.splits)
qed

lemma pool_facts:
  "well_formed pool_four sbo_four_memory" "can_allocate (Alloc pool_four)"
  "backing_allocator_of (Alloc pool_four) = backing_allocator_of (Alloc pool_three)"
  "pocca (backing_allocator_of (Alloc pool_four))"
  "\<not> is_always_equal (backing_allocator_of (Alloc pool_four))"
  "\<not> alloc_eq pool_four pool_three"
  "size_vec pool_three = 3" "capacity pool_four = 4" "m_begin pool_four = Ptr 1 0"
  "data pool_four = Ptr 1 0" "allocations sbo_four_memory = 1"
  "Alloc pool_four = Plain propagating_allocator"
  by (simp_all add: well_formed_def pool_four_def pool_three_def sbo_four_memory_def
      propagating_allocator_def get_can_allocate_def alloc_eq_def size_vec_def capacity_def
      data_def sbo_vector_def)

subsection \<open>Moving and copying between containers\<close>

lemma elements_frame:
  assumes "\<And>b i. data v = Ptr b i \<Longrightarrow> blocks m' b = blocks m b"
  shows "elements v m' = elements v m"
proof -
  have "read_slot m' (ptr_add (data v) k) = read_slot m (ptr_add (data v) k)" for k
    by (rule read_slot_same) (use assms in \<open>cases "data v"; simp\<close>)
  then show ?thesis by (simp add: elements_def)
qed

lemma take_and_clear_Returned:
  "take_and_clear this src m = Returned ((d', s'), m') \<longleftrightarrow>
     (\<exists>m1. take_elements this (data src) (size_vec src) m = Returned (d', m1) \<and>
           clear src m1 = (s', m'))"
  by (auto simp: take_and_clear_def bind_Returned Let_def case_prod_beta prod_eq_iff)

lemma take_and_clear_spec:
  assumes wf: "well_formed this m" and ap: "apart (data src) this m"
    and room: "can_allocate (Alloc this) \<or> size_vec src \<le> buffer_capacity (Alloc this)"
    and r: "take_and_clear this src m = Returned ((d', s'), m')"
  shows "size_vec s' = 0 \<and> size_vec d' = size_vec src \<and> elements d' m' = elements src m \<and>
         Alloc d' = Alloc this \<and>
         assignments m' = assignments m + min (size_vec this) (size_vec src) \<and>
         constructions m' = constructions m + (size_vec src - size_vec this) +
            (if capacity this < size_vec src then size_vec this else 0)"
proof -
  from r obtain m1 where t: "take_elements this (data src) (size_vec src) m = Returned (d', m1)"
    and c: "clear src m1 = (s', m')"
    by (auto simp: take_and_clear_Returned)
  note ts = take_elements_spec[OF wf ap room t]
  have c': "pop_until src 0 m1 = (s', m')" using c by (simp add: clear_def)
  note pf = pop_until_frame[OF c']
  have sep: "case data src of Nullptr \<Rightarrow> True
          | Ptr s i \<Rightarrow> (case data d' of Nullptr \<Rightarrow> True | Ptr b j \<Rightarrow> s \<noteq> b)"
    using ts by blast
  have "blocks m' b = blocks m1 b" if "data d' = Ptr b i" for b i
  proof -
    have "case data src of Nullptr \<Rightarrow> True | Ptr d i \<Rightarrow> b \<noteq> d"
      using sep that by (cases "data src") auto
    then show ?thesis using pf by blast
  qed
  then have "elements d' m' = elements d' m1" by (rule elements_frame)
  moreover have "elements d' m1 = map (\<lambda>k. read_slot m (ptr_add (data src) k)) [0..<size_vec src]"
    using ts by blast
  moreover have "elements src m = map (\<lambda>k. read_slot m (ptr_add (data src) k)) [0..<size_vec src]"
    by (simp add: elements_def)
  ultimately show ?thesis
    using ts pf by simp
qed

lemma generic_path:
  assumes "backing_allocator_of D \<noteq> backing_allocator_of (Alloc src)"
  shows "move_ctor D al g src m = take_and_clear (uninitialised D al g) src m"
    and "Alloc this = D \<Longrightarrow> move_assign this src m = take_and_clear this src m"
    and "Alloc this = D \<Longrightarrow> copy_assign this src m = take_elements this (data src) (size_vec src) m"
  using assms
  by (simp_all add: move_ctor_def move_ctor_steals_def move_assign_def move_assign_eligible_def
      same_backing_can_allocate_def copy_assign_def copy_elements_take Let_def)

lemma move_source_empty:
  "move_ctor D al g src m = Returned ((d', s'), m') \<Longrightarrow> size_vec s' = 0"
  "move_assign this src m = Returned ((d', s'), m') \<Longrightarrow> size_vec s' = 0"
proof -
  have gen: "size_vec s' = 0" if "take_and_clear w src m = Returned ((d', s'), m')" for w
  proof -
    from that obtain m1 where "clear src m1 = (s', m')"
      by (auto simp: take_and_clear_Returned)
    then have "s' = fst (clear src m1)" by simp
    then show ?thesis by (simp add: size_clear)
  qed
  have st: "size_vec s' = 0" if "can_allocate (Alloc src)" "steal_storage w src = (d', s')" for w
    using that by (auto simp: steal_storage_def size_vec_def)
  show "size_vec s' = 0" if "move_ctor D al g src m = Returned ((d', s'), m')"
    using that gen st
    by (auto simp: move_ctor_def move_ctor_steals_def same_backing_can_allocate_def Let_def
        split: if_splits)
  show "size_vec s' = 0" if "move_assign this src m = Returned ((d', s'), m')"
    using that gen st
    by (auto simp: move_assign_def move_assign_eligible_def same_backing_can_allocate_def
        Let_def case_prod_beta split: if_splits)
qed

lemma sbo_five_facts:
  "Alloc sbo_five = sbo_vector 3 std_allocator" "capacity sbo_five = 6" "size_vec sbo_five = 5"
  "m_begin sbo_five = Ptr 2 0" "m_end sbo_five = Ptr 2 5" "m_capacity sbo_five = Ptr 2 6"
  "m_backingAllocator (m_alloc sbo_five) = 0"
  by (simp_all add: sbo_five_def capacity_def size_vec_def sbo_defs)

lemma sbo10_facts:
  "well_formed (uninitialised (sbo_vector 3 std_allocator) second_allocator 0) sbo10_memory"
  "apart (data sbo10_two) (uninitialised (sbo_vector 3 std_allocator) second_allocator 0) sbo10_memory"
  "can_allocate (Alloc (uninitialised (sbo_vector 3 std_allocator) second_allocator 0))"
  "size_vec sbo10_two = 2" "capacity sbo10_two = 10"
  "size_vec (uninitialised (sbo_vector 3 std_allocator) second_allocator 0) = 0"
  "same_backing_can_allocate (sbo_vector 3 std_allocator) (Alloc sbo10_two)"
  "buffer_capacity (sbo_vector 3 std_allocator) = 3" "buffer_capacity (Alloc sbo10_two) = 10"
  by (simp_all add: well_formed_def apart_def uninitialised_def sbo10_two_def sbo10_memory_def
      second_allocator_def sbo_defs size_vec_def capacity_def data_def
      same_backing_can_allocate_def)

lemma take_elements_returns:
  assumes wf: "well_formed v m"
    and fit: "if can_allocate (Alloc v) then n + slack (Alloc v) \<le> heap_free m
              else n \<le> buffer_capacity (Alloc v)"
  shows "\<exists>v' m'. take_elements v src n m = Returned (v', m')"
proof (cases "can_allocate (Alloc v)")
  case True
  with fit have "n + (case at_least_member (backing_allocator_of (Alloc v)) of
                        Some k \<Rightarrow> k | None \<Rightarrow> 0) \<le> heap_free m"
    by (simp add: slack_def)
  from reserve_returns[OF wf True this] show ?thesis
    by (auto simp: take_elements_transfer)
next
  case False
  then show ?thesis
    using fit by (simp add: take_elements_transfer reserve_static[OF wf False])
qed

lemma take_and_clear_returns:
  assumes "well_formed this m" "fits this src m"
  shows "\<exists>d' s' m'. take_and_clear this src m = Returned ((d', s'), m')"
proof -
  from take_elements_returns[OF assms(1), of "size_vec src" "data src"] assms(2)
  obtain d' m1 where "take_elements this (data src) (size_vec src) m = Returned (d', m1)"
    by (auto simp: fits_def)
  then have "take_and_clear this src m =
      Returned ((d', fst (clear src m1)), snd (clear src m1))"
    by (simp add: take_and_clear_Returned)
  then show ?thesis by blast
qed

lemma static_dest_facts:
  "static_full (static_vector_throw 3) =
     uninitialised (static_vector_throw 3) \<lparr>m_data = 0, m_backingAllocator = 0\<rparr> 3"
  "well_formed (static_full (static_vector_throw 3)) sbo_four_memory"
  "\<not> can_allocate (Alloc (static_full (static_vector_throw 3)))"
  "backing_allocator_of (Alloc (static_full (static_vector_throw 3))) \<noteq>
     backing_allocator_of (Alloc pool_two)"
  "backing_allocator_of (static_vector_throw 3) \<noteq> backing_allocator_of (Alloc pool_four)"
  "apart (data pool_two) (static_full (static_vector_throw 3)) sbo_four_memory"
  "size_vec pool_two = 2" "size_vec pool_four = 4"
  "buffer_capacity (Alloc (static_full (static_vector_throw 3))) = 3"
  "alloc_policy (backing_allocator_of (Alloc (static_full (static_vector_throw 3)))) = Throwing"
  "elements pool_two sbo_four_memory = [Some 1, Some 2]"
  "Alloc (static_full (static_vector_throw 3)) = static_vector_throw 3"
  by (simp_all add: static_full_def uninitialised_def static_vector_throw_def sbo_vector_def
      throwing_allocator_def propagating_allocator_def pool_two_def pool_four_def
      well_formed_def sbo_four_memory_def get_can_allocate_def apart_def data_def size_vec_def
      uint_holding_def buffered_allocate_def elements_def read_slot_def upt_rec)

lemma fresh_static_facts:
  "well_formed (uninitialised (static_vector_throw 3) \<lparr>m_data = 0, m_backingAllocator = 0\<rparr> 0)
     sbo_four_memory"
  "\<not> can_allocate (Alloc (uninitialised (static_vector_throw 3)
       \<lparr>m_data = 0, m_backingAllocator = 0\<rparr> 0))"
  "buffer_capacity (Alloc (uninitialised (static_vector_throw 3)
       \<lparr>m_data = 0, m_backingAllocator = 0\<rparr> 0)) = 3"
  "alloc_policy (backing_allocator_of (Alloc (uninitialised (static_vector_throw 3)
       \<lparr>m_data = 0, m_backingAllocator = 0\<rparr> 0))) = Throwing"
  by (simp_all add: uninitialised_def static_vector_throw_def sbo_vector_def
      throwing_allocator_def well_formed_def sbo_four_memory_def get_can_allocate_def)

subsection \<open>Destructor calls\<close>

lemma destroy_destructions: "destructions (destroy m p) = Suc (destructions m)"
  by (simp add: destroy_def Let_def write_slot_def split: ptr.splits)

lemma alloc_destroy_destructions:
  "destructions (alloc_destroy A al p m) =
     destructions m + (if (case A of Plain b \<Rightarrow> False | Buffered SZ b \<Rightarrow> p = buffered_allocate al 0)
                       then 0 else 1)"
  by (cases A) (simp_all add: destroy_destructions)

lemma destroy_range_destructions:
  "destructions (destroy_range v dest i j m) =
     destructions m + (j - i) -
       (if (case Alloc v of Plain b \<Rightarrow> False | Buffered SZ b \<Rightarrow> dest = buffered_allocate (m_alloc v) 0)
           \<and> i = 0 \<and> 0 < j then 1 else 0)"
proof (induction j arbitrary: m)
  case 0
  show ?case by (simp add: destroy_range_def)
next
  case (Suc j)
  show ?case
  proof (cases "i \<le> j")
    case True
    then have "destroy_range v dest i (Suc j) m =
        alloc_destroy (Alloc v) (m_alloc v) (ptr_add dest j) (destroy_range v dest i j m)"
      by (simp add: destroy_range_def)
    then show ?thesis
      using True Suc[of m]
      by (cases dest; cases "Alloc v")
        (auto simp: destroy_destructions buffered_allocate_def)
  next
    case False
    then show ?thesis by (simp add: destroy_range_def)
  qed
qed

lemma transfer_destructions:
  "destructions (transfer v1 (data v1) src (size_vec v1) n m1) =
     destructions m1 + (size_vec v1 - n) -
       (if on_inline_buffer v1 \<and> n = 0 \<and> 0 < size_vec v1 then 1 else 0)"
  by (simp add: transfer_def construct_range_counters assign_range_counters
      destroy_range_destructions on_inline_buffer_def)

lemma reserve_destructions:
  assumes "reserve v n m = Returned (v1, m1)"
  shows "destructions m1 = destructions m"
proof (cases "n \<le> capacity v")
  case True
  then show ?thesis using assms by (simp add: reserve_def)
next
  case False
  from assms False obtain res m0 where
    al: "allocate_at_least (Alloc v) (m_alloc v) n m = Returned (res, m0)"
    and m1: "destructions m1 = destructions m0"
    by (auto simp: reserve_def bind_Returned Let_def construct_range_counters split: if_splits)
  have "destructions m0 = destructions m"
    using al
    by (cases "Alloc v")
      (auto simp: buffered_allocate_at_least_def std_allocate_at_least_def allocate_def
        bind_Returned split: if_splits option.splits policy.splits)
  then show ?thesis using m1 by simp
qed

lemma take_elements_destructions:
  assumes wf: "well_formed v m" and r: "take_elements v src n m = Returned (v', m')"
  shows "destructions m' = destructions m + (size_vec v - n) -
           (if on_inline_buffer v \<and> n = 0 \<and> 0 < size_vec v then 1 else 0)"
proof -
  from r obtain v1 m1 where rs: "reserve v n m = Returned (v1, m1)"
    and m': "m' = transfer v1 (data v1) src (size_vec v1) n m1"
    by (auto simp: take_elements_transfer bind_Returned)
  have d1: "destructions m1 = destructions m" by (rule reserve_destructions[OF rs])
  show ?thesis
  proof (cases "n \<le> capacity v")
    case True
    then have "v1 = v" using rs by (simp add: reserve_def)
    then show ?thesis by (simp add: m' transfer_destructions d1)
  next
    case False
    then have gt: "size_vec v < n" using well_formed_capacity[OF wf] by simp
    have "size_vec v1 = size_vec v"
    proof (cases "can_allocate (Alloc v)")
      case True
      from reserve_grow[OF wf True _ rs] False show ?thesis by simp
    next
      case False
      then have "v1 = v" using rs by (auto simp: reserve_def bind_Returned split: if_splits)
      then show ?thesis by simp
    qed
    moreover have "destructions m' = destructions m1 + (size_vec v1 - n) -
       (if on_inline_buffer v1 \<and> n = 0 \<and> 0 < size_vec v1 then 1 else 0)"
      unfolding m' by (rule transfer_destructions)
    ultimately show ?thesis using gt by (simp add: d1)
  qed
qed

lemma on_inline_buffer_set_size [simp]:
  "on_inline_buffer (set_size v n) = on_inline_buffer v"
  by (simp add: on_inline_buffer_def split: alloc_type.split)

lemma pop_back_end:
  assumes wf: "well_formed v m0" and pos: "0 < size_vec v"
  shows "\<exists>d. data v = Ptr d 0 \<and>
           end_ptr (set_size v (size_vec v - Suc 0)) = Ptr d (size_vec v - Suc 0)"
proof -
  have le: "size_vec v - 1 \<le> capacity v" using well_formed_capacity[OF wf] by simp
  from well_formed_block[OF wf] pos obtain d where d: "data v = Ptr d 0" by auto
  then show ?thesis
    using size_set_size[OF wf le] by (simp add: end_ptr_def)
qed

lemma pop_back_destructions:
  assumes wf: "well_formed v m0" and pos: "0 < size_vec v"
  shows "destructions (snd (pop_back v m)) =
           destructions m + (if on_inline_buffer v \<and> size_vec v = 1 then 0 else 1)"
proof -
  from pop_back_end[OF wf pos] obtain d where d: "data v = Ptr d 0"
    and e: "end_ptr (set_size v (size_vec v - Suc 0)) = Ptr d (size_vec v - Suc 0)" by blast
  show ?thesis
    using pos d
    by (cases "Alloc v")
      (auto simp: pop_back_def Let_def e destroy_destructions on_inline_buffer_def
        buffered_allocate_def)
qed

lemma pop_until_destructions:
  assumes "well_formed v m0" "pop_until v n m = (v', m')"
  shows "destructions m' = destructions m + (size_vec v - n) -
           (if on_inline_buffer v \<and> n = 0 \<and> 0 < size_vec v then 1 else 0)"
  using assms
proof (induction v n m rule: pop_until.induct)
  case (1 v sz m)
  show ?case
  proof (cases "sz < size_vec v")
    case True
    then have pos: "0 < size_vec v" by simp
    have le: "size_vec v - 1 \<le> capacity v" using well_formed_capacity[OF "1.prems"(1)] by simp
    have f: "fst (pop_back v m) = set_size v (size_vec v - 1)"
      by (simp add: pop_back_def Let_def)
    have wf2: "well_formed (fst (pop_back v m)) m0"
      unfolding f by (rule well_formed_set_size[OF "1.prems"(1) le])
    have s2: "size_vec (fst (pop_back v m)) = size_vec v - 1"
      unfolding f by (rule size_set_size[OF "1.prems"(1) le])
    have o2: "on_inline_buffer (fst (pop_back v m)) = on_inline_buffer v"
      unfolding f by simp
    have eq: "pop_until (fst (pop_back v m)) sz (snd (pop_back v m)) = (v', m')"
      using "1.prems"(2) True by (subst (asm) pop_until.simps) simp
    from "1.IH"[OF True wf2 eq] pop_back_destructions[OF "1.prems"(1) pos, of m] True
    show ?thesis
      by (auto simp: s2 o2)
  next
    case False
    then have "(v, m) = (v', m')"
      using "1.prems"(2) by (subst (asm) pop_until.simps) simp
    then show ?thesis using False by auto
  qed
qed

lemma destroy_slot:
  assumes "live m d" "i < length (blocks m d)"
  shows "blocks (destroy m (Ptr d i)) d ! k = (if k = i then None else blocks m d ! k)"
  using assms by (simp add: destroy_def Let_def write_slot_def)

lemma alloc_destroy_slot:
  assumes "live m d" "i < length (blocks m d)"
  shows "blocks (alloc_destroy A al (Ptr d i) m) d ! k =
     (if k = i \<and> \<not> (case A of Plain b \<Rightarrow> False | Buffered SZ b \<Rightarrow> d = m_data al \<and> i = 0)
      then None else blocks m d ! k)"
proof (cases A)
  case (Plain b)
  then show ?thesis by (simp add: destroy_slot[OF assms])
next
  case (Buffered SZ b)
  show ?thesis
  proof (cases "d = m_data al \<and> i = 0")
    case True
    then show ?thesis using Buffered by (simp add: buffered_allocate_def)
  next
    case False
    then have "Ptr d i \<noteq> buffered_allocate al 0" by (auto simp: buffered_allocate_def)
    then show ?thesis using Buffered False by (simp add: destroy_slot[OF assms])
  qed
qed

lemma pop_back_slot:
  assumes wf: "well_formed v m" and pos: "0 < size_vec v" and d: "data v = Ptr d 0"
  shows "blocks (snd (pop_back v m)) d ! k =
     (if k = size_vec v - 1 \<and> \<not> (on_inline_buffer v \<and> k = 0) then None else blocks m d ! k)"
proof -
  from pop_back_end[OF wf pos] d
  have e: "end_ptr (set_size v (size_vec v - Suc 0)) = Ptr d (size_vec v - Suc 0)" by auto
  from well_formed_block[OF wf] d have lv: "live m d" and len: "capacity v \<le> length (blocks m d)"
    by auto
  have i: "size_vec v - Suc 0 < length (blocks m d)"
    using well_formed_capacity[OF wf] len pos by simp
  have sn: "snd (pop_back v m) = alloc_destroy (Alloc v) (m_alloc v) (Ptr d (size_vec v - Suc 0)) m"
    by (simp add: pop_back_def Let_def e)
  have o: "on_inline_buffer v =
      (case Alloc v of Plain b \<Rightarrow> False | Buffered SZ b \<Rightarrow> d = m_data (m_alloc v))"
    by (simp add: on_inline_buffer_def d buffered_allocate_def split: alloc_type.split)
  have c: "(case Alloc v of Plain b \<Rightarrow> False
          | Buffered SZ b \<Rightarrow> d = m_data (m_alloc v) \<and> size_vec v - Suc 0 = 0) =
        (on_inline_buffer v \<and> size_vec v = Suc 0)"
    unfolding o using pos by (cases "Alloc v") auto
  have main: "blocks (snd (pop_back v m)) d ! k =
     (if k = size_vec v - Suc 0 \<and> \<not> (on_inline_buffer v \<and> size_vec v = Suc 0)
      then None else blocks m d ! k)"
    unfolding sn alloc_destroy_slot[OF lv i] c ..
  show ?thesis
  proof (cases "k = size_vec v - Suc 0")
    case True
    then have "(k = 0) = (size_vec v = Suc 0)" using pos by arith
    then show ?thesis unfolding main using True by (simp only: One_nat_def)
  next
    case False
    then show ?thesis unfolding main by (simp only: One_nat_def if_False simp_thms)
  qed
qed

lemma pop_until_slots:
  assumes "well_formed v m" "pop_until v n m = (v', m')" "data v = Ptr d 0"
  shows "blocks m' d ! k =
     (if n \<le> k \<and> k < size_vec v \<and> \<not> (on_inline_buffer v \<and> k = 0) then None
      else blocks m d ! k)"
  using assms
proof (induction v n m rule: pop_until.induct)
  case (1 v sz m)
  show ?case
  proof (cases "sz < size_vec v")
    case True
    then have pos: "0 < size_vec v" by simp
    note pb = pop_back_spec[OF "1.prems"(1) pos]
    have wf2: "well_formed (fst (pop_back v m)) (snd (pop_back v m))" using pb by simp
    have s2: "size_vec (fst (pop_back v m)) = size_vec v - 1" using pb by simp
    have f: "fst (pop_back v m) = set_size v (size_vec v - 1)"
      by (simp add: pop_back_def Let_def)
    have o2: "on_inline_buffer (fst (pop_back v m)) = on_inline_buffer v"
      unfolding f by simp
    have d2: "data (fst (pop_back v m)) = Ptr d 0"
      unfolding f using "1.prems"(3) by simp
    have eq: "pop_until (fst (pop_back v m)) sz (snd (pop_back v m)) = (v', m')"
      using "1.prems"(2) True by (subst (asm) pop_until.simps) simp
    from "1.IH"[OF True wf2 eq d2] pop_back_slot[OF "1.prems"(1) pos "1.prems"(3), of k] True
    show ?thesis
      by (auto simp: s2 o2)
  next
    case False
    then have "(v, m) = (v', m')"
      using "1.prems"(2) by (subst (asm) pop_until.simps) simp
    then show ?thesis using False by auto
  qed
qed


lemma destroy_me_destroys:
  assumes wf: "well_formed v m"
  shows "destructions (snd (destroy_me v m)) =
           destructions m + size_vec v - (if on_inline_buffer v \<and> 0 < size_vec v then 1 else 0)"
    and "data v = Ptr d 0 \<Longrightarrow> blocks (snd (destroy_me v m)) d ! k =
           (if k < size_vec v \<and> \<not> (on_inline_buffer v \<and> k = 0) then None else blocks m d ! k)"
proof -
  obtain v1 m1 where c: "pop_until v 0 m = (v1, m1)" by (cases "pop_until v 0 m")
  have dm: "snd (destroy_me v m) =
      alloc_deallocate (Alloc v1) (m_alloc v1) (data v1) (capacity v1) m1"
    by (simp add: destroy_me_def clear_def c)
  show "destructions (snd (destroy_me v m)) =
           destructions m + size_vec v - (if on_inline_buffer v \<and> 0 < size_vec v then 1 else 0)"
    unfolding dm using pop_until_destructions[OF wf c] by simp
  show "blocks (snd (destroy_me v m)) d ! k =
           (if k < size_vec v \<and> \<not> (on_inline_buffer v \<and> k = 0) then None else blocks m d ! k)"
    if "data v = Ptr d 0"
    unfolding dm using pop_until_slots[OF wf c that, of k] by simp
qed

lemma take_elements_surplus:
  assumes wf: "well_formed this m"
    and r: "take_elements this (data src) (size_vec src) m = Returned (d', m')"
    and k: "first_slot_kept this (size_vec src)"
  shows "surplus_destroyed this src m m' 0"
  using take_elements_destructions[OF wf r] k
  by (auto simp: surplus_destroyed_def first_slot_kept_def)

lemma take_and_clear_surplus:
  assumes wf: "well_formed this m" and wfs: "well_formed src m0"
    and r: "take_and_clear this src m = Returned ((d', s'), m')"
    and k: "first_slot_kept this (size_vec src)" and ks: "first_slot_kept src 0"
  shows "surplus_destroyed this src m m' (size_vec src)"
proof -
  from r obtain m1 where t: "take_elements this (data src) (size_vec src) m = Returned (d', m1)"
    and c: "clear src m1 = (s', m')"
    by (auto simp: take_and_clear_Returned)
  have c': "pop_until src 0 m1 = (s', m')" using c by (simp add: clear_def)
  have "destructions m1 = destructions m + (size_vec this - size_vec src)"
    using take_elements_surplus[OF wf t k] by (simp add: surplus_destroyed_def)
  moreover have "destructions m' = destructions m1 + size_vec src"
    using pop_until_destructions[OF wfs c'] ks by (auto simp: first_slot_kept_def)
  ultimately show ?thesis by (simp add: surplus_destroyed_def)
qed

subsection \<open>Claims\<close>



text \<open>
  C5. For a well-formed container whose allocator can allocate: \<open>reserve(n)\<close> with
  \<open>n \<le> capacity()\<close> changes nothing. With \<open>n > capacity()\<close>, whenever it returns, the
  size and the element values in order are unchanged, the capacity is at least \<open>n\<close>, the
  three pointers are the bounds of the block that \<open>allocate_at_least\<close> granted, and the
  old heap block is deallocated (deallocating the inline buffer is a no-op); and it does
  return when the heap has room for the request.
\<close>

theorem reserve_spec:
  assumes "well_formed v m" and "can_allocate (Alloc v)"
  shows "(n \<le> capacity v \<longrightarrow> reserve v n m = Returned (v, m)) \<and>
     (capacity v < n \<longrightarrow>
        (\<forall>v' m'. reserve v n m = Returned (v', m') \<longrightarrow>
           size_vec v' = size_vec v \<and> elements v' m' = elements v m \<and> n \<le> capacity v' \<and>
           (\<exists>res m1. allocate_at_least (Alloc v) (m_alloc v) n m = Returned (res, m1) \<and>
              m_begin v' = ptr res \<and> m_end v' = ptr_add (ptr res) (size_vec v) \<and>
              m_capacity v' = ptr_add (ptr res) (count res)) \<and>
           (\<forall>b. data v = Ptr b 0 \<and>
                (case Alloc v of Plain _ \<Rightarrow> True | Buffered _ _ \<Rightarrow> b \<noteq> m_data (m_alloc v))
                \<longrightarrow> \<not> live m' b)) \<and>
        (n + (case at_least_member (backing_allocator_of (Alloc v)) of Some k \<Rightarrow> k | None \<Rightarrow> 0)
           \<le> heap_free m \<longrightarrow> (\<exists>v' m'. reserve v n m = Returned (v', m'))))"
proof -
  have grow: "size_vec v' = size_vec v \<and> elements v' m' = elements v m \<and> n \<le> capacity v' \<and>
           (\<exists>res m1. allocate_at_least (Alloc v) (m_alloc v) n m = Returned (res, m1) \<and>
              m_begin v' = ptr res \<and> m_end v' = ptr_add (ptr res) (size_vec v) \<and>
              m_capacity v' = ptr_add (ptr res) (count res)) \<and>
           (\<forall>b. data v = Ptr b 0 \<and>
                (case Alloc v of Plain _ \<Rightarrow> True | Buffered _ _ \<Rightarrow> b \<noteq> m_data (m_alloc v))
                \<longrightarrow> \<not> live m' b)"
    if "capacity v < n" "reserve v n m = Returned (v', m')" for v' m'
    using reserve_grow[OF assms that] by blast
  show ?thesis
    using grow reserve_noop[of n v m] reserve_returns[OF assms, of n] by blast
qed

theorem reserve_spec_witness:
  "well_formed sbo_three sbo_three_memory \<and> can_allocate (Alloc sbo_three) \<and>
   capacity sbo_three < 4 \<and>
   reserve sbo_three 3 sbo_three_memory = Returned (sbo_three, sbo_three_memory) \<and>
   (\<exists>v' m'. reserve sbo_three 4 sbo_three_memory = Returned (v', m') \<and> size_vec v' = 3 \<and>
      elements v' m' = [Some 1, Some 2, Some 3] \<and> 4 \<le> capacity v')"
proof -
  have h1: "well_formed sbo_three sbo_three_memory"
    by (simp add: well_formed_def sbo_three_def sbo_three_memory_def sbo_vector_def
        std_allocator_def get_can_allocate_def capacity_def size_vec_def)
  have h2: "can_allocate (Alloc sbo_three)"
    by (simp add: sbo_three_def sbo_vector_def std_allocator_def get_can_allocate_def)
  have h4: "capacity sbo_three = 3" and h7: "size_vec sbo_three = 3"
    using h2 by (simp_all add: capacity_def size_vec_def) (simp_all add: sbo_three_def)
  have h5: "4 + (case at_least_member (backing_allocator_of (Alloc sbo_three)) of
                   Some k \<Rightarrow> k | None \<Rightarrow> 0) \<le> heap_free sbo_three_memory"
    by (simp add: sbo_three_def sbo_three_memory_def sbo_vector_def std_allocator_def)
  have h6: "elements sbo_three sbo_three_memory = [Some 1, Some 2, Some 3]"
    using h2 by (simp add: elements_def h7 data_def upt_rec read_slot_def)
      (simp add: sbo_three_def sbo_three_memory_def)
  note t = reserve_spec[OF h1 h2, of 4]
  from t h4 h5 obtain v' m' where r: "reserve sbo_three 4 sbo_three_memory = Returned (v', m')"
    by auto
  with t h4 have "size_vec v' = size_vec sbo_three \<and>
      elements v' m' = elements sbo_three sbo_three_memory \<and> 4 \<le> capacity v'"
    by auto
  moreover have "reserve sbo_three 3 sbo_three_memory = Returned (sbo_three, sbo_three_memory)"
    using reserve_spec[OF h1 h2, of 3] h4 by simp
  ultimately show ?thesis
    using h1 h2 h4 h6 h7 r by auto
qed

text \<open>
  C6. On a well-formed container that can allocate, or a static one with room left,
  \<open>push_back(x)\<close>, when it returns, increases \<open>size()\<close> by one, stores \<open>x\<close> at
  index old-size and leaves the elements before it unchanged; and it returns whenever the
  heap can grant what \<open>bump\<close> requests. Pushing 1, 2, 3, 4, 5 into the \<open>sbo_vector<int, 3>\<close>
  of the test: the first three pushes allocate nothing and leave capacity 3, the fourth
  allocates one heap block and leaves capacity at least 4, and the final elements are
  1, 2, 3, 4, 5 in order.
\<close>

theorem push_back_appends:
  "(well_formed v m \<and> (can_allocate (Alloc v) \<or> size_vec v < buffer_capacity (Alloc v)) \<and>
    push_back v x m = Returned (v', m') \<longrightarrow>
      size_vec v' = size_vec v + 1 \<and> elements v' m' ! size_vec v = Some x \<and>
      take (size_vec v) (elements v' m') = elements v m) \<and>
   (well_formed v m \<and> can_allocate (Alloc v) \<and> requested v + slack (Alloc v) \<le> heap_free m \<longrightarrow>
      (\<exists>v' m'. push_back v x m = Returned (v', m'))) \<and>
   after (push_all sbo_empty [1] sbo_empty_memory)
     (\<lambda>v m. size_vec v = 1 \<and> allocations m = 0 \<and> capacity v = 3) \<and>
   after (push_all sbo_empty [1, 2] sbo_empty_memory)
     (\<lambda>v m. size_vec v = 2 \<and> allocations m = 0 \<and> capacity v = 3) \<and>
   after (push_all sbo_empty [1, 2, 3] sbo_empty_memory)
     (\<lambda>v m. size_vec v = 3 \<and> allocations m = 0 \<and> capacity v = 3) \<and>
   after (push_all sbo_empty [1, 2, 3, 4] sbo_empty_memory)
     (\<lambda>v m. size_vec v = 4 \<and> allocations m = 1 \<and> 4 \<le> capacity v) \<and>
   after (push_all sbo_empty [1, 2, 3, 4, 5] sbo_empty_memory)
     (\<lambda>v m. size_vec v = 5 \<and>
        elements v m = [Some 1, Some 2, Some 3, Some 4, Some 5])"
proof -
  have len: "length (elements v m) = size_vec v"
    by (simp add: elements_def)
  have general: "size_vec v' = size_vec v + 1 \<and> elements v' m' ! size_vec v = Some x \<and>
      take (size_vec v) (elements v' m') = elements v m"
    if "well_formed v m" "can_allocate (Alloc v) \<or> size_vec v < buffer_capacity (Alloc v)"
      "push_back v x m = Returned (v', m')"
    using push_back_spec[OF that] len by (simp add: nth_append)
  have returns: "\<exists>v' m'. push_back v x m = Returned (v', m')"
    if "well_formed v m" "can_allocate (Alloc v)" "requested v + slack (Alloc v) \<le> heap_free m"
    using push_back_returns[OF that] .
  show ?thesis
    using general returns smoke_test_pushes by blast
qed

theorem push_back_appends_witness:
  "well_formed sbo_three sbo_three_memory \<and> can_allocate (Alloc sbo_three) \<and>
   requested sbo_three + slack (Alloc sbo_three) \<le> heap_free sbo_three_memory \<and>
   push_back sbo_three 4 sbo_three_memory = Returned (sbo_four, sbo_four_memory) \<and>
   size_vec sbo_four = size_vec sbo_three + 1 \<and>
   elements sbo_four sbo_four_memory ! size_vec sbo_three = Some 4 \<and>
   take (size_vec sbo_three) (elements sbo_four sbo_four_memory) =
     elements sbo_three sbo_three_memory"
  using push_back_appends[of sbo_three sbo_three_memory 4 sbo_four sbo_four_memory]
    sbo_three_facts(1,3,7,8,10) push_4
  by simp

text \<open>
  C8 as stated fails: the fourth push of the test reallocates from size 3 to a block of
  exactly 4 slots, and 4 is less than \<open>1.5 * 3\<close>.
\<close>

theorem growth_bound_counterexample:
  "push_back sbo_three 4 sbo_three_memory = Returned (sbo_four, sbo_four_memory) \<and>
   capacity sbo_three < size_vec sbo_three + 1 \<and>
   2 * capacity sbo_four < 3 * size_vec sbo_three"
  using push_4 sbo_three_facts(4,5)
  by (simp add: sbo_four_def capacity_def sbo_defs)

text \<open>
  C8, amended. When \<open>push_back\<close> on a well-formed container that can allocate returns,
  the capacity is at least \<open>max(neededSize, previousSize * 3 / 2)\<close> with the quotient
  rounded down, where \<open>neededSize = previousSize + 1\<close>, provided \<open>previousSize * 3\<close> does
  not wrap in \<open>size_t\<close>; in particular after every reallocation.
\<close>

theorem growth_bound:
  "well_formed v m \<and> can_allocate (Alloc v) \<and> size_vec v * 3 < 2 ^ 64 \<and>
   push_back v x m = Returned (v', m') \<longrightarrow>
     max (size_vec v + 1) (size_vec v * 3 div 2) \<le> capacity v'"
proof
  assume h: "well_formed v m \<and> can_allocate (Alloc v) \<and> size_vec v * 3 < 2 ^ 64 \<and>
   push_back v x m = Returned (v', m')"
  then have "max (size_vec v + 1) ((size_vec v * 3) mod 2 ^ 64 div 2) \<le> capacity v'"
    using push_back_spec[of v m x v' m'] by blast
  then show "max (size_vec v + 1) (size_vec v * 3 div 2) \<le> capacity v'"
    using h by simp
qed

theorem growth_bound_witness:
  "well_formed sbo_three sbo_three_memory \<and> can_allocate (Alloc sbo_three) \<and>
   size_vec sbo_three * 3 < 2 ^ 64 \<and>
   push_back sbo_three 4 sbo_three_memory = Returned (sbo_four, sbo_four_memory) \<and>
   max (size_vec sbo_three + 1) (size_vec sbo_three * 3 div 2) \<le> capacity sbo_four"
  using growth_bound[of sbo_three sbo_three_memory 4 sbo_four sbo_four_memory]
    sbo_three_facts(1,3,4) push_4
  by simp

text \<open>
  C3. With \<open>terminating_allocator\<close> as backing allocator the overflowing \<open>push_back\<close>
  calls \<open>terminate()\<close>, and with \<open>throwing_allocator\<close> it throws before anything is
  written. But the alias \<open>static_vector_terminate\<close> is declared over
  \<open>throwing_allocator\<close>: on a \<open>static_vector_terminate<int, 3>\<close> that holds three
  elements the fourth \<open>push_back\<close> throws \<open>bad_alloc\<close> where the claim has the process
  abort.
\<close>

theorem static_vector_terminate_raises:
  "push_back (static_full (static_vector_terminate 3)) 4 sbo_three_memory = Bad_alloc \<and>
   push_back (static_full (sbo_vector 3 terminating_allocator)) 4 sbo_three_memory = Terminated \<and>
   push_back (static_full (static_vector_throw 3)) 4 sbo_three_memory = Bad_alloc"
proof -
  have thr: "push_back (static_full (Buffered 3 throwing_allocator)) 4 sbo_three_memory = Bad_alloc"
    by (subst static_push_back_full) (simp_all add: static_facts sentinel_facts)
  have ter: "push_back (static_full (Buffered 3 terminating_allocator)) 4 sbo_three_memory
               = Terminated"
    by (subst static_push_back_full) (simp_all add: static_facts sentinel_facts)
  show ?thesis
    using thr ter
    by (simp add: static_vector_terminate_def static_vector_throw_def sbo_vector_def)
qed

text \<open>
  C7 as stated fails for the unchecked policy: on a full \<open>static_vector<int, 3>\<close> the
  fourth \<open>push_back\<close> returns with stored size 4 (its write lies past the inline buffer).
\<close>

theorem static_unchecked_overflow:
  "well_formed (static_full (static_vector 3)) sbo_three_memory \<and>
   size_invariant (static_full (static_vector 3)) \<and>
   push_back (static_full (static_vector 3)) 4 sbo_three_memory =
     Returned ((static_full (static_vector 3))\<lparr>m_size := 4\<rparr>,
               construct sbo_three_memory (Ptr 0 3) (Some 4)) \<and>
   \<not> size_invariant ((static_full (static_vector 3))\<lparr>m_size := 4\<rparr>)"
proof -
  let ?v = "static_full (Buffered 3 unchecked_allocator)"
  have "push_back ?v 4 sbo_three_memory =
      Returned (set_size ?v (size_vec ?v + 1), construct sbo_three_memory (end_ptr ?v) (Some 4))"
    by (subst static_push_back_full) (simp_all add: static_facts sentinel_facts)
  moreover have "set_size ?v (size_vec ?v + 1) = ?v\<lparr>m_size := 4\<rparr>"
    by (simp add: set_size_def static_facts sentinel_facts)
      (simp add: static_full_def uint_holding_def)
  moreover have "end_ptr ?v = Ptr 0 3"
    by (simp add: end_ptr_def data_def static_facts sentinel_facts buffered_allocate_def)
      (simp add: static_full_def)
  moreover have "\<not> size_invariant (?v\<lparr>m_size := 4\<rparr>)" "size_invariant ?v"
    by (simp_all add: size_invariant_def size_vec_def static_full_def sentinel_facts)
  ultimately show ?thesis
    by (simp add: static_vector_def sbo_vector_def static_facts sentinel_facts)
qed

text \<open>
  C7, amended. For a well-formed static container, every operation that returns leaves
  \<open>size \<le> bufferCapacity\<close>: always under the raising and the terminating policy, and
  under the unchecked policy whenever the operation does not ask for more than
  \<open>bufferCapacity\<close> elements (\<open>push_back\<close> below capacity, \<open>resize\<close> and assignment of
  at most \<open>bufferCapacity\<close> elements). \<open>reserve\<close> changes nothing; \<open>pop_back\<close> is taken
  on a non-empty container.
\<close>

theorem static_size_invariant:
  assumes wf: "well_formed v m" and ca: "\<not> can_allocate (Alloc v)"
  shows
   "(push_back v x m = Returned (v', m') \<and>
       (alloc_policy (backing_allocator_of (Alloc v)) \<noteq> Unchecked \<or>
        size_vec v < buffer_capacity (Alloc v)) \<longrightarrow> size_invariant v') \<and>
    (0 < size_vec v \<longrightarrow> size_invariant (fst (pop_back v m))) \<and>
    (reserve v n m = Returned (v', m') \<longrightarrow> v' = v \<and> m' = m) \<and>
    (resize fuel d v n m = Some (Returned (v', m')) \<and>
       (alloc_policy (backing_allocator_of (Alloc v)) \<noteq> Unchecked \<or>
        n \<le> buffer_capacity (Alloc v)) \<longrightarrow> size_invariant v') \<and>
    size_invariant (fst (clear v m)) \<and>
    (move_assign v src m = Returned ((v', src'), m') \<and>
       (alloc_policy (backing_allocator_of (Alloc v)) \<noteq> Unchecked \<or>
        size_vec src \<le> buffer_capacity (Alloc v)) \<longrightarrow> size_invariant v') \<and>
    (copy_assign v src m = Returned (v', m') \<and>
       (alloc_policy (backing_allocator_of (Alloc v)) \<noteq> Unchecked \<or>
        size_vec src \<le> buffer_capacity (Alloc v)) \<longrightarrow> size_invariant v')"
proof -
  have inv: "size_invariant w" if "well_formed w mw" "Alloc w = Alloc v" for w and mw :: "'a memory"
    using that ca by (simp add: well_formed_def size_invariant_def size_vec_def)
  have push: "size_invariant v'"
    if "push_back v x m = Returned (v', m')"
      "alloc_policy (backing_allocator_of (Alloc v)) \<noteq> Unchecked \<or>
        size_vec v < buffer_capacity (Alloc v)"
    using static_push_back_inv[OF wf ca that] inv by blast
  have pop: "size_invariant (fst (pop_back v m))" if "0 < size_vec v"
    using pop_back_spec[OF wf that] inv by blast
  have res: "v' = v \<and> m' = m" if "reserve v n m = Returned (v', m')"
    using that unfolding reserve_static[OF wf ca] by (auto split: if_splits policy.splits)
  have rsz: "size_invariant v'"
    if "resize fuel d v n m = Some (Returned (v', m'))"
      "alloc_policy (backing_allocator_of (Alloc v)) \<noteq> Unchecked \<or>
        n \<le> buffer_capacity (Alloc v)"
    using resize_static[OF wf ca that(2,1)] inv by blast
  have clr: "size_invariant (fst (clear v m))"
  proof -
    obtain v1 m1 where c: "pop_until v 0 m = (v1, m1)" by (cases "pop_until v 0 m")
    from pop_until_spec[OF wf c] inv[of v1 m1] show ?thesis by (simp add: clear_def c)
  qed
  have mv: "size_invariant v'"
    if r: "move_assign v src m = Returned ((v', src'), m')"
      and ok: "alloc_policy (backing_allocator_of (Alloc v)) \<noteq> Unchecked \<or>
        size_vec src \<le> buffer_capacity (Alloc v)"
  proof -
    from r obtain m1 where "take_elements v (data src) (size_vec src) m = Returned (v', m1)"
      unfolding static_move_assign[OF ca] take_and_clear_def
      by (auto simp: bind_Returned Let_def case_prod_beta)
    from static_take_elements_inv[OF wf ca ok this] show ?thesis by simp
  qed
  have cp: "size_invariant v'"
    if r: "copy_assign v src m = Returned (v', m')"
      and ok: "alloc_policy (backing_allocator_of (Alloc v)) \<noteq> Unchecked \<or>
        size_vec src \<le> buffer_capacity (Alloc v)"
  proof -
    define p where "p = (if \<not> is_always_equal (backing_allocator_of (Alloc v)) \<and> \<not> alloc_eq v src
                           then destroy_me v m else (v, m))"
    define q where "q = (if backing_allocator_of (Alloc v) = backing_allocator_of (Alloc src) \<and>
                            pocca (backing_allocator_of (Alloc v))
                         then (assign_alloc (fst p) src, snd p) else (v, m))"
    have wp: "well_formed (fst p) (snd p) \<and> Alloc (fst p) = Alloc v"
      using wf static_destroy_me[OF wf ca] by (simp add: p_def)
    have wq: "well_formed (fst q) (snd q) \<and> Alloc (fst q) = Alloc v"
      using wf wp by (simp add: q_def)
    have "copy_assign v src m = take_elements (fst q) (data src) (size_vec src) (snd q)"
      by (auto simp: copy_assign_def copy_elements_take Let_def case_prod_beta q_def p_def)
    with r wq obtain d1 m1 where t: "take_elements d1 (data src) (size_vec src) m1 = Returned (v', m')"
      and d1: "well_formed d1 m1" "Alloc d1 = Alloc v"
      by auto
    have ca1: "\<not> can_allocate (Alloc d1)" using ca d1 by simp
    from static_take_elements_inv[OF d1(1) ca1 _ t] ok d1(2) show ?thesis by simp
  qed
  show ?thesis
    using push pop res rsz clr mv cp by blast
qed


theorem static_size_invariant_witness:
  "well_formed (static_two (static_vector_throw 3)) sbo_three_memory \<and>
   \<not> can_allocate (Alloc (static_two (static_vector_throw 3))) \<and>
   push_back (static_two (static_vector_throw 3)) 9 sbo_three_memory =
     Returned ((static_two (static_vector_throw 3))\<lparr>m_size := 3\<rparr>,
               construct sbo_three_memory (Ptr 0 2) (Some 9)) \<and>
   alloc_policy (backing_allocator_of (Alloc (static_two (static_vector_throw 3)))) \<noteq> Unchecked \<and>
   size_invariant ((static_two (static_vector_throw 3))\<lparr>m_size := 3\<rparr>) \<and>
   0 < size_vec (static_two (static_vector_throw 3)) \<and>
   size_invariant (fst (pop_back (static_two (static_vector_throw 3)) sbo_three_memory)) \<and>
   size_invariant (fst (clear (static_two (static_vector_throw 3)) sbo_three_memory))"
proof -
  let ?v = "static_two (Buffered 3 throwing_allocator)"
  have A: "static_two (static_vector_throw 3) = ?v"
    by (simp add: static_vector_throw_def sbo_vector_def)
  have wf: "well_formed ?v sbo_three_memory" and ca: "\<not> can_allocate (Alloc ?v)"
    by (simp_all add: static_facts sentinel_facts)
  have pol: "alloc_policy (backing_allocator_of (Alloc ?v)) \<noteq> Unchecked"
    by (simp add: static_facts sentinel_facts)
  have pos: "0 < size_vec ?v"
    by (simp add: static_facts sentinel_facts)
  have "push_back ?v 9 sbo_three_memory =
      Returned (set_size ?v (size_vec ?v + 1), construct sbo_three_memory (end_ptr ?v) (Some 9))"
    by (simp add: push_back_def bump_def reserve_static[OF wf ca] Let_def)
      (simp add: static_facts sentinel_facts)
  moreover have "set_size ?v (size_vec ?v + 1) = ?v\<lparr>m_size := 3\<rparr>"
    by (simp add: set_size_def static_facts sentinel_facts)
      (simp add: static_two_def uint_holding_def)
  moreover have "end_ptr ?v = Ptr 0 2"
    by (simp add: end_ptr_def data_def static_facts sentinel_facts buffered_allocate_def)
      (simp add: static_two_def)
  ultimately have pb: "push_back ?v 9 sbo_three_memory =
      Returned (?v\<lparr>m_size := 3\<rparr>, construct sbo_three_memory (Ptr 0 2) (Some 9))"
    by simp
  from static_size_invariant[OF wf ca, where x = 9 and v' = "?v\<lparr>m_size := 3\<rparr>"
      and m' = "construct sbo_three_memory (Ptr 0 2) (Some 9)"] pb pol pos
  have "size_invariant (?v\<lparr>m_size := 3\<rparr>) \<and> size_invariant (fst (pop_back ?v sbo_three_memory)) \<and>
        size_invariant (fst (clear ?v sbo_three_memory))"
    by blast
  then show ?thesis
    unfolding A using wf ca pb pol pos by blast
qed

text \<open>
  C10. On a well-formed container that can allocate, \<open>destroy_me\<close> leaves size 0 and
  deallocates the heap block, but \<open>m_begin\<close> and \<open>m_capacity\<close> keep their values, so
  \<open>capacity()\<close> and \<open>data()\<close> still report the released block. In a propagating copy
  assignment between unequal allocators the copy after the tear-down therefore allocates
  nothing when the source has at most that many elements: it returns with the allocation
  count unchanged and the destination on the old, no longer live block. The elements are
  all destroyed, one destructor call each, when they sit in a heap block. When they sit in
  the inline buffer the element at index 0 is not destroyed: \<open>buffered_allocator::destroy\<close>
  (lines 127-130) skips the address \<open>allocate(0)\<close>, so one destructor call is missing and
  that slot still holds its element. For the \<open>sbo_vector<int, 3>\<close> of the test after three
  pushes, \<open>destroy_me\<close> makes two destructor calls for three elements.
\<close>

theorem teardown_keeps_pointers:
  assumes wf: "well_formed this m" and ca: "can_allocate (Alloc this)"
  shows "size_vec (fst (destroy_me this m)) = 0 \<and>
     destructions (snd (destroy_me this m)) =
       destructions m + size_vec this -
         (if on_inline_buffer this \<and> 0 < size_vec this then 1 else 0) \<and>
     (\<forall>d k. data this = Ptr d 0 \<and> k < size_vec this \<longrightarrow>
        blocks (snd (destroy_me this m)) d ! k =
          (if on_inline_buffer this \<and> k = 0 then blocks m d ! 0 else None)) \<and>
     m_begin (fst (destroy_me this m)) = m_begin this \<and>
     m_capacity (fst (destroy_me this m)) = m_capacity this \<and>
     capacity (fst (destroy_me this m)) = capacity this \<and>
     data (fst (destroy_me this m)) = data this \<and>
     (\<forall>b. m_begin this = Ptr b 0 \<and> \<not> on_inline_buffer this
          \<longrightarrow> \<not> live (snd (destroy_me this m)) b) \<and>
     (backing_allocator_of (Alloc this) = backing_allocator_of (Alloc src) \<and>
      pocca (backing_allocator_of (Alloc this)) \<and>
      \<not> is_always_equal (backing_allocator_of (Alloc this)) \<and> \<not> alloc_eq this src \<and>
      size_vec src \<le> capacity this \<longrightarrow>
        (\<exists>v' m'. copy_assign this src m = Returned (v', m') \<and> allocations m' = allocations m \<and>
           data v' = data this \<and> capacity v' = capacity this \<and> size_vec v' = size_vec src \<and>
           destructions m' = destructions (snd (destroy_me this m)) \<and>
           (\<forall>b. m_begin this = Ptr b 0 \<and> \<not> on_inline_buffer this \<longrightarrow> \<not> live m' b)))"
proof -
  let ?d = "fst (destroy_me this m)" and ?m1 = "snd (destroy_me this m)"
  note dm = destroy_me_spec[OF wf ca]
  have oi: "on_inline_buffer this =
      (case Alloc this of Plain b \<Rightarrow> False | Buffered SZ b \<Rightarrow> m_begin this = Ptr (m_data (m_alloc this)) 0)"
  proof -
    have "data this = m_begin this" using ca by (simp add: data_def)
    then show ?thesis
      by (cases "Alloc this") (simp_all add: on_inline_buffer_def buffered_allocate_def)
  qed
  have lv: "\<not> live ?m1 b" if "m_begin this = Ptr b 0" "\<not> on_inline_buffer this" for b
  proof -
    have "case Alloc this of Plain _ \<Rightarrow> True | Buffered _ _ \<Rightarrow> b \<noteq> m_data (m_alloc this)"
      using that unfolding oi by (cases "Alloc this") auto
    then show ?thesis using dm that(1) by blast
  qed
  have cap: "capacity ?d = capacity this" and dat: "data ?d = data this"
    using dm ca by (simp_all add: capacity_def data_def)
  have slots: "blocks ?m1 d ! k = (if on_inline_buffer this \<and> k = 0 then blocks m d ! 0 else None)"
    if "data this = Ptr d 0" "k < size_vec this" for d k
    using destroy_me_destroys(2)[OF wf that(1), of k] that(2) by auto
  have copy: "\<exists>v' m'. copy_assign this src m = Returned (v', m') \<and> allocations m' = allocations m \<and>
           data v' = data this \<and> capacity v' = capacity this \<and> size_vec v' = size_vec src \<and>
           destructions m' = destructions ?m1 \<and>
           (\<forall>b. m_begin this = Ptr b 0 \<and> \<not> on_inline_buffer this \<longrightarrow> \<not> live m' b)"
    if h: "backing_allocator_of (Alloc this) = backing_allocator_of (Alloc src)"
      "pocca (backing_allocator_of (Alloc this))"
      "\<not> is_always_equal (backing_allocator_of (Alloc this))" "\<not> alloc_eq this src"
      and le: "size_vec src \<le> capacity this"
  proof -
    let ?d1 = "assign_alloc ?d src"
    have ca1: "can_allocate (Alloc ?d1)" using ca dm by simp
    have c1: "capacity ?d1 = capacity this" using cap by simp
    have d1: "data ?d1 = data this" using dat ca ca1 by (simp add: data_def)
    have s1: "size_vec ?d1 = 0" using dm by simp
    have eq: "copy_assign this src m = take_elements ?d1 (data src) (size_vec src) ?m1"
      using h by (simp add: copy_assign_def copy_elements_take Let_def case_prod_beta)
    have rs: "reserve ?d1 (size_vec src) ?m1 = Returned (?d1, ?m1)"
      using le c1 by (simp add: reserve_def)
    have sz: "size_vec (set_size ?d1 (size_vec src)) = size_vec src"
    proof (cases "m_begin this")
      case Nullptr
      then have "capacity this = 0" using ca by (simp add: capacity_def)
      then show ?thesis using le ca1 dm Nullptr by (simp add: set_size_def size_vec_def)
    next
      case (Ptr b i)
      then show ?thesis using ca1 dm by (simp add: set_size_def size_vec_def)
    qed
    have ds: "destructions (transfer ?d1 (data ?d1) (data src) (size_vec ?d1) (size_vec src) ?m1) =
        destructions ?m1"
      using transfer_destructions[of ?d1 "data src" "size_vec src" ?m1] dm by simp
    show ?thesis
      unfolding eq take_elements_transfer rs
      using lv d1 c1 sz ds dm by (simp add: transfer_frame)
  qed
  show ?thesis
    using dm cap dat copy lv slots destroy_me_destroys(1)[OF wf] by blast
qed

theorem teardown_keeps_pointers_witness:
  "well_formed sbo_three sbo_three_memory \<and> can_allocate (Alloc sbo_three) \<and>
   on_inline_buffer sbo_three \<and> size_vec sbo_three = 3 \<and>
   destructions sbo_three_memory = 0 \<and>
   size_vec (fst (destroy_me sbo_three sbo_three_memory)) = 0 \<and>
   destructions (snd (destroy_me sbo_three sbo_three_memory)) = 2 \<and>
   blocks (snd (destroy_me sbo_three sbo_three_memory)) 0 ! 0 = Some 1 \<and>
   blocks (snd (destroy_me sbo_three sbo_three_memory)) 0 ! 1 = None \<and>
   blocks (snd (destroy_me sbo_three sbo_three_memory)) 0 ! 2 = None \<and>
   well_formed pool_four sbo_four_memory \<and> can_allocate (Alloc pool_four) \<and>
   \<not> on_inline_buffer pool_four \<and> size_vec pool_four = 4 \<and>
   backing_allocator_of (Alloc pool_four) = backing_allocator_of (Alloc pool_three) \<and>
   Alloc pool_four \<noteq> Alloc pool_three \<and>
   pocca (backing_allocator_of (Alloc pool_four)) \<and>
   \<not> is_always_equal (backing_allocator_of (Alloc pool_four)) \<and>
   \<not> alloc_eq pool_four pool_three \<and> size_vec pool_three \<le> capacity pool_four \<and>
   size_vec (fst (destroy_me pool_four sbo_four_memory)) = 0 \<and>
   destructions (snd (destroy_me pool_four sbo_four_memory)) = 4 \<and>
   capacity (fst (destroy_me pool_four sbo_four_memory)) = 4 \<and>
   data (fst (destroy_me pool_four sbo_four_memory)) = Ptr 1 0 \<and>
   \<not> live (snd (destroy_me pool_four sbo_four_memory)) 1 \<and>
   (\<exists>v' m'. copy_assign pool_four pool_three sbo_four_memory = Returned (v', m') \<and>
      allocations m' = 1 \<and> data v' = Ptr 1 0 \<and> capacity v' = 4 \<and> size_vec v' = 3 \<and>
      destructions m' = 4 \<and> \<not> live m' 1)"
proof -
  have f3: "on_inline_buffer sbo_three" "data sbo_three = Ptr 0 0"
    "destructions sbo_three_memory = 0" "blocks sbo_three_memory 0 ! 0 = Some 1"
    by (simp_all add: on_inline_buffer_def sbo_three_def sbo_three_memory_def data_def sbo_defs)
  note t3 = teardown_keeps_pointers[OF sbo_three_facts(1,3), of sbo_three]
  have a3: "size_vec (fst (destroy_me sbo_three sbo_three_memory)) = 0 \<and>
   destructions (snd (destroy_me sbo_three sbo_three_memory)) = 2"
    using t3 by (simp add: f3 sbo_three_facts(4))
  have sl: "blocks (snd (destroy_me sbo_three sbo_three_memory)) 0 ! k =
          (if on_inline_buffer sbo_three \<and> k = 0 then blocks sbo_three_memory 0 ! 0 else None)"
    if "k < 3" for k
    using t3 f3(2) that sbo_three_facts(4) by simp
  have b3: "blocks (snd (destroy_me sbo_three sbo_three_memory)) 0 ! 0 = Some 1 \<and>
   blocks (snd (destroy_me sbo_three sbo_three_memory)) 0 ! 1 = None \<and>
   blocks (snd (destroy_me sbo_three sbo_three_memory)) 0 ! 2 = None"
    using sl[of 0] sl[of 1] sl[of 2] by (simp add: f3)
  have f4: "\<not> on_inline_buffer pool_four" "size_vec pool_four = 4"
    "destructions sbo_four_memory = 0" "Alloc pool_four \<noteq> Alloc pool_three"
    by (simp_all add: on_inline_buffer_def pool_four_def pool_three_def sbo_four_memory_def
        size_vec_def propagating_allocator_def get_can_allocate_def sbo_vector_def)
  note t = teardown_keeps_pointers[OF pool_facts(1,2), of pool_three]
  have le: "size_vec pool_three \<le> capacity pool_four" by (simp add: pool_facts)
  have a: "size_vec (fst (destroy_me pool_four sbo_four_memory)) = 0 \<and>
   destructions (snd (destroy_me pool_four sbo_four_memory)) = 4 \<and>
   capacity (fst (destroy_me pool_four sbo_four_memory)) = 4 \<and>
   data (fst (destroy_me pool_four sbo_four_memory)) = Ptr 1 0 \<and>
   \<not> live (snd (destroy_me pool_four sbo_four_memory)) 1"
    using t by (simp add: pool_facts(8,9,10) f4)
  have "\<exists>v' m'. copy_assign pool_four pool_three sbo_four_memory = Returned (v', m') \<and>
           allocations m' = allocations sbo_four_memory \<and>
           data v' = data pool_four \<and> capacity v' = capacity pool_four \<and>
           size_vec v' = size_vec pool_three \<and>
           destructions m' = destructions (snd (destroy_me pool_four sbo_four_memory)) \<and>
           (\<forall>b. m_begin pool_four = Ptr b 0 \<and> \<not> on_inline_buffer pool_four \<longrightarrow> \<not> live m' b)"
    using t pool_facts(3,4,5,6) le by blast
  then have b: "\<exists>v' m'. copy_assign pool_four pool_three sbo_four_memory = Returned (v', m') \<and>
      allocations m' = 1 \<and> data v' = Ptr 1 0 \<and> capacity v' = 4 \<and> size_vec v' = 3 \<and>
      destructions m' = 4 \<and> \<not> live m' 1"
    using a by (simp add: pool_facts(7,8,9,10,11) f4)
  show ?thesis
    using a3 b3 a b le f3 f4 sbo_three_facts(1,3,4) pool_facts(1,2,3,4,5,6) by blast
qed

text \<open>
  C1 as stated fails: for a source \<open>sbo_vector<int, 10>\<close> whose two elements sit in its
  own inline buffer, moved into an \<open>sbo_vector<int, 3>\<close>, the allocators have the same
  backing identity, the source can allocate and its capacity 10 exceeds the
  destination's inline capacity 3, yet the constructor does not take the storage (it could
  not: the block is the source's inline buffer) but transfers the elements one by one.
\<close>

theorem move_ctor_steals_counterexample:
  "same_backing_can_allocate (sbo_vector 3 std_allocator) (Alloc sbo10_two) \<and>
   buffer_capacity (sbo_vector 3 std_allocator) < capacity sbo10_two \<and>
   move_ctor (sbo_vector 3 std_allocator) second_allocator 0 sbo10_two sbo10_memory \<noteq>
     Returned (steal_storage
        (assign_alloc (uninitialised (sbo_vector 3 std_allocator) second_allocator 0) sbo10_two)
        sbo10_two, sbo10_memory)"
proof -
  let ?dst = "uninitialised (sbo_vector 3 std_allocator) second_allocator 0"
  have eq: "move_ctor (sbo_vector 3 std_allocator) second_allocator 0 sbo10_two sbo10_memory =
      take_and_clear ?dst sbo10_two sbo10_memory"
    by (simp add: move_ctor_def move_ctor_steals_def sbo10_facts Let_def)
  have "take_and_clear ?dst sbo10_two sbo10_memory \<noteq> Returned ((d', s'), sbo10_memory)" for d' s'
  proof
    assume r: "take_and_clear ?dst sbo10_two sbo10_memory = Returned ((d', s'), sbo10_memory)"
    have "constructions sbo10_memory = constructions sbo10_memory + (2 - 0) +
            (if capacity ?dst < 2 then 0 else 0)"
      using take_and_clear_spec[OF sbo10_facts(1,2) _ r] sbo10_facts(3)
      by (simp add: sbo10_facts(4,6))
    then show False by simp
  qed
  then show ?thesis
    unfolding eq using sbo10_facts(5,7,8)
    by (cases "steal_storage (assign_alloc ?dst sbo10_two) sbo10_two") simp
qed

text \<open>
  C1, amended. The converting move constructor takes the constant-time path whenever the
  two allocators have the same backing identity, the source's allocator can allocate, the
  source's capacity exceeds the source's own inline capacity and the source's size exceeds
  the destination's inline capacity: the result is the store unchanged (no element is
  constructed, destroyed or assigned), the destination with the source's backing allocator
  instance and three pointers, and the source with three null pointers. It takes the
  generic path (\<open>take_elements\<close>, then \<open>clear\<close> of the source) whenever the identities
  differ, or the source cannot allocate, or neither comparison holds.
\<close>

theorem move_ctor_paths:
  "(same_backing_can_allocate D (Alloc src) \<and> buffer_capacity (Alloc src) < capacity src \<and>
    buffer_capacity D < size_vec src \<longrightarrow>
      (\<exists>d' s'. move_ctor D al g src m = Returned ((d', s'), m) \<and>
         m_begin d' = m_begin src \<and> m_end d' = m_end src \<and> m_capacity d' = m_capacity src \<and>
         m_backingAllocator (m_alloc d') = m_backingAllocator (m_alloc src) \<and>
         m_begin s' = Nullptr \<and> m_end s' = Nullptr \<and> m_capacity s' = Nullptr)) \<and>
   (\<not> same_backing_can_allocate D (Alloc src) \<or>
    (capacity src \<le> buffer_capacity (Alloc src) \<and> size_vec src \<le> buffer_capacity D) \<longrightarrow>
      move_ctor D al g src m = take_and_clear (uninitialised D al g) src m)"
  by (auto simp: move_ctor_def move_ctor_steals_def steal_storage_def assign_alloc_def Let_def)

theorem move_ctor_paths_witness:
  "same_backing_can_allocate (Plain std_allocator) (Alloc sbo_five) \<and>
   buffer_capacity (Alloc sbo_five) < capacity sbo_five \<and>
   buffer_capacity (Plain std_allocator) < size_vec sbo_five \<and>
   (\<exists>d' s'. move_ctor (Plain std_allocator) second_allocator 0 sbo_five sbo_five_memory
               = Returned ((d', s'), sbo_five_memory) \<and>
      m_begin d' = Ptr 2 0 \<and> m_end d' = Ptr 2 5 \<and> m_capacity d' = Ptr 2 6 \<and>
      m_begin s' = Nullptr \<and> m_end s' = Nullptr \<and> m_capacity s' = Nullptr) \<and>
   \<not> same_backing_can_allocate (static_vector 10) (Alloc sbo_five) \<and>
   move_ctor (static_vector 10) second_allocator 0 sbo_five sbo_five_memory =
     take_and_clear (uninitialised (static_vector 10) second_allocator 0) sbo_five sbo_five_memory"
proof -
  have h: "same_backing_can_allocate (Plain std_allocator) (Alloc sbo_five)"
    "buffer_capacity (Alloc sbo_five) < capacity sbo_five"
    "buffer_capacity (Plain std_allocator) < size_vec sbo_five"
    "\<not> same_backing_can_allocate (static_vector 10) (Alloc sbo_five)"
    by (simp_all add: sbo_five_facts(2,3))
      (simp_all add: sbo_five_def same_backing_can_allocate_def sbo_defs static_vector_def
        unchecked_allocator_def)
  from move_ctor_paths[of "Plain std_allocator" sbo_five second_allocator 0 sbo_five_memory]
    move_ctor_paths[of "static_vector 10" sbo_five second_allocator 0 sbo_five_memory] h
  show ?thesis
    by (auto simp: sbo_five_facts(4,5,6))
qed

text \<open>
  C4 as stated fails: moving a four-element container into a
  \<open>static_vector_throw<int, 3>\<close>, whose backing identity differs, produces no destination
  at all but throws \<open>bad_alloc\<close>.
\<close>

theorem fallback_overflow_counterexample:
  "backing_allocator_of (static_vector_throw 3) \<noteq> backing_allocator_of (Alloc pool_four) \<and>
   move_ctor (static_vector_throw 3) \<lparr>m_data = 0, m_backingAllocator = 0\<rparr> 0 pool_four
     sbo_four_memory = Bad_alloc"
proof -
  let ?dst = "uninitialised (static_vector_throw 3) \<lparr>m_data = 0, m_backingAllocator = 0\<rparr> 0"
  have "reserve ?dst (size_vec pool_four) sbo_four_memory = Bad_alloc"
    unfolding reserve_static[OF fresh_static_facts(1,2)]
    by (simp add: static_dest_facts(8) fresh_static_facts(3,4))
  then have "take_and_clear ?dst pool_four sbo_four_memory = Bad_alloc"
    by (simp add: take_and_clear_def take_elements_transfer)
  then show ?thesis
    using generic_path(1)[OF static_dest_facts(5), of "\<lparr>m_data = 0, m_backingAllocator = 0\<rparr>" 0
        sbo_four_memory]
    by (simp add: static_dest_facts(5))
qed

text \<open>
  C4, amended. Whenever a converting move construction or move assignment returns, the
  source's \<open>size()\<close> is 0. When the backing identities differ, the destination is
  well-formed, the source's storage lies apart from it, and the destination can allocate
  or its inline capacity is at least the source's size, then every move or copy that
  returns leaves in the destination the source's original element values in order,
  having assigned into the common prefix, constructed the remaining elements when
  growing, and destroyed the surplus when shrinking: one destructor call for each element
  the destination held beyond the new count, and in a move one more for each element of
  the well-formed source, which is cleared. The destructor calls are counted for ranges
  that leave out the first address of an inline buffer, that is, unless a non-empty
  container on its inline buffer is emptied. On an existing destination that can hold the
  elements (heap room, or inline capacity) the assignments do return.
\<close>

theorem fallback_transfer:
  "(move_ctor D al g src m = Returned ((d', s'), m') \<longrightarrow> size_vec s' = 0) \<and>
   (move_assign this src m = Returned ((d', s'), m') \<longrightarrow> size_vec s' = 0) \<and>
   (backing_allocator_of (Alloc this) \<noteq> backing_allocator_of (Alloc src) \<and>
    well_formed this m \<and> apart (data src) this m \<and>
    (can_allocate (Alloc this) \<or> size_vec src \<le> buffer_capacity (Alloc this)) \<longrightarrow>
      (move_assign this src m = Returned ((d', s'), m') \<longrightarrow>
         transferred this src m d' m' \<and>
         (first_slot_kept this (size_vec src) \<and> well_formed src m \<and> first_slot_kept src 0 \<longrightarrow>
            surplus_destroyed this src m m' (size_vec src))) \<and>
      (copy_assign this src m = Returned (d', m') \<longrightarrow>
         transferred this src m d' m' \<and>
         (first_slot_kept this (size_vec src) \<longrightarrow> surplus_destroyed this src m m' 0)) \<and>
      (this = uninitialised D al g \<longrightarrow>
         (move_ctor D al g src m = Returned ((d', s'), m') \<longrightarrow>
            transferred this src m d' m' \<and>
            (first_slot_kept this (size_vec src) \<and> well_formed src m \<and> first_slot_kept src 0 \<longrightarrow>
               surplus_destroyed this src m m' (size_vec src))) \<and>
         (copy_ctor D al g src m = Returned (d', m') \<longrightarrow>
            transferred this src m d' m' \<and>
            (first_slot_kept this (size_vec src) \<longrightarrow> surplus_destroyed this src m m' 0))) \<and>
      (fits this src m \<longrightarrow>
         (\<exists>d' s' m'. move_assign this src m = Returned ((d', s'), m')) \<and>
         (\<exists>d' m'. copy_assign this src m = Returned (d', m'))))"
proof -
  have tc: "transferred this src m d' m' \<and>
         (first_slot_kept this (size_vec src) \<and> well_formed src m \<and> first_slot_kept src 0 \<longrightarrow>
            surplus_destroyed this src m m' (size_vec src))"
    if "well_formed this m" "apart (data src) this m"
      "can_allocate (Alloc this) \<or> size_vec src \<le> buffer_capacity (Alloc this)"
      "take_and_clear this src m = Returned ((d', s'), m')"
    using take_and_clear_spec[OF that] take_and_clear_surplus[OF that(1) _ that(4), where ?m0.0 = m]
    by (simp add: transferred_def)
  have te: "transferred this src m d' m' \<and>
         (first_slot_kept this (size_vec src) \<longrightarrow> surplus_destroyed this src m m' 0)"
    if "well_formed this m" "apart (data src) this m"
      "can_allocate (Alloc this) \<or> size_vec src \<le> buffer_capacity (Alloc this)"
      "take_elements this (data src) (size_vec src) m = Returned (d', m')"
  proof -
    have "elements src m = map (\<lambda>k. read_slot m (ptr_add (data src) k)) [0..<size_vec src]"
      by (simp add: elements_def)
    then show ?thesis
      using take_elements_spec[OF that] take_elements_surplus[OF that(1,4)]
      by (simp add: transferred_def)
  qed
  have ret: "\<exists>d' m'. take_elements this (data src) (size_vec src) m = Returned (d', m')"
    if "well_formed this m" "fits this src m"
    using take_elements_returns[OF that(1), of "size_vec src" "data src"] that(2)
    by (simp add: fits_def)
  have main: "(move_assign this src m = Returned ((d', s'), m') \<longrightarrow>
         transferred this src m d' m' \<and>
         (first_slot_kept this (size_vec src) \<and> well_formed src m \<and> first_slot_kept src 0 \<longrightarrow>
            surplus_destroyed this src m m' (size_vec src))) \<and>
      (copy_assign this src m = Returned (d', m') \<longrightarrow>
         transferred this src m d' m' \<and>
         (first_slot_kept this (size_vec src) \<longrightarrow> surplus_destroyed this src m m' 0)) \<and>
      (this = uninitialised D al g \<longrightarrow>
         (move_ctor D al g src m = Returned ((d', s'), m') \<longrightarrow>
            transferred this src m d' m' \<and>
            (first_slot_kept this (size_vec src) \<and> well_formed src m \<and> first_slot_kept src 0 \<longrightarrow>
               surplus_destroyed this src m m' (size_vec src))) \<and>
         (copy_ctor D al g src m = Returned (d', m') \<longrightarrow>
            transferred this src m d' m' \<and>
            (first_slot_kept this (size_vec src) \<longrightarrow> surplus_destroyed this src m m' 0))) \<and>
      (fits this src m \<longrightarrow>
         (\<exists>d' s' m'. move_assign this src m = Returned ((d', s'), m')) \<and>
         (\<exists>d' m'. copy_assign this src m = Returned (d', m')))"
    if ne: "backing_allocator_of (Alloc this) \<noteq> backing_allocator_of (Alloc src)"
      and wf: "well_formed this m" and ap: "apart (data src) this m"
      and room: "can_allocate (Alloc this) \<or> size_vec src \<le> buffer_capacity (Alloc this)"
  proof -
    have ma: "move_assign this src m = take_and_clear this src m"
      by (rule generic_path(2)[OF ne refl])
    have cpa: "copy_assign this src m = take_elements this (data src) (size_vec src) m"
      by (rule generic_path(3)[OF ne refl])
    have ctor: "move_ctor D al g src m = take_and_clear this src m"
      "copy_ctor D al g src m = take_elements this (data src) (size_vec src) m"
      if "this = uninitialised D al g"
    proof -
      have "Alloc this = D" using that by (simp add: uninitialised_def)
      then have "backing_allocator_of D \<noteq> backing_allocator_of (Alloc src)" using ne by simp
      from generic_path(1)[OF this] that
      show "move_ctor D al g src m = take_and_clear this src m" by simp
      show "copy_ctor D al g src m = take_elements this (data src) (size_vec src) m"
        using that by (simp add: copy_ctor_def copy_elements_take)
    qed
    have p1: "move_assign this src m = Returned ((d', s'), m') \<longrightarrow>
         transferred this src m d' m' \<and>
         (first_slot_kept this (size_vec src) \<and> well_formed src m \<and> first_slot_kept src 0 \<longrightarrow>
            surplus_destroyed this src m m' (size_vec src))"
      unfolding ma using tc[OF wf ap room] by blast
    have p2: "copy_assign this src m = Returned (d', m') \<longrightarrow>
         transferred this src m d' m' \<and>
         (first_slot_kept this (size_vec src) \<longrightarrow> surplus_destroyed this src m m' 0)"
      unfolding cpa using te[OF wf ap room] by blast
    have p3: "move_ctor D al g src m = Returned ((d', s'), m') \<longrightarrow>
            transferred this src m d' m' \<and>
            (first_slot_kept this (size_vec src) \<and> well_formed src m \<and> first_slot_kept src 0 \<longrightarrow>
               surplus_destroyed this src m m' (size_vec src))"
      if "this = uninitialised D al g"
      unfolding ctor(1)[OF that] using tc[OF wf ap room] by blast
    have p4: "copy_ctor D al g src m = Returned (d', m') \<longrightarrow>
            transferred this src m d' m' \<and>
            (first_slot_kept this (size_vec src) \<longrightarrow> surplus_destroyed this src m m' 0)"
      if "this = uninitialised D al g"
      unfolding ctor(2)[OF that] using te[OF wf ap room] by blast
    have p5: "fits this src m \<longrightarrow>
         (\<exists>d' s' m'. move_assign this src m = Returned ((d', s'), m')) \<and>
         (\<exists>d' m'. copy_assign this src m = Returned (d', m'))"
      unfolding ma cpa using ret[OF wf] take_and_clear_returns[OF wf] by blast
    show ?thesis
      using p1 p2 p3 p4 p5 by blast
  qed
  have e1: "move_ctor D al g src m = Returned ((d', s'), m') \<longrightarrow> size_vec s' = 0"
    using move_source_empty(1) by blast
  have e2: "move_assign this src m = Returned ((d', s'), m') \<longrightarrow> size_vec s' = 0"
    using move_source_empty(2) by blast
  show ?thesis
    using e1 e2 main by blast
qed

theorem fallback_transfer_witness:
  "backing_allocator_of (Alloc (static_full (static_vector_throw 3))) \<noteq>
     backing_allocator_of (Alloc pool_two) \<and>
   well_formed (static_full (static_vector_throw 3)) sbo_four_memory \<and>
   apart (data pool_two) (static_full (static_vector_throw 3)) sbo_four_memory \<and>
   size_vec pool_two \<le> buffer_capacity (Alloc (static_full (static_vector_throw 3))) \<and>
   fits (static_full (static_vector_throw 3)) pool_two sbo_four_memory \<and>
   first_slot_kept (static_full (static_vector_throw 3)) (size_vec pool_two) \<and>
   well_formed pool_two sbo_four_memory \<and> first_slot_kept pool_two 0 \<and>
   size_vec (static_full (static_vector_throw 3)) = 3 \<and> size_vec pool_two = 2 \<and>
   destructions sbo_four_memory = 0 \<and>
   (\<exists>d' s' m'. move_assign (static_full (static_vector_throw 3)) pool_two sbo_four_memory =
        Returned ((d', s'), m') \<and> size_vec s' = 0 \<and> elements d' m' = [Some 1, Some 2] \<and>
        assignments m' = 2 \<and> constructions m' = 7 \<and> destructions m' = 3) \<and>
   (\<exists>d' m'. copy_assign (static_full (static_vector_throw 3)) pool_two sbo_four_memory =
        Returned (d', m') \<and> elements d' m' = [Some 1, Some 2] \<and>
        assignments m' = 2 \<and> constructions m' = 7 \<and> destructions m' = 1) \<and>
   (\<exists>d' s' m'. move_ctor (static_vector_throw 3) \<lparr>m_data = 0, m_backingAllocator = 0\<rparr> 3
        pool_two sbo_four_memory = Returned ((d', s'), m') \<and> size_vec s' = 0 \<and>
        elements d' m' = [Some 1, Some 2])"
proof -
  let ?dst = "static_full (static_vector_throw 3)"
  note f = static_dest_facts
  have room: "size_vec pool_two \<le> buffer_capacity (Alloc ?dst)" by (simp add: f(7,9))
  have fit: "fits ?dst pool_two sbo_four_memory"
    using f(3) room by (simp add: fits_def)
  have cnt: "assignments sbo_four_memory = 0" "constructions sbo_four_memory = 7"
    "size_vec ?dst = 3" "capacity ?dst = 3" "destructions sbo_four_memory = 0"
    by (simp_all add: sbo_four_memory_def size_vec_def capacity_def f(3,9))
      (simp add: static_full_def)
  have k: "first_slot_kept ?dst (size_vec pool_two)" "first_slot_kept pool_two 0"
    "well_formed pool_two sbo_four_memory"
    by (simp_all add: first_slot_kept_def f(7) on_inline_buffer_def pool_two_def
        well_formed_def propagating_allocator_def get_can_allocate_def sbo_four_memory_def
        size_vec_def capacity_def)
  note t = fallback_transfer[where this = "?dst" and src = pool_two and m = sbo_four_memory
      and D = "static_vector_throw 3" and al = "\<lparr>m_data = 0, m_backingAllocator = 0\<rparr>" and g = 3]
  from t f(4,2,6) room fit obtain d' s' m' where
    r: "move_assign ?dst pool_two sbo_four_memory = Returned ((d', s'), m')"
    by blast
  have p: "size_vec s' = 0 \<and> transferred ?dst pool_two sbo_four_memory d' m' \<and>
      surplus_destroyed ?dst pool_two sbo_four_memory m' (size_vec pool_two)"
    using fallback_transfer[where this = "?dst" and src = pool_two and m = sbo_four_memory
      and d' = d' and s' = s' and m' = m'] f(4,2,6) room r k
    by blast
  have a: "\<exists>d' s' m'. move_assign ?dst pool_two sbo_four_memory =
        Returned ((d', s'), m') \<and> size_vec s' = 0 \<and> elements d' m' = [Some 1, Some 2] \<and>
        assignments m' = 2 \<and> constructions m' = 7 \<and> destructions m' = 3"
    using r p by (auto simp: transferred_def surplus_destroyed_def f(7,11) cnt)
  from t f(4,2,6) room fit obtain c' n' where
    rc: "copy_assign ?dst pool_two sbo_four_memory = Returned (c', n')"
    by blast
  have pc: "transferred ?dst pool_two sbo_four_memory c' n' \<and>
      surplus_destroyed ?dst pool_two sbo_four_memory n' 0"
    using fallback_transfer[where this = "?dst" and src = pool_two and m = sbo_four_memory
      and d' = c' and m' = n'] f(4,2,6) room rc k
    by blast
  have c: "\<exists>d' m'. copy_assign ?dst pool_two sbo_four_memory =
        Returned (d', m') \<and> elements d' m' = [Some 1, Some 2] \<and>
        assignments m' = 2 \<and> constructions m' = 7 \<and> destructions m' = 1"
    using rc pc by (auto simp: transferred_def surplus_destroyed_def f(7,11) cnt)
  have eq: "move_ctor (static_vector_throw 3) \<lparr>m_data = 0, m_backingAllocator = 0\<rparr> 3
        pool_two sbo_four_memory = move_assign ?dst pool_two sbo_four_memory"
  proof -
    have ne: "backing_allocator_of (static_vector_throw 3) \<noteq> backing_allocator_of (Alloc pool_two)"
      using f(4) by (simp add: f(12))
    have "move_ctor (static_vector_throw 3) \<lparr>m_data = 0, m_backingAllocator = 0\<rparr> 3
        pool_two sbo_four_memory =
        take_and_clear (uninitialised (static_vector_throw 3)
          \<lparr>m_data = 0, m_backingAllocator = 0\<rparr> 3) pool_two sbo_four_memory"
      by (rule generic_path(1)[OF ne])
    also have "\<dots> = take_and_clear ?dst pool_two sbo_four_memory"
      by (simp only: f(1)[symmetric])
    also have "\<dots> = move_assign ?dst pool_two sbo_four_memory"
      by (rule generic_path(2)[OF f(4) refl, symmetric])
    finally show ?thesis .
  qed
  have a': "\<exists>d' s' m'. move_assign ?dst pool_two sbo_four_memory =
        Returned ((d', s'), m') \<and> size_vec s' = 0 \<and> elements d' m' = [Some 1, Some 2]"
    using a by blast
  show ?thesis
    using a c a' f(4,2,6,7) room fit k cnt(3,5) unfolding eq by blast
qed

text \<open>
  C2. The move constructor and the move assignment are documented to use the same
  capacity and size test (both comments read "src has allocated, and I would/will have to
  allocate"), but the constructor joins the two comparisons with "or" where the assignment
  joins them with "and". For a source over \<open>buffered_allocator<T, 3>\<close> that holds five
  elements in a heap block of five, moved into a destination over
  \<open>buffered_allocator<T, 10>\<close>, the constructor's test holds and the assignment's fails.
\<close>

theorem move_tests_differ:
  "move_ctor_steals (sbo_vector 10 std_allocator) (sbo_vector 3 std_allocator) 5 5 \<and>
   \<not> move_assign_eligible (sbo_vector 10 std_allocator) (sbo_vector 3 std_allocator) 5 5"
  by (simp add: move_ctor_steals_def move_assign_eligible_def same_backing_can_allocate_def
      sbo_vector_def std_allocator_def get_can_allocate_def)

end
